(* ===== verification/Detrix_Prelude.thy ===== *)
theory Detrix_Prelude
  imports Main "HOL-Library.Word" "HOL-Library.Sublist"
begin

text \<open>
  Shared vocabulary of the development: Rust's machine integers, the result type and
  its \<open>?\<close> operator, and the parts of Rust's string library that the modelled
  crates use. A Rust \<open>String\<close> is the list of its UTF-8 bytes, so that \<open>len()\<close>
  is \<open>length\<close> and every byte-level function below computes what the char-level
  function of the standard library computes on valid UTF-8. Integer arithmetic is
  that of the release profile: \<open>+\<close>, \<open>-\<close> and \<open>*\<close> on a word wrap around.
\<close>

named_theorems rust_std \<open>characteristic equations of the modelled standard library\<close>
named_theorems inv_intro \<open>operations preserve the invariants of their component\<close>


section \<open>Machine integers and results\<close>

type_synonym u8 = "8 word"
type_synonym u16 = "16 word"
type_synonym u32 = "32 word"
type_synonym u64 = "64 word"
type_synonym i64 = "64 word"

text \<open>A float is its IEEE 754 bit pattern.\<close>

type_synonym f32 = "32 word"
type_synonym f64 = "64 word"

text \<open>\<open>saturating_sub\<close>: stops at zero instead of wrapping.\<close>

definition saturating_sub :: "'a::len word \<Rightarrow> 'a word \<Rightarrow> 'a word" where
  "saturating_sub a b = (if a < b then 0 else a - b)"

definition saturating_add :: "'a::len word \<Rightarrow> 'a word \<Rightarrow> 'a word" where
  "saturating_add a b = (if unat a + unat b < 2 ^ LENGTH('a) then a + b else - 1)"

lemma unat_saturating_sub [rust_std]: "unat (saturating_sub a b) = unat a - unat b"
  by (auto simp: saturating_sub_def word_less_nat_alt unat_sub word_le_nat_alt)

lemma saturating_sub_self [simp]: "saturating_sub a a = 0"
  by (simp add: saturating_sub_def)

lemma unat_max_word: "unat (- 1 :: 'a::len word) = 2 ^ LENGTH('a) - 1"
  by (simp add: unat_eq_nat_uint unsigned_minus_1_eq_mask mask_eq_exp_minus_1 nat_diff_distrib nat_power_eq)

lemma unat_saturating_add [rust_std]:
  "unat (saturating_add a (b :: 'a::len word)) = min (unat a + unat b) (2 ^ LENGTH('a) - 1)"
  by (auto simp: saturating_add_def unat_word_ariths unat_max_word min_def)

text \<open>A counter of width \<open>'a\<close> counts up to its width.\<close>

lemma unat_count_Suc:
  assumes "Suc n < 2 ^ LENGTH('a)"
  shows "unat (word_of_nat n + 1 :: 'a::len word) = Suc n"
proof -
  have "word_of_nat n + 1 = (word_of_nat (Suc n) :: 'a word)" by simp
  then show ?thesis using assms by (simp only: unat_of_nat take_bit_nat_eq_self)
    (simp add: take_bit_nat_eq_self)
qed

text \<open>The \<open>?\<close> operator: an error returns early, a value goes on.\<close>

definition try_bind :: "'e + 'a \<Rightarrow> ('a \<Rightarrow> 'e + 'b) \<Rightarrow> 'e + 'b" where
  "try_bind r f = (case r of Inl e \<Rightarrow> Inl e | Inr a \<Rightarrow> f a)"

lemma try_bind_simps [simp]:
  "try_bind (Inl e) f = Inl e"
  "try_bind (Inr a) f = f a"
  by (simp_all add: try_bind_def)

lemma try_bind_Inr_iff: "try_bind r f = Inr b \<longleftrightarrow> (\<exists>a. r = Inr a \<and> f a = Inr b)"
  by (cases r) simp_all

lemma try_bind_unit_iff: "try_bind (r :: 'e + unit) f = Inr b \<longleftrightarrow> r = Inr () \<and> f () = Inr b"
  by (auto simp: try_bind_Inr_iff)

lemma try_bind_Inl_iff:
  "try_bind r f = Inl e \<longleftrightarrow> r = Inl e \<or> (\<exists>a. r = Inr a \<and> f a = Inl e)"
  by (cases r) simp_all

lemma map_sum_id_Inr [simp]: "map_sum h id r = Inr b \<longleftrightarrow> r = Inr b"
  by (cases r) simp_all

definition is_ok :: "'e + 'a \<Rightarrow> bool" where
  "is_ok r \<longleftrightarrow> (case r of Inl _ \<Rightarrow> False | Inr _ \<Rightarrow> True)"

lemma is_ok_simps [simp]: "\<not> is_ok (Inl e)" "is_ok (Inr a)"
  by (simp_all add: is_ok_def)


section \<open>Characters and strings\<close>

definition byte_of :: "char \<Rightarrow> nat" where
  "byte_of c = of_char c"

definition is_digit :: "char \<Rightarrow> bool" where
  "is_digit c \<longleftrightarrow> 48 \<le> byte_of c \<and> byte_of c \<le> 57"

definition is_ascii_alphabetic :: "char \<Rightarrow> bool" where
  "is_ascii_alphabetic c \<longleftrightarrow>
     (65 \<le> byte_of c \<and> byte_of c \<le> 90) \<or> (97 \<le> byte_of c \<and> byte_of c \<le> 122)"

definition is_ascii_alphanumeric :: "char \<Rightarrow> bool" where
  "is_ascii_alphanumeric c \<longleftrightarrow> is_ascii_alphabetic c \<or> is_digit c"

definition is_ascii :: "string \<Rightarrow> bool" where
  "is_ascii s \<longleftrightarrow> list_all (\<lambda>c. byte_of c < 128) s"

definition to_ascii_lowercase_char :: "char \<Rightarrow> char" where
  "to_ascii_lowercase_char c =
     (if 65 \<le> byte_of c \<and> byte_of c \<le> 90 then char_of (byte_of c + 32) else c)"

text \<open>
  \<open>str::to_lowercase\<close> as far as a comparison with an ASCII literal can see it: the
  ASCII letters, and the one other character whose lower case is ASCII, the Kelvin
  sign U+212A. Other non-ASCII letters stay as they are, so they differ from every
  ASCII literal before and after.
\<close>

fun to_lowercase :: "string \<Rightarrow> string" where
  "to_lowercase [] = []"
| "to_lowercase (c # cs) =
     (if prefix [CHR 0xE2, CHR 0x84, CHR 0xAA] (c # cs) then CHR ''k'' # to_lowercase (drop 2 cs)
      else to_ascii_lowercase_char c # to_lowercase cs)"

text \<open>The UTF-8 encodings of the characters with the Unicode White\_Space property.\<close>

definition white_space :: "string list" where
  "white_space =
     [[CHR 0x20], [CHR 0x09], [CHR 0x0A], [CHR 0x0B], [CHR 0x0C], [CHR 0x0D],
      [CHR 0xC2, CHR 0x85], [CHR 0xC2, CHR 0xA0], [CHR 0xE1, CHR 0x9A, CHR 0x80],
      [CHR 0xE2, CHR 0x80, CHR 0x80], [CHR 0xE2, CHR 0x80, CHR 0x81],
      [CHR 0xE2, CHR 0x80, CHR 0x82], [CHR 0xE2, CHR 0x80, CHR 0x83],
      [CHR 0xE2, CHR 0x80, CHR 0x84], [CHR 0xE2, CHR 0x80, CHR 0x85],
      [CHR 0xE2, CHR 0x80, CHR 0x86], [CHR 0xE2, CHR 0x80, CHR 0x87],
      [CHR 0xE2, CHR 0x80, CHR 0x88], [CHR 0xE2, CHR 0x80, CHR 0x89],
      [CHR 0xE2, CHR 0x80, CHR 0x8A], [CHR 0xE2, CHR 0x80, CHR 0xA8],
      [CHR 0xE2, CHR 0x80, CHR 0xA9], [CHR 0xE2, CHR 0x80, CHR 0xAF],
      [CHR 0xE2, CHR 0x81, CHR 0x9F], [CHR 0xE3, CHR 0x80, CHR 0x80]]"

text \<open>Strips words of a list from the front of a string as long as one fits.\<close>

function strip_words :: "string list \<Rightarrow> string \<Rightarrow> string" where
  "strip_words ws s =
     (case find (\<lambda>w. w \<noteq> [] \<and> prefix w s) ws of
        None \<Rightarrow> s
      | Some w \<Rightarrow> strip_words ws (drop (length w) s))"
  by pat_completeness auto
termination
  by (relation "measure (\<lambda>(ws, s). length s)")
     (auto simp: find_Some_iff prefix_def)

declare strip_words.simps [simp del]

definition trim_start :: "string \<Rightarrow> string" where
  "trim_start s = strip_words white_space s"

definition trim_end :: "string \<Rightarrow> string" where
  "trim_end s = rev (strip_words (map rev white_space) (rev s))"

definition trim :: "string \<Rightarrow> string" where
  "trim s = trim_end (trim_start s)"

text \<open>\<open>s.chars().all(char::is_whitespace)\<close> and \<open>s.chars().any(char::is_control)\<close>.\<close>

definition all_whitespace :: "string \<Rightarrow> bool" where
  "all_whitespace s \<longleftrightarrow> trim_start s = []"

fun has_control :: "string \<Rightarrow> bool" where
  "has_control [] = False"
| "has_control (c # cs) =
     (byte_of c < 32 \<or> byte_of c = 127 \<or>
      (c = CHR 0xC2 \<and> (case cs of [] \<Rightarrow> False | d # _ \<Rightarrow> 128 \<le> byte_of d \<and> byte_of d \<le> 159)) \<or>
      has_control cs)"

text \<open>\<open>strip_prefix\<close>, \<open>trim_start_matches\<close>, \<open>trim_matches\<close>, \<open>replace\<close> of characters.\<close>

definition strip_prefix :: "string \<Rightarrow> string \<Rightarrow> string option" where
  "strip_prefix p s = (if prefix p s then Some (drop (length p) s) else None)"

lemma strip_prefix_append: "strip_prefix p (p @ s) = Some s"
  by (simp add: strip_prefix_def)

definition trim_start_matches :: "string \<Rightarrow> string \<Rightarrow> string" where
  "trim_start_matches p s = strip_words [p] s"

definition trim_matches_char :: "char \<Rightarrow> string \<Rightarrow> string" where
  "trim_matches_char c s = rev (dropWhile (\<lambda>d. d = c) (rev (dropWhile (\<lambda>d. d = c) s)))"

definition replace_chars :: "char list \<Rightarrow> char \<Rightarrow> string \<Rightarrow> string" where
  "replace_chars from to s = map (\<lambda>c. if c \<in> set from then to else c) s"

text \<open>\<open>contains\<close> of a substring, \<open>split_once\<close> and \<open>rsplit_once\<close> at a character.\<close>

definition contains_str :: "string \<Rightarrow> string \<Rightarrow> bool" where
  "contains_str s p \<longleftrightarrow> sublist p s"

definition split_once :: "char \<Rightarrow> string \<Rightarrow> (string \<times> string) option" where
  "split_once c s =
     (if c \<in> set s then Some (takeWhile (\<lambda>d. d \<noteq> c) s, tl (dropWhile (\<lambda>d. d \<noteq> c) s)) else None)"

definition rsplit_once :: "char \<Rightarrow> string \<Rightarrow> (string \<times> string) option" where
  "rsplit_once c s = map_option (\<lambda>(a, b). (rev b, rev a)) (split_once c (rev s))"

text \<open>\<open>split\<close> at every occurrence of a character, \<open>join\<close>, and \<open>split_once\<close> at a substring.\<close>

primrec split_char :: "char \<Rightarrow> string \<Rightarrow> string list" where
  "split_char c [] = [[]]"
| "split_char c (x # xs) =
     (if x = c then [] # split_char c xs
      else (case split_char c xs of [] \<Rightarrow> [[x]] | p # ps \<Rightarrow> (x # p) # ps))"

fun join_str :: "string \<Rightarrow> string list \<Rightarrow> string" where
  "join_str sep [] = []"
| "join_str sep [x] = x"
| "join_str sep (x # y # xs) = x @ sep @ join_str sep (y # xs)"

fun split_once_str :: "string \<Rightarrow> string \<Rightarrow> (string \<times> string) option" where
  "split_once_str p [] = (if p = [] then Some ([], []) else None)"
| "split_once_str p (c # cs) =
     (if prefix p (c # cs) then Some ([], drop (length p) (c # cs))
      else map_option (\<lambda>(a, b). (c # a, b)) (split_once_str p cs))"


subsection \<open>Decimal numerals\<close>

definition digit_char :: "nat \<Rightarrow> char" where
  "digit_char d = char_of (48 + d)"

fun show_nat :: "nat \<Rightarrow> string" where
  "show_nat n = (if n < 10 then [digit_char n] else show_nat (n div 10) @ [digit_char (n mod 10)])"

declare show_nat.simps [simp del]

text \<open>\<open>Display\<close> of an \<open>i64\<close>.\<close>

definition show_i64 :: "i64 \<Rightarrow> string" where
  "show_i64 w = (if sint w < 0 then CHR ''-'' # show_nat (nat (- sint w)) else show_nat (nat (sint w)))"

text \<open>A text in single quotes, as many messages have it.\<close>

definition quoted :: "string \<Rightarrow> string" where
  "quoted s = CHR 0x27 # s @ [CHR 0x27]"

definition digits_value :: "string \<Rightarrow> nat" where
  "digits_value s = foldl (\<lambda>acc c. 10 * acc + (byte_of c - 48)) 0 s"

text \<open>\<open>str::parse\<close> for an unsigned type of the given width: an optional plus sign, digits, no overflow.\<close>

definition parse_unsigned :: "string \<Rightarrow> 'a::len word option" where
  "parse_unsigned s =
     (let d = (case s of [] \<Rightarrow> [] | c # cs \<Rightarrow> if c = CHR ''+'' then cs else s)
      in if d = [] \<or> \<not> list_all is_digit d then None
         else if digits_value d < 2 ^ LENGTH('a) then Some (of_nat (digits_value d))
         else None)"

text \<open>\<open>str::parse::<i64>\<close>: an optional sign, digits, and the range of the type.\<close>

definition parse_i64 :: "string \<Rightarrow> i64 option" where
  "parse_i64 s =
     (let neg = (s \<noteq> [] \<and> hd s = CHR ''-'');
          d = (if s \<noteq> [] \<and> (hd s = CHR ''-'' \<or> hd s = CHR ''+'') then tl s else s) in
      if d = [] \<or> \<not> list_all is_digit d then None
      else if neg then (if digits_value d \<le> 2 ^ 63 then Some (- of_nat (digits_value d)) else None)
      else if digits_value d < 2 ^ 63 then Some (of_nat (digits_value d)) else None)"


subsection \<open>Lemmas on strings\<close>

lemma byte_of_less [simp]: "byte_of c < 256"
  by (simp add: byte_of_def)

lemma byte_of_digit_char [simp]: "d < 10 \<Longrightarrow> byte_of (digit_char d) = 48 + d"
  by (simp add: byte_of_def digit_char_def)

lemma is_digit_digit_char [simp]: "d < 10 \<Longrightarrow> is_digit (digit_char d)"
  by (simp add: is_digit_def)

lemma show_nat_digits [simp]: "list_all is_digit (show_nat n)"
  by (induction n rule: show_nat.induct) (subst show_nat.simps, auto)

lemma show_nat_nonempty [simp]: "show_nat n \<noteq> []"
  by (subst show_nat.simps) simp

lemma digits_value_snoc [simp]: "digits_value (s @ [c]) = 10 * digits_value s + (byte_of c - 48)"
  by (simp add: digits_value_def)

lemma digits_value_show_nat [rust_std, simp]: "digits_value (show_nat n) = n"
proof (induction n rule: show_nat.induct)
  case (1 n)
  show ?case
  proof (cases "n < 10")
    case True
    then show ?thesis by (subst show_nat.simps) (simp add: digits_value_def)
  next
    case False
    with 1 show ?thesis by (subst show_nat.simps) simp
  qed
qed

lemma show_nat_inj [simp]: "show_nat m = show_nat n \<longleftrightarrow> m = n"
  by (metis digits_value_show_nat)

lemma show_nat_hd_digit: "show_nat n = c # cs \<Longrightarrow> is_digit c"
  using show_nat_digits[of n] by simp

lemma parse_unsigned_show_nat [rust_std]:
  assumes "n < 2 ^ LENGTH('a::len)"
  shows "parse_unsigned (show_nat n) = Some (of_nat n :: 'a word)"
proof -
  obtain c cs where s: "show_nat n = c # cs" by (cases "show_nat n") auto
  then have "c \<noteq> CHR ''+''"
    by (auto dest!: show_nat_hd_digit simp: is_digit_def byte_of_def)
  with s assms show ?thesis
    using show_nat_digits[of n] digits_value_show_nat[of n]
    by (simp add: parse_unsigned_def)
qed

lemma parse_unsigned_show_word [rust_std]: "parse_unsigned (show_nat (unat w)) = Some w"
  by (simp add: parse_unsigned_show_nat)

lemma split_once_first:
  assumes "c \<notin> set a"
  shows "split_once c (a @ c # b) = Some (a, b)"
proof -
  have "takeWhile (\<lambda>d. d \<noteq> c) (a @ c # b) = a" "dropWhile (\<lambda>d. d \<noteq> c) (a @ c # b) = c # b"
    using assms by (induction a) auto
  then show ?thesis by (simp add: split_once_def)
qed

lemma rsplit_once_last:
  assumes "c \<notin> set b"
  shows "rsplit_once c (a @ c # b) = Some (a, b)"
proof -
  have "split_once c (rev b @ c # rev a) = Some (rev b, rev a)"
    using assms by (intro split_once_first) simp
  then show ?thesis by (simp add: rsplit_once_def)
qed

lemma split_once_Some:
  assumes "split_once c s = Some (a, b)"
  shows "s = a @ c # b \<and> c \<notin> set a"
proof -
  from assms have c: "c \<in> set s"
    and ab: "a = takeWhile (\<lambda>d. d \<noteq> c) s" "b = tl (dropWhile (\<lambda>d. d \<noteq> c) s)"
    by (auto simp: split_once_def split: if_splits)
  from c have ne: "dropWhile (\<lambda>d. d \<noteq> c) s \<noteq> []" by auto
  then have "hd (dropWhile (\<lambda>d. d \<noteq> c) s) = c" using hd_dropWhile[OF ne] by simp
  with ne ab have "dropWhile (\<lambda>d. d \<noteq> c) s = c # b" by (cases "dropWhile (\<lambda>d. d \<noteq> c) s") auto
  then have "s = a @ c # b" using ab(1) takeWhile_dropWhile_id[of "\<lambda>d. d \<noteq> c" s] by simp
  moreover have "c \<notin> set a" using ab(1) by (auto dest: set_takeWhileD)
  ultimately show ?thesis by simp
qed

lemma rsplit_once_Some:
  assumes "rsplit_once c s = Some (a, b)"
  shows "s = a @ c # b \<and> c \<notin> set b"
proof -
  from assms have "split_once c (rev s) = Some (rev b, rev a)"
    by (auto simp: rsplit_once_def)
  then have "rev s = rev b @ c # rev a \<and> c \<notin> set (rev b)" by (rule split_once_Some)
  then show ?thesis by (simp add: rev_swap)
qed

lemma rsplit_once_None: "rsplit_once c s = None \<longleftrightarrow> c \<notin> set s"
  by (simp add: rsplit_once_def split_once_def)

lemma parse_i64_show_nat [rust_std]: "n < 2 ^ 63 \<Longrightarrow> parse_i64 (show_nat n) = Some (of_nat n)"
proof -
  assume n: "n < 2 ^ 63"
  have "is_digit (hd (show_nat n))"
    using show_nat_digits[of n] by (cases "show_nat n") simp_all
  then have "hd (show_nat n) \<noteq> CHR ''-''" "hd (show_nat n) \<noteq> CHR ''+''"
    by (auto simp: is_digit_def byte_of_def)
  with n show ?thesis by (simp add: parse_i64_def)
qed

lemma split_char_nonempty [simp]: "split_char c s \<noteq> []"
  by (induction s) (auto split: list.splits)

lemma split_char_absent: "c \<notin> set s \<Longrightarrow> split_char c s = [s]"
  by (induction s) auto

lemma split_char_append: "c \<notin> set a \<Longrightarrow> split_char c (a @ c # b) = a # split_char c b"
  by (induction a) auto

lemma split_char_join [rust_std]:
  assumes "ps \<noteq> []" "list_all (\<lambda>p. c \<notin> set p) ps"
  shows "split_char c (join_str [c] ps) = ps"
  using assms by (induction "[c]" ps rule: join_str.induct) (auto simp: split_char_absent split_char_append)

lemma split_once_str_first:
  assumes "p = c # cs" "c \<notin> set a"
  shows "split_once_str p (a @ p @ b) = Some (a, b)"
  using assms(2) by (induction a) (auto simp: assms(1))

lemma set_join_str: "set (join_str sep ps) \<subseteq> set sep \<union> \<Union> (set ` set ps)"
  by (induction sep ps rule: join_str.induct) auto


subsection \<open>Trimming\<close>

text \<open>A string that begins (ends) with no word of the list is left alone.\<close>

lemma strip_words_id: "list_all (\<lambda>w. w = [] \<or> \<not> prefix w s) ws \<Longrightarrow> strip_words ws s = s"
  by (subst strip_words.simps) (simp add: list_all_iff find_None_iff [THEN iffD2])

lemma strip_words_suffix: "suffix (strip_words ws s) s"
proof (induction ws s rule: strip_words.induct)
  case (1 ws s)
  show ?case
  proof (cases "find (\<lambda>w. w \<noteq> [] \<and> prefix w s) ws")
    case None
    then show ?thesis by (subst strip_words.simps) simp
  next
    case (Some w)
    with 1 have "suffix (strip_words ws (drop (length w) s)) (drop (length w) s)" by simp
    moreover have "suffix (drop (length w) s) s" by (rule suffix_drop)
    ultimately show ?thesis using Some
      by (subst strip_words.simps) (auto intro: suffix_order.trans)
  qed
qed

text \<open>The first byte of a printable character other than the listed lead bytes starts no white space.\<close>

definition plain_start :: "char \<Rightarrow> bool" where
  "plain_start c \<longleftrightarrow> 33 \<le> byte_of c \<and> byte_of c \<le> 126"

lemma white_space_heads: "list_all (\<lambda>w. w \<noteq> [] \<and> \<not> plain_start (hd w)) white_space"
  by code_simp

lemma white_space_lasts: "list_all (\<lambda>w. w \<noteq> [] \<and> \<not> plain_start (hd w)) (map rev white_space)"
  by code_simp

lemma prefix_Cons_hd: "prefix w (c # s) \<Longrightarrow> w \<noteq> [] \<Longrightarrow> hd w = c"
  by (cases w) auto

lemma plain_start_not_ws_prefix:
  "plain_start c \<Longrightarrow> w \<in> set white_space \<Longrightarrow> \<not> prefix w (c # s)"
  using bspec [OF white_space_heads [unfolded list_all_iff], of w] prefix_Cons_hd[of w c s] by auto

lemma plain_end_not_ws_prefix:
  "plain_start c \<Longrightarrow> w \<in> set (map rev white_space) \<Longrightarrow> \<not> prefix w (c # s)"
  using bspec [OF white_space_lasts [unfolded list_all_iff], of w] prefix_Cons_hd[of w c s] by auto

lemma trim_start_plain: "plain_start c \<Longrightarrow> trim_start (c # s) = c # s"
  unfolding trim_start_def
  by (rule strip_words_id) (auto simp: list_all_iff dest: plain_start_not_ws_prefix)

lemma trim_end_plain:
  assumes "plain_start c"
  shows "trim_end (s @ [c]) = s @ [c]"
proof -
  have "strip_words (map rev white_space) (c # rev s) = c # rev s"
    using plain_end_not_ws_prefix[OF assms] by (intro strip_words_id) (auto simp: list_all_iff)
  then show ?thesis by (simp add: trim_end_def)
qed

lemma trim_plain:
  assumes "plain_start c" "plain_start d"
  shows "trim (c # s @ [d]) = c # s @ [d]"
  using trim_end_plain[OF assms(2), of "c # s"] assms(1)
  by (simp add: trim_def trim_start_plain)

lemma plain_start_digit: "is_digit c \<Longrightarrow> plain_start c"
  by (simp add: is_digit_def plain_start_def)

lemma trim_start_space: "trim_start (CHR 0x20 # s) = trim_start s"
  unfolding trim_start_def
  by (subst strip_words.simps) (simp add: white_space_def)

lemma trim_end_crlf:
  assumes "plain_start d"
  shows "trim_end (s @ [d, CHR 0x0D, CHR 0x0A]) = s @ [d]"
proof -
  have "strip_words (map rev white_space) (CHR 0x0A # CHR 0x0D # d # rev s)
      = strip_words (map rev white_space) (d # rev s)"
    by (subst strip_words.simps, simp add: white_space_def, subst strip_words.simps, simp add: white_space_def)
  also have "\<dots> = d # rev s"
    using plain_end_not_ws_prefix[OF assms] by (intro strip_words_id) (auto simp: list_all_iff)
  finally show ?thesis by (simp add: trim_end_def)
qed

text \<open>A text of printable characters is not trimmed, and a word before a space is stripped once.\<close>

lemma trim_plain_text:
  assumes "s \<noteq> []" and "list_all plain_start s"
  shows "trim s = s"
proof -
  have start: "trim_start s = s" using assms by (cases s) (simp_all add: trim_start_plain)
  have "trim_end s = s"
    using assms by (cases s rule: rev_cases) (simp_all add: trim_end_plain)
  then show ?thesis by (simp add: trim_def start)
qed

lemma trim_start_matches_space:
  assumes "w \<noteq> []" and "hd w \<noteq> CHR 0x20"
  shows "trim_start_matches w (w @ CHR 0x20 # s) = CHR 0x20 # s"
proof -
  have "trim_start_matches w (w @ CHR 0x20 # s) = strip_words [w] (CHR 0x20 # s)"
    unfolding trim_start_matches_def using assms(1) by (subst strip_words.simps) simp
  also have "\<dots> = CHR 0x20 # s"
    using assms by (intro strip_words_id) (cases w, auto)
  finally show ?thesis .
qed

lemma trim_empty [simp]: "trim [] = []"
  by (simp add: trim_def trim_start_def trim_end_def strip_words_id list_all_iff)


subsection \<open>Maps\<close>

text \<open>A change at a key that does not concern \<open>P\<close>, before or after, keeps the values with \<open>P\<close>.\<close>

lemma ran_upd_irrelevant:
  assumes "\<And>x. f k = Some x \<Longrightarrow> \<not> P x" "\<And>x. new = Some x \<Longrightarrow> \<not> P x"
  shows "{x \<in> ran (f(k := new)). P x} = {x \<in> ran f. P x}"
proof (intro set_eqI iffI)
  fix x assume "x \<in> {x \<in> ran (f(k := new)). P x}"
  then obtain a where "(f(k := new)) a = Some x" "P x" by (auto simp: ran_def)
  with assms(2) show "x \<in> {x \<in> ran f. P x}" by (cases "a = k") (auto simp: ran_def)
next
  fix x assume "x \<in> {x \<in> ran f. P x}"
  then obtain a where a: "f a = Some x" "P x" by (auto simp: ran_def)
  with assms(1) have "a \<noteq> k" by auto
  with a have "(f(k := new)) a = Some x" by simp
  with a(2) show "x \<in> {x \<in> ran (f(k := new)). P x}" by (auto simp: ran_def intro!: exI[of _ a])
qed

end
