(* ===== verification/Core_Error.thy ===== *)
theory Core_Error
  imports Detrix_Prelude
begin

text \<open>
  The error vocabulary of \<open>detrix-core\<close> (\<open>src/crates/detrix-core/src/error.rs\<close>): the
  machine-readable codes handed to API clients, the retry categories, and the error
  values every fallible operation of the other theories returns. The lemmas show that
  codes and code names identify an error code uniquely and that a code's category is
  what the retry logic and the circuit breaker of the agent adapter rely on.
\<close>


section \<open>Error codes and categories\<close>

datatype error_code =
    EC_MetricNotFound
  | EC_MetricInvalidName
  | EC_MetricInvalidLocation
  | EC_MetricDuplicate
  | EC_MetricLocationConflict
  | EC_MetricInvalidExpression
  | EC_MetricExpressionTooLong
  | EC_InvalidTenantId
  | EC_SafetyViolation
  | EC_SafetyAstFailed
  | EC_SafetyError
  | EC_SafetyUnsupportedLanguage
  | EC_SafetyProcessSpawn
  | EC_SafetyProcessTimeout
  | EC_SafetyOutputParse
  | EC_SafetyProcessExecution
  | EC_SafetyHashVerification
  | EC_SafeModeViolation
  | EC_ConfigInvalid
  | EC_ConfigTomlParse
  | EC_ConfigTomlSerialize
  | EC_ConfigReadFailed
  | EC_ConfigWriteFailed
  | EC_ConfigRestartRequired
  | EC_ConfigInvalidValue
  | EC_ConfigEnvironmentValidation
  | EC_ConnectionNotConnected
  | EC_ConnectionNotFound
  | EC_FileReadFailed
  | EC_FileParseFailed
  | EC_AnalyzerNotFound
  | EC_CommandFailed
  | EC_InvalidPath
  | EC_FileNotFound
  | EC_NotAFile
  | EC_LineNotFound
  | EC_VariableNotInExecutableScope
  | EC_DatabaseError
  | EC_AdapterError
  | EC_IoError
  | EC_SerializationError
  | EC_OutputError
  | EC_Unauthorized
  | EC_Forbidden
  | EC_RemoteAppError
  | EC_InternalError
  | EC_StorageError
  | EC_PartialGroupFailure
  | EC_RollbackFailure
  | EC_SubprocessTimeout

datatype error_category = Retryable | Terminal | Security | Internal

text \<open>\<open>ErrorCode::as_u16\<close>: the discriminants of the enum.\<close>

primrec code_as_u16 :: "error_code \<Rightarrow> u16" where
  "code_as_u16 EC_MetricNotFound = 1001"
| "code_as_u16 EC_MetricInvalidName = 1002"
| "code_as_u16 EC_MetricInvalidLocation = 1003"
| "code_as_u16 EC_MetricDuplicate = 1004"
| "code_as_u16 EC_MetricLocationConflict = 1005"
| "code_as_u16 EC_MetricInvalidExpression = 1006"
| "code_as_u16 EC_MetricExpressionTooLong = 1007"
| "code_as_u16 EC_InvalidTenantId = 1008"
| "code_as_u16 EC_SafetyViolation = 2001"
| "code_as_u16 EC_SafetyAstFailed = 2002"
| "code_as_u16 EC_SafetyError = 2003"
| "code_as_u16 EC_SafetyUnsupportedLanguage = 2004"
| "code_as_u16 EC_SafetyProcessSpawn = 2005"
| "code_as_u16 EC_SafetyProcessTimeout = 2006"
| "code_as_u16 EC_SafetyOutputParse = 2007"
| "code_as_u16 EC_SafetyProcessExecution = 2008"
| "code_as_u16 EC_SafetyHashVerification = 2009"
| "code_as_u16 EC_SafeModeViolation = 2010"
| "code_as_u16 EC_ConfigInvalid = 3001"
| "code_as_u16 EC_ConfigTomlParse = 3002"
| "code_as_u16 EC_ConfigTomlSerialize = 3003"
| "code_as_u16 EC_ConfigReadFailed = 3004"
| "code_as_u16 EC_ConfigWriteFailed = 3005"
| "code_as_u16 EC_ConfigRestartRequired = 3006"
| "code_as_u16 EC_ConfigInvalidValue = 3007"
| "code_as_u16 EC_ConfigEnvironmentValidation = 3008"
| "code_as_u16 EC_ConnectionNotConnected = 4001"
| "code_as_u16 EC_ConnectionNotFound = 4002"
| "code_as_u16 EC_FileReadFailed = 4301"
| "code_as_u16 EC_FileParseFailed = 4302"
| "code_as_u16 EC_AnalyzerNotFound = 4303"
| "code_as_u16 EC_CommandFailed = 4304"
| "code_as_u16 EC_InvalidPath = 4305"
| "code_as_u16 EC_FileNotFound = 4306"
| "code_as_u16 EC_NotAFile = 4307"
| "code_as_u16 EC_LineNotFound = 4308"
| "code_as_u16 EC_VariableNotInExecutableScope = 4309"
| "code_as_u16 EC_DatabaseError = 5001"
| "code_as_u16 EC_AdapterError = 5002"
| "code_as_u16 EC_IoError = 5003"
| "code_as_u16 EC_SerializationError = 5004"
| "code_as_u16 EC_OutputError = 5005"
| "code_as_u16 EC_Unauthorized = 6001"
| "code_as_u16 EC_Forbidden = 6002"
| "code_as_u16 EC_RemoteAppError = 7001"
| "code_as_u16 EC_InternalError = 9001"
| "code_as_u16 EC_StorageError = 9002"
| "code_as_u16 EC_PartialGroupFailure = 9003"
| "code_as_u16 EC_RollbackFailure = 9004"
| "code_as_u16 EC_SubprocessTimeout = 9005"

text \<open>\<open>ErrorCode::category\<close>.\<close>

primrec code_category :: "error_code \<Rightarrow> error_category" where
  "code_category EC_MetricNotFound = Terminal"
| "code_category EC_MetricInvalidName = Terminal"
| "code_category EC_MetricInvalidLocation = Terminal"
| "code_category EC_MetricDuplicate = Terminal"
| "code_category EC_MetricLocationConflict = Terminal"
| "code_category EC_MetricInvalidExpression = Terminal"
| "code_category EC_MetricExpressionTooLong = Terminal"
| "code_category EC_InvalidTenantId = Terminal"
| "code_category EC_SafetyViolation = Terminal"
| "code_category EC_SafetyAstFailed = Terminal"
| "code_category EC_SafetyError = Terminal"
| "code_category EC_SafetyUnsupportedLanguage = Terminal"
| "code_category EC_SafetyProcessSpawn = Terminal"
| "code_category EC_SafetyProcessTimeout = Terminal"
| "code_category EC_SafetyOutputParse = Terminal"
| "code_category EC_SafetyProcessExecution = Terminal"
| "code_category EC_SafetyHashVerification = Terminal"
| "code_category EC_SafeModeViolation = Terminal"
| "code_category EC_ConfigInvalid = Terminal"
| "code_category EC_ConfigTomlParse = Terminal"
| "code_category EC_ConfigTomlSerialize = Terminal"
| "code_category EC_ConfigReadFailed = Terminal"
| "code_category EC_ConfigWriteFailed = Terminal"
| "code_category EC_ConfigRestartRequired = Terminal"
| "code_category EC_ConfigInvalidValue = Terminal"
| "code_category EC_ConfigEnvironmentValidation = Terminal"
| "code_category EC_ConnectionNotConnected = Retryable"
| "code_category EC_ConnectionNotFound = Terminal"
| "code_category EC_FileReadFailed = Terminal"
| "code_category EC_FileParseFailed = Terminal"
| "code_category EC_AnalyzerNotFound = Terminal"
| "code_category EC_CommandFailed = Terminal"
| "code_category EC_InvalidPath = Terminal"
| "code_category EC_FileNotFound = Terminal"
| "code_category EC_NotAFile = Terminal"
| "code_category EC_LineNotFound = Terminal"
| "code_category EC_VariableNotInExecutableScope = Terminal"
| "code_category EC_DatabaseError = Retryable"
| "code_category EC_AdapterError = Retryable"
| "code_category EC_IoError = Retryable"
| "code_category EC_SerializationError = Internal"
| "code_category EC_OutputError = Internal"
| "code_category EC_Unauthorized = Security"
| "code_category EC_Forbidden = Security"
| "code_category EC_RemoteAppError = Retryable"
| "code_category EC_InternalError = Internal"
| "code_category EC_StorageError = Internal"
| "code_category EC_PartialGroupFailure = Internal"
| "code_category EC_RollbackFailure = Internal"
| "code_category EC_SubprocessTimeout = Retryable"

text \<open>\<open>ErrorCode::name\<close>.\<close>

primrec code_name_of :: "error_code \<Rightarrow> string" where
  "code_name_of EC_MetricNotFound = ''METRIC_NOT_FOUND''"
| "code_name_of EC_MetricInvalidName = ''METRIC_INVALID_NAME''"
| "code_name_of EC_MetricInvalidLocation = ''METRIC_INVALID_LOCATION''"
| "code_name_of EC_MetricDuplicate = ''METRIC_DUPLICATE''"
| "code_name_of EC_MetricLocationConflict = ''METRIC_LOCATION_CONFLICT''"
| "code_name_of EC_MetricInvalidExpression = ''METRIC_INVALID_EXPRESSION''"
| "code_name_of EC_MetricExpressionTooLong = ''METRIC_EXPRESSION_TOO_LONG''"
| "code_name_of EC_InvalidTenantId = ''INVALID_TENANT_ID''"
| "code_name_of EC_SafetyViolation = ''SAFETY_VIOLATION''"
| "code_name_of EC_SafetyAstFailed = ''SAFETY_AST_FAILED''"
| "code_name_of EC_SafetyError = ''SAFETY_ERROR''"
| "code_name_of EC_SafetyUnsupportedLanguage = ''SAFETY_UNSUPPORTED_LANGUAGE''"
| "code_name_of EC_SafetyProcessSpawn = ''SAFETY_PROCESS_SPAWN''"
| "code_name_of EC_SafetyProcessTimeout = ''SAFETY_PROCESS_TIMEOUT''"
| "code_name_of EC_SafetyOutputParse = ''SAFETY_OUTPUT_PARSE''"
| "code_name_of EC_SafetyProcessExecution = ''SAFETY_PROCESS_EXECUTION''"
| "code_name_of EC_SafetyHashVerification = ''SAFETY_HASH_VERIFICATION''"
| "code_name_of EC_SafeModeViolation = ''SAFE_MODE_VIOLATION''"
| "code_name_of EC_ConfigInvalid = ''CONFIG_INVALID''"
| "code_name_of EC_ConfigTomlParse = ''CONFIG_TOML_PARSE''"
| "code_name_of EC_ConfigTomlSerialize = ''CONFIG_TOML_SERIALIZE''"
| "code_name_of EC_ConfigReadFailed = ''CONFIG_READ_FAILED''"
| "code_name_of EC_ConfigWriteFailed = ''CONFIG_WRITE_FAILED''"
| "code_name_of EC_ConfigRestartRequired = ''CONFIG_RESTART_REQUIRED''"
| "code_name_of EC_ConfigInvalidValue = ''CONFIG_INVALID_VALUE''"
| "code_name_of EC_ConfigEnvironmentValidation = ''CONFIG_ENVIRONMENT_VALIDATION''"
| "code_name_of EC_ConnectionNotConnected = ''CONNECTION_NOT_CONNECTED''"
| "code_name_of EC_ConnectionNotFound = ''CONNECTION_NOT_FOUND''"
| "code_name_of EC_FileReadFailed = ''FILE_READ_FAILED''"
| "code_name_of EC_FileParseFailed = ''FILE_PARSE_FAILED''"
| "code_name_of EC_AnalyzerNotFound = ''ANALYZER_NOT_FOUND''"
| "code_name_of EC_CommandFailed = ''COMMAND_FAILED''"
| "code_name_of EC_InvalidPath = ''INVALID_PATH''"
| "code_name_of EC_FileNotFound = ''FILE_NOT_FOUND''"
| "code_name_of EC_NotAFile = ''NOT_A_FILE''"
| "code_name_of EC_LineNotFound = ''LINE_NOT_FOUND''"
| "code_name_of EC_VariableNotInExecutableScope = ''VARIABLE_NOT_IN_EXECUTABLE_SCOPE''"
| "code_name_of EC_DatabaseError = ''DATABASE_ERROR''"
| "code_name_of EC_AdapterError = ''ADAPTER_ERROR''"
| "code_name_of EC_IoError = ''IO_ERROR''"
| "code_name_of EC_SerializationError = ''SERIALIZATION_ERROR''"
| "code_name_of EC_OutputError = ''OUTPUT_ERROR''"
| "code_name_of EC_Unauthorized = ''UNAUTHORIZED''"
| "code_name_of EC_Forbidden = ''FORBIDDEN''"
| "code_name_of EC_RemoteAppError = ''REMOTE_APP_ERROR''"
| "code_name_of EC_InternalError = ''INTERNAL_ERROR''"
| "code_name_of EC_StorageError = ''STORAGE_ERROR''"
| "code_name_of EC_PartialGroupFailure = ''PARTIAL_GROUP_FAILURE''"
| "code_name_of EC_RollbackFailure = ''ROLLBACK_FAILURE''"
| "code_name_of EC_SubprocessTimeout = ''SUBPROCESS_TIMEOUT''"

definition category_is_retryable :: "error_category \<Rightarrow> bool" where
  "category_is_retryable c \<longleftrightarrow> c = Retryable"

primrec category_name :: "error_category \<Rightarrow> string" where
  "category_name Retryable = ''retryable''"
| "category_name Terminal = ''terminal''"
| "category_name Security = ''security''"
| "category_name Internal = ''internal''"


section \<open>Errors\<close>

datatype error =
    InvalidMetricName string
  | InvalidLocation string
  | MetricNotFound string
  | DuplicateMetric string
  | MetricLocationConflict (conflict_location: string) (conflict_connection: string)
      (existing_name: string) (existing_id: u64)
  | InvalidTenantId string
  | SafetyViolation "string list"
  | AstAnalysisFailed string
  | Safety string
  | SafeModeViolation (blocked_operation: string) (safe_connection: string)
  | InvalidConfig string
  | InvalidExpression string
  | ExpressionTooLong nat nat
  | Database string
  | Serialization string
  | Adapter string
  | NotConnected string
  | Io string
  | Output string
  | FileNotFound string
  | RemoteApp string

type_synonym 'a result = "error + 'a"

primrec code_of :: "error \<Rightarrow> error_code" where
  "code_of (InvalidMetricName a) = EC_MetricInvalidName"
| "code_of (InvalidLocation a) = EC_MetricInvalidLocation"
| "code_of (MetricNotFound a) = EC_MetricNotFound"
| "code_of (DuplicateMetric a) = EC_MetricDuplicate"
| "code_of (MetricLocationConflict a b c d) = EC_MetricLocationConflict"
| "code_of (InvalidTenantId a) = EC_InvalidTenantId"
| "code_of (SafetyViolation a) = EC_SafetyViolation"
| "code_of (AstAnalysisFailed a) = EC_SafetyAstFailed"
| "code_of (Safety a) = EC_SafetyError"
| "code_of (SafeModeViolation a b) = EC_SafeModeViolation"
| "code_of (InvalidConfig a) = EC_ConfigInvalid"
| "code_of (InvalidExpression a) = EC_MetricInvalidExpression"
| "code_of (ExpressionTooLong a b) = EC_MetricExpressionTooLong"
| "code_of (Database a) = EC_DatabaseError"
| "code_of (Serialization a) = EC_SerializationError"
| "code_of (Adapter a) = EC_AdapterError"
| "code_of (NotConnected a) = EC_ConnectionNotConnected"
| "code_of (Io a) = EC_IoError"
| "code_of (Output a) = EC_OutputError"
| "code_of (FileNotFound a) = EC_FileNotFound"
| "code_of (RemoteApp a) = EC_RemoteAppError"

definition category_of :: "error \<Rightarrow> error_category" where
  "category_of e = code_category (code_of e)"

definition error_code_name :: "error \<Rightarrow> string" where
  "error_code_name e = code_name_of (code_of e)"

definition is_retryable :: "error \<Rightarrow> bool" where
  "is_retryable e \<longleftrightarrow> category_is_retryable (category_of e)"

text \<open>The \<open>NotFoundError\<close> trait.\<close>

fun is_not_found :: "error \<Rightarrow> bool" where
  "is_not_found (MetricNotFound _) = True"
| "is_not_found (FileNotFound _) = True"
| "is_not_found _ = False"

fun resource_type :: "error \<Rightarrow> string option" where
  "resource_type (MetricNotFound _) = Some ''metric''"
| "resource_type (FileNotFound _) = Some ''file''"
| "resource_type _ = None"

fun resource_id :: "error \<Rightarrow> string option" where
  "resource_id (MetricNotFound i) = Some i"
| "resource_id (FileNotFound p) = Some p"
| "resource_id _ = None"


section \<open>Properties\<close>

definition all_codes :: "error_code list" where
  "all_codes = [EC_MetricNotFound, EC_MetricInvalidName, EC_MetricInvalidLocation, EC_MetricDuplicate, EC_MetricLocationConflict, EC_MetricInvalidExpression, EC_MetricExpressionTooLong, EC_InvalidTenantId, EC_SafetyViolation, EC_SafetyAstFailed, EC_SafetyError, EC_SafetyUnsupportedLanguage, EC_SafetyProcessSpawn, EC_SafetyProcessTimeout, EC_SafetyOutputParse, EC_SafetyProcessExecution, EC_SafetyHashVerification, EC_SafeModeViolation, EC_ConfigInvalid, EC_ConfigTomlParse, EC_ConfigTomlSerialize, EC_ConfigReadFailed, EC_ConfigWriteFailed, EC_ConfigRestartRequired, EC_ConfigInvalidValue, EC_ConfigEnvironmentValidation, EC_ConnectionNotConnected, EC_ConnectionNotFound, EC_FileReadFailed, EC_FileParseFailed, EC_AnalyzerNotFound, EC_CommandFailed, EC_InvalidPath, EC_FileNotFound, EC_NotAFile, EC_LineNotFound, EC_VariableNotInExecutableScope, EC_DatabaseError, EC_AdapterError, EC_IoError, EC_SerializationError, EC_OutputError, EC_Unauthorized, EC_Forbidden, EC_RemoteAppError, EC_InternalError, EC_StorageError, EC_PartialGroupFailure, EC_RollbackFailure, EC_SubprocessTimeout]"

lemma all_codes_complete: "c \<in> set all_codes"
  by (cases c) (simp_all add: all_codes_def)

lemma distinct_map_inj:
  assumes "distinct (map f all_codes)"
  shows "f c = f d \<longleftrightarrow> c = d"
  using assms all_codes_complete[of c] all_codes_complete[of d]
  by (auto simp: distinct_map inj_on_def)

lemma code_as_u16_inj: "code_as_u16 c = code_as_u16 d \<longleftrightarrow> c = d"
  by (rule distinct_map_inj) code_simp

lemma code_name_of_inj: "code_name_of c = code_name_of d \<longleftrightarrow> c = d"
  by (rule distinct_map_inj) code_simp

lemma is_retryable_iff:
  "is_retryable e \<longleftrightarrow>
     (\<exists>m. e = Database m \<or> e = Adapter m \<or> e = Io m \<or> e = NotConnected m \<or> e = RemoteApp m)"
  by (cases e) (simp_all add: is_retryable_def category_is_retryable_def category_of_def)

lemma not_found_resource:
  "is_not_found e \<longleftrightarrow> resource_type e \<noteq> None" "is_not_found e \<longleftrightarrow> resource_id e \<noteq> None"
  by (cases e, simp_all)+

end
