(* ===== verification/Core_Metric.thy ===== *)
theory Core_Metric
  imports Core_Error
begin

text \<open>
  The metric entity of \<open>detrix-core\<close> (\<open>src/crates/detrix-core/src/entities/\<close>):
  locations, languages, capture modes, safety levels, anchors, purity levels and the
  \<open>Metric\<close> struct with its validation. The lemmas show that a location survives
  printing and parsing, which metric names the validation lets through, that the
  length-prefixed encoding behind the expression hash and the anchor fingerprint is
  uniquely decodable, and that combining purity levels is the join of a three-point
  lattice.
\<close>


section \<open>Source languages\<close>

datatype source_language =
  Python | Go | Rust | JavaScript | TypeScript | Java | Cpp | C | Ruby | Php | Unknown

primrec lang_as_str :: "source_language \<Rightarrow> string" where
  "lang_as_str Python = ''python''"
| "lang_as_str Go = ''go''"
| "lang_as_str Rust = ''rust''"
| "lang_as_str JavaScript = ''javascript''"
| "lang_as_str TypeScript = ''typescript''"
| "lang_as_str Java = ''java''"
| "lang_as_str Cpp = ''cpp''"
| "lang_as_str C = ''c''"
| "lang_as_str Ruby = ''ruby''"
| "lang_as_str Php = ''php''"
| "lang_as_str Unknown = ''unknown''"

definition dap_supported :: "source_language list" where
  "dap_supported = [Python, Go, Rust]"

definition is_dap_supported :: "source_language \<Rightarrow> bool" where
  "is_dap_supported l \<longleftrightarrow> l \<in> set dap_supported"

definition lang_from_extension :: "string \<Rightarrow> source_language" where
  "lang_from_extension ext =
     (let e = to_lowercase ext in
      if e = ''py'' then Python
      else if e = ''go'' then Go
      else if e = ''rs'' then Rust
      else if e = ''js'' \<or> e = ''jsx'' then JavaScript
      else if e = ''ts'' \<or> e = ''tsx'' then TypeScript
      else if e = ''java'' then Java
      else if e = ''cpp'' \<or> e = ''cc'' \<or> e = ''cxx'' then Cpp
      else if e = ''c'' then C
      else if e = ''rb'' then Ruby
      else if e = ''php'' then Php
      else Unknown)"

text \<open>\<open>FromStr for SourceLanguage\<close>: \<open>None\<close> is the unit error.\<close>

definition lang_from_str :: "string \<Rightarrow> source_language option" where
  "lang_from_str s =
     (let e = to_lowercase s in
      if e = ''python'' then Some Python
      else if e = ''go'' \<or> e = ''golang'' then Some Go
      else if e = ''rust'' then Some Rust
      else if e = ''javascript'' \<or> e = ''js'' then Some JavaScript
      else if e = ''typescript'' \<or> e = ''ts'' then Some TypeScript
      else if e = ''java'' then Some Java
      else if e = ''cpp'' \<or> e = ''c++'' then Some Cpp
      else if e = ''c'' then Some C
      else if e = ''ruby'' then Some Ruby
      else if e = ''php'' then Some Php
      else if e = ''unknown'' then Some Unknown
      else None)"

definition parse_language_lossy :: "string \<Rightarrow> source_language" where
  "parse_language_lossy s = (case lang_from_str s of None \<Rightarrow> Unknown | Some l \<Rightarrow> l)"


section \<open>Locations\<close>

record location =
  loc_file :: string
  loc_line :: u32

definition location_parse :: "string \<Rightarrow> location result" where
  "location_parse s0 =
     (let s = trim s0 in
      if s = [] then Inl (InvalidLocation ''Location cannot be empty'')
      else
        let without_at = (case strip_prefix ''@'' s of None \<Rightarrow> s | Some r \<Rightarrow> r) in
        case rsplit_once CHR ''#'' without_at of
          None \<Rightarrow> Inl (InvalidLocation ''Expected format: file.py#line (@ prefix optional)'')
        | Some (file, line) \<Rightarrow>
            (case parse_unsigned line of
               None \<Rightarrow> Inl (InvalidLocation ''Line must be a positive integer'')
             | Some n \<Rightarrow>
                 if file = [] then Inl (InvalidLocation ''File path cannot be empty'')
                 else Inr \<lparr>loc_file = file, loc_line = n\<rparr>))"

definition to_string_format :: "location \<Rightarrow> string" where
  "to_string_format l = ''@'' @ loc_file l @ ''#'' @ show_nat (unat (loc_line l))"


section \<open>Purity levels\<close>

datatype purity_level = Pure | PurityUnknown | Impure

definition purity_is_safe :: "purity_level \<Rightarrow> bool" where
  "purity_is_safe p \<longleftrightarrow> p = Pure"

definition purity_needs_analysis :: "purity_level \<Rightarrow> bool" where
  "purity_needs_analysis p \<longleftrightarrow> p = PurityUnknown"

definition purity_is_blocked :: "purity_level \<Rightarrow> bool" where
  "purity_is_blocked p \<longleftrightarrow> p = Impure"

definition purity_combine :: "purity_level \<Rightarrow> purity_level \<Rightarrow> purity_level" where
  "purity_combine a b =
     (if a = Impure \<or> b = Impure then Impure
      else if a = PurityUnknown \<or> b = PurityUnknown then PurityUnknown
      else Pure)"

record impure_call =
  function_name :: string
  call_reason :: string
  call_path :: string

record purity_analysis =
  level :: purity_level
  impure_calls :: "impure_call list"
  unknown_calls :: "string list"
  max_depth_reached :: bool

definition analysis_pure :: purity_analysis where
  "analysis_pure = \<lparr>level = Pure, impure_calls = [], unknown_calls = [], max_depth_reached = False\<rparr>"

definition analysis_unknown :: "string list \<Rightarrow> purity_analysis" where
  "analysis_unknown calls =
     \<lparr>level = PurityUnknown, impure_calls = [], unknown_calls = calls, max_depth_reached = False\<rparr>"

definition analysis_impure :: "impure_call list \<Rightarrow> purity_analysis" where
  "analysis_impure calls =
     \<lparr>level = Impure, impure_calls = calls, unknown_calls = [], max_depth_reached = False\<rparr>"

definition add_impure_call :: "purity_analysis \<Rightarrow> impure_call \<Rightarrow> purity_analysis" where
  "add_impure_call a c = a\<lparr>impure_calls := impure_calls a @ [c], level := Impure\<rparr>"

definition add_unknown_call :: "purity_analysis \<Rightarrow> string \<Rightarrow> purity_analysis" where
  "add_unknown_call a n =
     a\<lparr>unknown_calls := unknown_calls a @ [n],
       level := (if level a \<noteq> Impure then PurityUnknown else level a)\<rparr>"

definition analysis_combine :: "purity_analysis \<Rightarrow> purity_analysis \<Rightarrow> purity_analysis" where
  "analysis_combine a b =
     a\<lparr>level := purity_combine (level a) (level b),
       impure_calls := impure_calls a @ impure_calls b,
       unknown_calls := unknown_calls a @ unknown_calls b,
       max_depth_reached := max_depth_reached a \<or> max_depth_reached b\<rparr>"


section \<open>Length-prefixed encoding and hashing\<close>

text \<open>
  The bytes fed to SHA-256 by \<open>Metric::expression_hash\<close> and by
  \<open>MetricAnchor::compute_fingerprint\<close>: every field preceded by its byte length and a
  colon. The digest function comes from the \<open>sha2\<close> package and is a parameter.
\<close>

primrec length_prefixed :: "string list \<Rightarrow> string" where
  "length_prefixed [] = []"
| "length_prefixed (e # es) = show_nat (length e) @ '':'' @ e @ length_prefixed es"

definition hex_digit :: "nat \<Rightarrow> char" where
  "hex_digit d = (if d < 10 then char_of (48 + d) else char_of (87 + d))"

definition hex_string :: "string \<Rightarrow> string" where
  "hex_string bs = concat (map (\<lambda>b. [hex_digit (byte_of b div 16), hex_digit (byte_of b mod 16)]) bs)"


section \<open>Anchors\<close>

record metric_anchor =
  enclosing_symbol :: "string option"
  symbol_kind :: "u32 option"
  symbol_range :: "(u32 \<times> u32) option"
  offset_in_symbol :: "u32 option"
  context_fingerprint :: "string option"
  context_before :: "string option"
  source_line :: "string option"
  context_after :: "string option"
  last_verified_at :: "i64 option"
  original_location :: "string option"

definition anchor_new :: metric_anchor where
  "anchor_new =
     \<lparr>enclosing_symbol = None, symbol_kind = None, symbol_range = None, offset_in_symbol = None,
      context_fingerprint = None, context_before = None, source_line = None, context_after = None,
      last_verified_at = None, original_location = None\<rparr>"

definition has_symbol_anchor :: "metric_anchor \<Rightarrow> bool" where
  "has_symbol_anchor a \<longleftrightarrow> enclosing_symbol a \<noteq> None \<and> offset_in_symbol a \<noteq> None"

definition has_context_fingerprint :: "metric_anchor \<Rightarrow> bool" where
  "has_context_fingerprint a \<longleftrightarrow> context_fingerprint a \<noteq> None"

definition unwrap_or_empty :: "string option \<Rightarrow> string" where
  "unwrap_or_empty x = (case x of None \<Rightarrow> [] | Some s \<Rightarrow> s)"

definition compute_fingerprint :: "(string \<Rightarrow> string) \<Rightarrow> metric_anchor \<Rightarrow> string option" where
  "compute_fingerprint sha256 a =
     (let before = unwrap_or_empty (context_before a);
          src = unwrap_or_empty (source_line a);
          after = unwrap_or_empty (context_after a)
      in if before = [] \<and> src = [] \<and> after = [] then None
         else Some (hex_string (sha256 (length_prefixed [before, src, after]))))"

definition refresh_fingerprint :: "(string \<Rightarrow> string) \<Rightarrow> metric_anchor \<Rightarrow> metric_anchor" where
  "refresh_fingerprint sha256 a = a\<lparr>context_fingerprint := compute_fingerprint sha256 a\<rparr>"

datatype anchor_status = Unanchored | Verified | Relocated | Orphaned


section \<open>Metrics\<close>

datatype metric_mode =
  Stream | Sample u32 | SampleInterval u32 | First | Throttle u32

primrec mode_as_str :: "metric_mode \<Rightarrow> string" where
  "mode_as_str Stream = ''stream''"
| "mode_as_str (Sample r) = ''sample''"
| "mode_as_str (SampleInterval s) = ''sample_interval''"
| "mode_as_str First = ''first''"
| "mode_as_str (Throttle n) = ''throttle''"

datatype safety_level = Strict | Trusted

primrec safety_as_str :: "safety_level \<Rightarrow> string" where
  "safety_as_str Strict = ''strict''"
| "safety_as_str Trusted = ''trusted''"

definition safety_from_str :: "string \<Rightarrow> string + safety_level" where
  "safety_from_str s =
     (let e = to_lowercase s in
      if e = ''strict'' then Inr Strict
      else if e = ''trusted'' then Inr Trusted
      else Inl (''Unknown safety level: '' @ [CHR 0x27] @ e @ [CHR 0x27] @ ''. Valid: strict, trusted''))"

record stack_trace_slice =
  slice_full :: bool
  slice_head :: "u32 option"
  slice_tail :: "u32 option"

datatype snapshot_scope = ScopeLocal | ScopeGlobal | ScopeBoth

record metric =
  m_id :: "u64 option"
  m_name :: string
  m_connection_id :: string
  m_group :: "string option"
  m_location :: location
  m_expressions :: "string list"
  m_language :: source_language
  m_enabled :: bool
  m_mode :: metric_mode
  m_condition :: "string option"
  m_safety_level :: safety_level
  m_created_at :: "i64 option"
  m_user_id :: "string option"
  m_agent_id :: "string option"
  m_capture_stack_trace :: bool
  m_stack_trace_ttl :: "u64 option"
  m_stack_trace_slice :: "stack_trace_slice option"
  m_capture_memory_snapshot :: bool
  m_snapshot_scope :: "snapshot_scope option"
  m_snapshot_ttl :: "u64 option"
  m_anchor :: "metric_anchor option"
  m_anchor_status :: anchor_status

definition MAX_METRIC_NAME_LEN :: nat where
  "MAX_METRIC_NAME_LEN = 255"

definition MAX_USER_ID_LEN :: nat where
  "MAX_USER_ID_LEN = 256"

definition MULTI_EXPR_DELIMITER :: char where
  "MULTI_EXPR_DELIMITER = CHR 0x1F"

definition name_char :: "char \<Rightarrow> bool" where
  "name_char c \<longleftrightarrow> is_ascii_alphanumeric c \<or> c = CHR ''_'' \<or> c = CHR ''-''"

definition reserved_names :: "string list" where
  "reserved_names = [''all'', ''none'', ''system'', ''detrix'', ''internal'']"

definition validate_name :: "string \<Rightarrow> unit result" where
  "validate_name n =
     (if n = [] \<or> length n > MAX_METRIC_NAME_LEN then
        Inl (InvalidMetricName (''Length must be 1-'' @ show_nat MAX_METRIC_NAME_LEN @ '' characters''))
      else if \<not> (is_ascii_alphabetic (hd n) \<or> hd n = CHR ''_'') then
        Inl (InvalidMetricName ''Must start with letter or underscore'')
      else if \<not> list_all name_char n then
        Inl (InvalidMetricName ''Can only contain letters, numbers, underscore, hyphen'')
      else if contains_str n ''--'' \<or> contains_str n ''__'' then
        Inl (InvalidMetricName ''No consecutive special characters allowed'')
      else if to_lowercase n \<in> set reserved_names then
        Inl (InvalidMetricName ([CHR 0x27] @ n @ [CHR 0x27] @ '' is a reserved name''))
      else Inr ())"

definition expression_hash :: "(string \<Rightarrow> string) \<Rightarrow> metric \<Rightarrow> string" where
  "expression_hash sha256 m = hex_string (sha256 (length_prefixed (m_expressions m)))"

definition expression :: "metric \<Rightarrow> string" where
  "expression m = (case m_expressions m of [] \<Rightarrow> [] | e # _ \<Rightarrow> e)"

definition metric_new ::
  "string \<Rightarrow> string \<Rightarrow> location \<Rightarrow> string list \<Rightarrow> source_language \<Rightarrow> metric result" where
  "metric_new n conn loc exprs lang =
     try_bind (validate_name n) (\<lambda>_.
       if exprs = [] then Inl (InvalidExpression ''At least one expression is required'')
       else Inr
         \<lparr>m_id = None, m_name = n, m_connection_id = conn, m_group = None, m_location = loc,
          m_expressions = exprs, m_language = lang, m_enabled = True, m_mode = Stream,
          m_condition = None, m_safety_level = Strict, m_created_at = None, m_user_id = None,
          m_agent_id = None, m_capture_stack_trace = False, m_stack_trace_ttl = None,
          m_stack_trace_slice = None, m_capture_memory_snapshot = False, m_snapshot_scope = None,
          m_snapshot_ttl = None, m_anchor = None, m_anchor_status = Unanchored\<rparr>)"

definition validate_expression_length :: "string \<Rightarrow> nat \<Rightarrow> unit result" where
  "validate_expression_length e max_length =
     (if length e > max_length then Inl (ExpressionTooLong (length e) max_length) else Inr ())"

primrec validate_expressions_length :: "string list \<Rightarrow> nat \<Rightarrow> unit result" where
  "validate_expressions_length [] max_length = Inr ()"
| "validate_expressions_length (e # es) max_length =
     try_bind (validate_expression_length e max_length) (\<lambda>_. validate_expressions_length es max_length)"

text \<open>\<open>validate_tenant_id\<close> of \<open>entities/mod.rs\<close>, shared by metrics and connections.\<close>

definition validate_tenant_id :: "string \<Rightarrow> string option \<Rightarrow> unit result" where
  "validate_tenant_id field v0 =
     (case v0 of
        None \<Rightarrow> Inr ()
      | Some v \<Rightarrow>
          if v = [] then Inl (InvalidTenantId (field @ '' must not be empty''))
          else if all_whitespace v then
            Inl (InvalidTenantId (field @ '' must not be whitespace-only''))
          else if has_control v then
            Inl (InvalidTenantId (field @ '' contains control characters''))
          else if prefix ''__'' v \<and> suffix ''__'' v \<and> length v > 4 then
            Inl (InvalidTenantId (field @ '' uses reserved __*__ pattern''))
          else if length v > MAX_USER_ID_LEN then
            Inl (InvalidTenantId (field @ '' exceeds maximum length of '' @
              show_nat MAX_USER_ID_LEN @ '' characters''))
          else Inr ())"

definition validate_tenant_ids :: "string option \<Rightarrow> string option \<Rightarrow> unit result" where
  "validate_tenant_ids user_id agent_id =
     try_bind (validate_tenant_id ''user_id'' user_id) (\<lambda>_. validate_tenant_id ''agent_id'' agent_id)"

text \<open>
  \<open>expression_contains_function_call\<close> (\<open>src/crates/detrix-core/src/expressions.rs\<close>):
  an opening parenthesis right after an identifier character or a dot.
\<close>

fun expression_contains_function_call :: "string \<Rightarrow> bool" where
  "expression_contains_function_call (p # c # cs) =
     ((c = CHR ''('' \<and> (is_ascii_alphanumeric p \<or> p = CHR ''_'' \<or> p = CHR ''.'')) \<or>
      expression_contains_function_call (c # cs))"
| "expression_contains_function_call _ = False"


section \<open>Locations survive printing and parsing\<close>

lemma show_nat_snoc: obtains ds d where "show_nat n = ds @ [d]" "is_digit d"
proof -
  have "show_nat n = butlast (show_nat n) @ [last (show_nat n)]" by simp
  moreover have "is_digit (last (show_nat n))"
    using show_nat_digits[of n] by (simp add: list_all_iff)
  ultimately show ?thesis by (rule that)
qed

lemma digit_not_hash: "list_all is_digit s \<Longrightarrow> CHR ''#'' \<notin> set s"
  by (auto simp: list_all_iff is_digit_def byte_of_def)

lemma trim_located: "trim (CHR ''@'' # f @ CHR ''#'' # show_nat n) = CHR ''@'' # f @ CHR ''#'' # show_nat n"
proof -
  obtain ds d where d: "show_nat n = ds @ [d]" "is_digit d" by (rule show_nat_snoc)
  have at: "plain_start (CHR ''@'')" by (simp add: plain_start_def byte_of_def)
  show ?thesis
    using trim_plain[OF at plain_start_digit[OF d(2)], of "f @ CHR ''#'' # ds"] d(1) by simp
qed

lemma location_parse_printed:
  assumes "f \<noteq> []"
  shows "location_parse (CHR ''@'' # f @ CHR ''#'' # show_nat (unat n)) =
    Inr \<lparr>loc_file = f, loc_line = n\<rparr>"
proof -
  have split: "rsplit_once CHR ''#'' (f @ CHR ''#'' # show_nat (unat n)) = Some (f, show_nat (unat n))"
    by (intro rsplit_once_last digit_not_hash show_nat_digits)
  show ?thesis
    unfolding location_parse_def trim_located Let_def
    using assms by (simp add: strip_prefix_def split parse_unsigned_show_word)
qed

lemma location_parse_Inr:
  assumes "location_parse s = Inr l"
  shows "loc_file l \<noteq> [] \<and>
    (\<exists>at ds. trim s = at @ loc_file l @ CHR ''#'' # ds \<and> at \<in> {[], ''@''} \<and>
       CHR ''#'' \<notin> set ds \<and> parse_unsigned ds = Some (loc_line l))"
proof -
  define w where "w = (case strip_prefix ''@'' (trim s) of None \<Rightarrow> trim s | Some r \<Rightarrow> r)"
  from assms obtain g ds n where
      sp: "rsplit_once CHR ''#'' w = Some (g, ds)" and n: "parse_unsigned ds = Some n"
      and f: "g \<noteq> []" and l: "l = \<lparr>loc_file = g, loc_line = n\<rparr>"
    by (auto simp: location_parse_def Let_def w_def split: if_splits option.splits)
  from sp have w: "w = g @ CHR ''#'' # ds" "CHR ''#'' \<notin> set ds"
    by (auto dest: rsplit_once_Some)
  obtain at where "at \<in> {[], ''@''}" "trim s = at @ w"
    by (cases "prefix ''@'' (trim s)") (auto simp: w_def strip_prefix_def prefix_def)
  then show ?thesis using w f n l
    by (intro conjI exI[of _ at] exI[of _ ds]) simp_all
qed


section \<open>Length-prefixed fields decode uniquely\<close>

lemma digits_colon_unique:
  assumes "list_all is_digit a" "list_all is_digit b" "a @ CHR '':'' # r = b @ CHR '':'' # r'"
  shows "a = b \<and> r = r'"
proof -
  have nc: "CHR '':'' \<notin> set c" if "list_all is_digit c" for c
    using that by (auto simp: list_all_iff is_digit_def byte_of_def)
  have "split_once CHR '':'' (a @ CHR '':'' # r) = Some (a, r)"
    by (rule split_once_first [OF nc [OF assms(1)]])
  moreover have "split_once CHR '':'' (b @ CHR '':'' # r') = Some (b, r')"
    by (rule split_once_first [OF nc [OF assms(2)]])
  ultimately show ?thesis unfolding assms(3) by simp
qed

lemma length_prefixed_inj: "length_prefixed xs = length_prefixed ys \<longleftrightarrow> xs = ys"
proof (induction xs arbitrary: ys)
  case Nil
  then show ?case by (cases ys) simp_all
next
  case (Cons x xs)
  show ?case
  proof (cases ys)
    case (Cons y ys')
    have "x = y \<and> xs = ys'" if eq: "length_prefixed (x # xs) = length_prefixed ys"
    proof -
      from eq Cons have "show_nat (length x) = show_nat (length y) \<and>
          x @ length_prefixed xs = y @ length_prefixed ys'"
        using digits_colon_unique[of "show_nat (length x)" "show_nat (length y)"] by simp
      then have "length x = length y" "x @ length_prefixed xs = y @ length_prefixed ys'" by simp_all
      then have "x = y" "length_prefixed xs = length_prefixed ys'"
        using append_eq_append_conv by blast+
      then show ?thesis using Cons.IH by simp
    qed
    then show ?thesis using Cons by auto
  qed simp
qed

lemma hex_digit_inj:
  assumes "a < 16" "b < 16" "hex_digit a = hex_digit b"
  shows "a = b"
proof -
  have byte: "byte_of (hex_digit d) = (if d < 10 then 48 + d else 87 + d)" if "d < 16" for d
    using that by (simp add: hex_digit_def byte_of_def)
  have "byte_of (hex_digit a) = byte_of (hex_digit b)" using assms(3) by simp
  then show ?thesis unfolding byte[OF assms(1)] byte[OF assms(2)] by (simp split: if_splits)
qed

lemma hex_string_inj: "hex_string a = hex_string b \<longleftrightarrow> a = b"
proof (induction a arbitrary: b)
  case Nil
  then show ?case by (cases b) (simp_all add: hex_string_def)
next
  case (Cons x a)
  show ?case
  proof (cases b)
    case (Cons y b')
    have "x = y" if "hex_digit (byte_of x div 16) = hex_digit (byte_of y div 16)"
      "hex_digit (byte_of x mod 16) = hex_digit (byte_of y mod 16)"
    proof -
      have lt: "byte_of c div 16 < 16" "byte_of c mod 16 < 16" for c
        using byte_of_less[of c] by (simp_all add: less_mult_imp_div_less del: byte_of_less)
      have "byte_of x div 16 = byte_of y div 16" "byte_of x mod 16 = byte_of y mod 16"
        using that by (simp_all add: hex_digit_inj lt)
      then have "byte_of x = byte_of y" by (metis div_mult_mod_eq)
      then show ?thesis by (simp add: byte_of_def)
    qed
    then show ?thesis using Cons Cons.IH[of b'] by (auto simp: hex_string_def)
  qed (simp add: hex_string_def)
qed


section \<open>Purity levels form a lattice\<close>

interpretation purity: semilattice_neutr purity_combine Pure
proof unfold_locales
  fix a b c :: purity_level
  show "purity_combine (purity_combine a b) c = purity_combine a (purity_combine b c)"
    by (simp add: purity_combine_def)
  show "purity_combine a b = purity_combine b a"
    by (auto simp: purity_combine_def)
  show "purity_combine a a = a" "purity_combine a Pure = a"
    by (cases a; simp add: purity_combine_def)+
qed

text \<open>The analyses the interface can build, from the three constructors by its operations.\<close>

inductive analysis_built :: "purity_analysis \<Rightarrow> bool" where
  built_pure: "analysis_built analysis_pure"
| built_unknown: "analysis_built (analysis_unknown calls)"
| built_impure: "analysis_built (analysis_impure calls)"
| built_add_impure: "analysis_built a \<Longrightarrow> analysis_built (add_impure_call a c)"
| built_add_unknown: "analysis_built a \<Longrightarrow> analysis_built (add_unknown_call a n)"
| built_combine: "analysis_built a \<Longrightarrow> analysis_built b \<Longrightarrow> analysis_built (analysis_combine a b)"

lemmas analysis_op_defs = analysis_pure_def analysis_unknown_def analysis_impure_def
  add_impure_call_def add_unknown_call_def analysis_combine_def

lemma purity_level_cases: "p \<noteq> Pure \<Longrightarrow> p \<noteq> PurityUnknown \<Longrightarrow> p = Impure"
  by (cases p) simp_all

lemma analysis_built_level:
  "analysis_built a \<Longrightarrow>
     (impure_calls a \<noteq> [] \<longrightarrow> level a = Impure) \<and> (unknown_calls a \<noteq> [] \<longrightarrow> level a \<noteq> Pure)"
  by (induction rule: analysis_built.induct)
     (auto simp: analysis_op_defs purity_combine_def dest: purity_level_cases)


section \<open>Function calls in expressions\<close>

definition call_char :: "char \<Rightarrow> bool" where
  "call_char p \<longleftrightarrow> is_ascii_alphanumeric p \<or> p = CHR ''_'' \<or> p = CHR ''.''"

lemma contains_call_iff:
  "expression_contains_function_call s \<longleftrightarrow>
     (\<exists>i. Suc i < length s \<and> s ! Suc i = CHR ''('' \<and> call_char (s ! i))"
proof (induction s rule: expression_contains_function_call.induct)
  case (1 p c cs)
  have "(\<exists>i. Suc i < length (p # c # cs) \<and> (p # c # cs) ! Suc i = CHR ''('' \<and> call_char ((p # c # cs) ! i))
    \<longleftrightarrow> (c = CHR ''('' \<and> call_char p) \<or>
       (\<exists>i. Suc i < length (c # cs) \<and> (c # cs) ! Suc i = CHR ''('' \<and> call_char ((c # cs) ! i))"
    (is "(\<exists>i. ?P i) \<longleftrightarrow> ?A \<or> (\<exists>i. ?Q i)")
  proof -
    have "?P 0 \<longleftrightarrow> ?A" by simp
    moreover have "?P (Suc i) \<longleftrightarrow> ?Q i" for i by simp
    ultimately show ?thesis by (metis not0_implies_Suc)
  qed
  then show ?case using 1 by (simp add: call_char_def)
qed simp_all



section \<open>Properties\<close>

text \<open>C24: a location with a file name survives printing and parsing, whatever characters the file name
  holds, and every location the parser returns has a file name, so printing and parsing it again
  gives it back.\<close>

theorem location_roundtrip:
  "(loc_file l \<noteq> [] \<longrightarrow> location_parse (to_string_format l) = Inr l) \<and>
   (location_parse s = Inr l \<longrightarrow> location_parse (to_string_format l) = Inr l)"
proof -
  have "location_parse (to_string_format l) = Inr l" if "loc_file l \<noteq> []"
    using location_parse_printed[OF that, of "loc_line l"] by (simp add: to_string_format_def)
  then show ?thesis using location_parse_Inr by blast
qed

theorem location_roundtrip_witness:
  "location_parse (to_string_format \<lparr>loc_file = ''a#b.py'', loc_line = 42\<rparr>) =
     Inr \<lparr>loc_file = ''a#b.py'', loc_line = 42\<rparr>"
  using location_roundtrip[of "\<lparr>loc_file = ''a#b.py'', loc_line = 42\<rparr>"] by simp

text \<open>Two metrics with different expression lists have different expression hashes, unless their
  length-prefixed encodings, which differ, are a collision of SHA-256.\<close>

theorem expression_hash_separates:
  assumes "m_expressions m \<noteq> m_expressions m'" "expression_hash sha256 m = expression_hash sha256 m'"
  shows "length_prefixed (m_expressions m) \<noteq> length_prefixed (m_expressions m') \<and>
    sha256 (length_prefixed (m_expressions m)) = sha256 (length_prefixed (m_expressions m'))"
  using assms by (simp add: expression_hash_def hex_string_inj length_prefixed_inj)

definition sample_metric :: metric where
  "sample_metric =
     \<lparr>m_id = None, m_name = ''m'', m_connection_id = ''c'', m_group = None,
      m_location = \<lparr>loc_file = ''a.py'', loc_line = 1\<rparr>, m_expressions = [''x''], m_language = Python,
      m_enabled = True, m_mode = Stream, m_condition = None, m_safety_level = Strict,
      m_created_at = None, m_user_id = None, m_agent_id = None, m_capture_stack_trace = False,
      m_stack_trace_ttl = None, m_stack_trace_slice = None, m_capture_memory_snapshot = False,
      m_snapshot_scope = None, m_snapshot_ttl = None, m_anchor = None, m_anchor_status = Unanchored\<rparr>"

theorem expression_hash_separates_witness:
  "length_prefixed [''x''] \<noteq> length_prefixed [''x'', ''y'']"
  using expression_hash_separates[of sample_metric "sample_metric\<lparr>m_expressions := [''x'', ''y'']\<rparr>" "\<lambda>_. []"]
  by (simp add: sample_metric_def expression_hash_def)

text \<open>The same for anchors: contexts that differ as fields give different fingerprints, unless
  SHA-256 collides on the two encodings.\<close>

theorem fingerprint_separates:
  assumes "compute_fingerprint sha256 a = Some f" "compute_fingerprint sha256 b = Some f"
  shows "(unwrap_or_empty (context_before a), unwrap_or_empty (source_line a), unwrap_or_empty (context_after a)) =
      (unwrap_or_empty (context_before b), unwrap_or_empty (source_line b), unwrap_or_empty (context_after b)) \<or>
    (\<exists>x y. x \<noteq> y \<and> sha256 x = sha256 y)"
proof -
  let ?fa = "[unwrap_or_empty (context_before a), unwrap_or_empty (source_line a), unwrap_or_empty (context_after a)]"
  let ?fb = "[unwrap_or_empty (context_before b), unwrap_or_empty (source_line b), unwrap_or_empty (context_after b)]"
  from assms have "sha256 (length_prefixed ?fa) = sha256 (length_prefixed ?fb)"
    by (auto simp: compute_fingerprint_def Let_def hex_string_inj split: if_splits)
  then show ?thesis
  proof (cases "?fa = ?fb")
    case False
    then have "length_prefixed ?fa \<noteq> length_prefixed ?fb" using length_prefixed_inj[of ?fa ?fb] by blast
    with \<open>sha256 (length_prefixed ?fa) = _\<close> show ?thesis by blast
  qed simp
qed

theorem fingerprint_separates_witness:
  "compute_fingerprint (\<lambda>x. x) (anchor_new\<lparr>source_line := Some ''s''\<rparr>) \<noteq> None \<and>
   (unwrap_or_empty (source_line (anchor_new\<lparr>source_line := Some ''s''\<rparr>)) =
     unwrap_or_empty (source_line (anchor_new\<lparr>source_line := Some ''s'', context_before := Some []\<rparr>)))"
proof -
  let ?a = "anchor_new\<lparr>source_line := Some ''s''\<rparr>"
  let ?b = "anchor_new\<lparr>source_line := Some ''s'', context_before := Some []\<rparr>"
  obtain f where f: "compute_fingerprint (\<lambda>x. x) ?a = Some f" "compute_fingerprint (\<lambda>x. x) ?b = Some f"
    by (simp add: compute_fingerprint_def anchor_new_def unwrap_or_empty_def)
  from fingerprint_separates [OF f] f(1) show ?thesis by auto
qed

text \<open>An analysis built by the interface of the purity module and found safe recorded no impure
  and no unknown call.\<close>

theorem safe_analysis_has_no_calls:
  assumes "analysis_built a" "purity_is_safe (level a)"
  shows "impure_calls a = [] \<and> unknown_calls a = []"
  using analysis_built_level[OF assms(1)] assms(2) by (auto simp: purity_is_safe_def)

theorem safe_analysis_has_no_calls_witness:
  "impure_calls (analysis_combine analysis_pure analysis_pure) = []"
  using safe_analysis_has_no_calls[OF built_combine [OF built_pure built_pure]]
  by (simp add: analysis_op_defs purity_is_safe_def purity_combine_def)

end
