(* ===== verification/Core_Connection.thy ===== *)
theory Core_Connection
  imports Core_Metric
begin

text \<open>
  Connections of \<open>detrix-core\<close>: \<open>connection.rs\<close>, \<open>connection_identity.rs\<close> and
  \<open>connection_reference.rs\<close> under \<open>src/crates/detrix-core/src/\<close>. The wall clock is
  an argument: an operation that reads it takes the microseconds it read. The lemmas
  show what every constructed connection satisfies and that status changes keep it,
  that a status survives storage as text, which identities the hashed UUID separates,
  and when the inactivity test is exact.
\<close>


section \<open>Connection identifiers and status\<close>

definition MIN_UNRESERVED_PORT :: u16 where
  "MIN_UNRESERVED_PORT = 1024"

definition AGENT_NAME_PREFIX :: string where
  "AGENT_NAME_PREFIX = ''agent/''"

definition UNKNOWN_WORKSPACE_ROOT :: string where
  "UNKNOWN_WORKSPACE_ROOT = ''/unknown''"

type_synonym connection_id = string

definition from_host_port :: "string \<Rightarrow> u16 \<Rightarrow> connection_id" where
  "from_host_port host port =
     (let normalized_host = replace_chars [CHR ''.'', CHR '':''] CHR ''_'' host;
          final_host = (if trim_matches_char CHR ''_'' normalized_host = [] then ''localhost''
                        else normalized_host)
      in final_host @ ''_'' @ show_nat (unat port))"

datatype connection_status =
  Disconnected | Connecting | Connected | Reconnecting | Failed string

primrec status_as_str :: "connection_status \<Rightarrow> string" where
  "status_as_str Disconnected = ''disconnected''"
| "status_as_str Connecting = ''connecting''"
| "status_as_str Connected = ''connected''"
| "status_as_str Reconnecting = ''reconnecting''"
| "status_as_str (Failed m) = ''failed''"

definition to_status_string :: "connection_status \<Rightarrow> string" where
  "to_status_string st = (case st of Failed m \<Rightarrow> ''failed: '' @ m | _ \<Rightarrow> status_as_str st)"

text \<open>\<open>From<&str> for ConnectionStatus\<close>.\<close>

definition status_from_str :: "string \<Rightarrow> connection_status" where
  "status_from_str s =
     (if s = ''disconnected'' then Disconnected
      else if s = ''connecting'' then Connecting
      else if s = ''connected'' then Connected
      else if s = ''reconnecting'' then Reconnecting
      else if prefix ''failed:'' s then Failed (trim (trim_start_matches ''failed:'' s))
      else Disconnected)"


section \<open>Identities\<close>

record connection_identity =
  id_name :: string
  id_language :: source_language
  id_workspace_root :: string
  id_hostname :: string

text \<open>The text that \<open>to_uuid\<close> hashes; the digest function is a parameter.\<close>

definition identity_text :: "connection_identity \<Rightarrow> string" where
  "identity_text i =
     id_name i @ ''|'' @ lang_as_str (id_language i) @ ''|'' @ id_workspace_root i @ ''|'' @ id_hostname i"

definition to_uuid :: "(string \<Rightarrow> string) \<Rightarrow> connection_identity \<Rightarrow> string" where
  "to_uuid sha256 i = hex_string (take 16 (sha256 (identity_text i)))"

definition identity_validate :: "connection_identity \<Rightarrow> unit result" where
  "identity_validate i =
     (if id_name i = [] then Inl (InvalidConfig ''Connection name cannot be empty'')
      else if id_language i = Unknown then
        Inl (InvalidConfig (''Unknown language is not allowed for connections. Specify a valid language: '' @
          ''python, go, rust, javascript, typescript, java, cpp, c, ruby, php''))
      else if id_workspace_root i = [] then Inl (InvalidConfig ''Workspace root cannot be empty'')
      else if id_hostname i = [] then Inl (InvalidConfig ''Hostname cannot be empty'')
      else Inr ())"


section \<open>Connections\<close>

record connection =
  c_id :: connection_id
  c_name :: "string option"
  c_workspace_root :: string
  c_hostname :: string
  c_host :: string
  c_port :: u16
  c_language :: source_language
  c_status :: connection_status
  c_auto_reconnect :: bool
  c_safe_mode :: bool
  c_control_plane_url :: "string option"
  c_build_commit :: "string option"
  c_build_tag :: "string option"
  c_user_id :: "string option"
  c_created_at :: i64
  c_last_connected_at :: "i64 option"
  c_last_active :: i64

definition is_agent_managed_identity :: "connection_identity \<Rightarrow> bool" where
  "is_agent_managed_identity i \<longleftrightarrow> prefix AGENT_NAME_PREFIX (id_name i)"

definition is_agent_managed :: "connection \<Rightarrow> bool" where
  "is_agent_managed c \<longleftrightarrow> (case c_name c of None \<Rightarrow> False | Some n \<Rightarrow> prefix AGENT_NAME_PREFIX n)"

definition valid_workspace_root :: "connection \<Rightarrow> string option" where
  "valid_workspace_root c =
     (let r = c_workspace_root c in if r \<noteq> UNKNOWN_WORKSPACE_ROOT \<and> r \<noteq> [] then Some r else None)"

definition reserved_port_error :: "u16 \<Rightarrow> error" where
  "reserved_port_error port =
     InvalidConfig (''Port '' @ show_nat (unat port) @ '' is below '' @
       show_nat (unat MIN_UNRESERVED_PORT) @ '' (reserved range)'')"

definition new_with_identity ::
  "(string \<Rightarrow> string) \<Rightarrow> i64 \<Rightarrow> connection_identity \<Rightarrow> string \<Rightarrow> u16 \<Rightarrow> connection result" where
  "new_with_identity sha256 now i host port =
     try_bind (identity_validate i) (\<lambda>_.
       if port < MIN_UNRESERVED_PORT \<and> \<not> is_agent_managed_identity i then Inl (reserved_port_error port)
       else if host = [] then Inl (InvalidConfig ''Host cannot be empty'')
       else Inr
         \<lparr>c_id = to_uuid sha256 i, c_name = Some (id_name i), c_workspace_root = id_workspace_root i,
          c_hostname = id_hostname i, c_host = host, c_port = port, c_language = id_language i,
          c_status = Disconnected, c_auto_reconnect = True, c_safe_mode = False,
          c_control_plane_url = None, c_build_commit = None, c_build_tag = None, c_user_id = None,
          c_created_at = now, c_last_connected_at = None, c_last_active = now\<rparr>)"

definition connection_new ::
  "i64 \<Rightarrow> connection_id \<Rightarrow> string \<Rightarrow> u16 \<Rightarrow> source_language \<Rightarrow> connection result" where
  "connection_new now cid host port lang =
     (if port < MIN_UNRESERVED_PORT then Inl (reserved_port_error port)
      else if host = [] then Inl (InvalidConfig ''Host cannot be empty'')
      else if lang = Unknown then
        Inl (InvalidConfig (''Unknown language is not allowed for connections. Specify a valid language: '' @
          ''python, go, rust, javascript, typescript, java, cpp, c, ruby, php''))
      else Inr
         \<lparr>c_id = cid, c_name = None, c_workspace_root = UNKNOWN_WORKSPACE_ROOT,
          c_hostname = ''unknown'', c_host = host, c_port = port, c_language = lang,
          c_status = Disconnected, c_auto_reconnect = True, c_safe_mode = False,
          c_control_plane_url = None, c_build_commit = None, c_build_tag = None, c_user_id = None,
          c_created_at = now, c_last_connected_at = None, c_last_active = now\<rparr>)"

definition new_with_auto_id :: "i64 \<Rightarrow> string \<Rightarrow> u16 \<Rightarrow> source_language \<Rightarrow> connection result" where
  "new_with_auto_id now host port lang = connection_new now (from_host_port host port) host port lang"

definition address :: "connection \<Rightarrow> string" where
  "address c = c_host c @ '':'' @ show_nat (unat (c_port c))"

text \<open>\<open>set_status\<close> reads the clock once for \<open>last_connected_at\<close> and once for \<open>last_active\<close>.\<close>

definition set_status :: "connection \<Rightarrow> connection_status \<Rightarrow> i64 \<Rightarrow> i64 \<Rightarrow> connection" where
  "set_status c st now1 now2 =
     (let c1 = (if st = Connected then c\<lparr>c_last_connected_at := Some now1\<rparr> else c)
      in c1\<lparr>c_status := st, c_last_active := now2\<rparr>)"

definition is_active :: "connection \<Rightarrow> bool" where
  "is_active c \<longleftrightarrow> c_status c = Connected \<or> c_status c = Connecting"

definition should_reconnect :: "connection \<Rightarrow> bool" where
  "should_reconnect c \<longleftrightarrow> c_auto_reconnect c \<and>
     (case c_status c of Disconnected \<Rightarrow> True | Reconnecting \<Rightarrow> True | Failed _ \<Rightarrow> True | _ \<Rightarrow> False)"

definition validate_user_id :: "string option \<Rightarrow> unit result" where
  "validate_user_id u = validate_tenant_id ''connection user_id'' u"

definition connection_touch :: "connection \<Rightarrow> i64 \<Rightarrow> connection" where
  "connection_touch c now = c\<lparr>c_last_active := now\<rparr>"

definition micros_per_day :: i64 where
  "micros_per_day = 86400 * 1000000"

text \<open>\<open>inactive_for_days\<close>, with the wrapping \<open>i64\<close> arithmetic of the release build.\<close>

definition inactive_for_days :: "connection \<Rightarrow> i64 \<Rightarrow> i64 \<Rightarrow> bool" where
  "inactive_for_days c days now =
     (if sint days < 0 then False
      else if days = 0 then True
      else sint (days * micros_per_day) \<le> sint (now - c_last_active c))"


section \<open>References\<close>

datatype client_identity = Bridge string | Daemon

definition DAEMON_IDENTITY :: string where
  "DAEMON_IDENTITY = ''__daemon__''"

primrec client_as_str :: "client_identity \<Rightarrow> string" where
  "client_as_str (Bridge i) = i"
| "client_as_str Daemon = DAEMON_IDENTITY"

definition client_from_str :: "string \<Rightarrow> client_identity" where
  "client_from_str s = (if s = DAEMON_IDENTITY then Daemon else Bridge s)"

datatype reference_kind = ClientRef | DaemonRef

primrec kind_as_str :: "reference_kind \<Rightarrow> string" where
  "kind_as_str ClientRef = ''client''"
| "kind_as_str DaemonRef = ''daemon''"

definition kind_from_str :: "string \<Rightarrow> reference_kind" where
  "kind_from_str s = (if s = ''daemon'' then DaemonRef else ClientRef)"

record connection_reference =
  r_connection_id :: connection_id
  r_client_identity :: client_identity
  r_kind :: reference_kind
  r_created_at :: i64
  r_last_active :: i64

definition reference_new ::
  "i64 \<Rightarrow> connection_id \<Rightarrow> client_identity \<Rightarrow> reference_kind \<Rightarrow> connection_reference" where
  "reference_new now cid client kind =
     \<lparr>r_connection_id = cid, r_client_identity = client, r_kind = kind,
      r_created_at = now, r_last_active = now\<rparr>"

definition reference_touch :: "connection_reference \<Rightarrow> i64 \<Rightarrow> connection_reference" where
  "reference_touch r now = r\<lparr>r_last_active := now\<rparr>"


section \<open>Status text\<close>

lemma status_failed_roundtrip: "status_from_str (''failed: '' @ m) = Failed (trim m)"
proof -
  have "trim_start_matches ''failed:'' (''failed: '' @ m) = CHR 0x20 # m"
    using trim_start_matches_space[of "''failed:''" m] by simp
  then have "trim (trim_start_matches ''failed:'' (''failed: '' @ m)) = trim m"
    by (simp add: trim_def trim_start_space)
  then show ?thesis by (simp add: status_from_str_def)
qed


section \<open>Well-formed connections\<close>

definition connection_wf :: "connection \<Rightarrow> bool" where
  "connection_wf c \<longleftrightarrow>
     c_host c \<noteq> [] \<and> c_language c \<noteq> Unknown \<and> c_workspace_root c \<noteq> [] \<and> c_hostname c \<noteq> [] \<and>
     (MIN_UNRESERVED_PORT \<le> c_port c \<or> is_agent_managed c) \<and>
     (c_status c = Connected \<longrightarrow> c_last_connected_at c \<noteq> None)"

lemmas connection_accessors = is_agent_managed_def is_agent_managed_identity_def
  connection_wf_def MIN_UNRESERVED_PORT_def

lemma new_with_identity_wf [inv_intro]:
  "new_with_identity sha256 now i host port = Inr c \<Longrightarrow> connection_wf c"
  by (auto simp: new_with_identity_def identity_validate_def connection_accessors
      try_bind_Inr_iff split: if_splits)

lemma connection_new_wf [inv_intro]: "connection_new now cid host port lang = Inr c \<Longrightarrow> connection_wf c"
  by (auto simp: connection_new_def connection_accessors UNKNOWN_WORKSPACE_ROOT_def split: if_splits)

lemma set_status_wf [inv_intro]: "connection_wf c \<Longrightarrow> connection_wf (set_status c st now1 now2)"
  by (auto simp: set_status_def connection_accessors Let_def)

lemma connection_touch_wf [inv_intro]: "connection_wf c \<Longrightarrow> connection_wf (connection_touch c now)"
  by (auto simp: connection_touch_def connection_accessors)

text \<open>Every connection a caller can get: built by a constructor, then changed by the setters.\<close>

inductive connection_reachable :: "(string \<Rightarrow> string) \<Rightarrow> connection \<Rightarrow> bool" for sha256 where
  reach_identity: "new_with_identity sha256 now i host port = Inr c \<Longrightarrow> connection_reachable sha256 c"
| reach_new: "connection_new now cid host port lang = Inr c \<Longrightarrow> connection_reachable sha256 c"
| reach_status: "connection_reachable sha256 c \<Longrightarrow> connection_reachable sha256 (set_status c st now1 now2)"
| reach_touch: "connection_reachable sha256 c \<Longrightarrow> connection_reachable sha256 (connection_touch c now)"

lemma connection_reachable_wf: "connection_reachable sha256 c \<Longrightarrow> connection_wf c"
  by (induction rule: connection_reachable.induct) (auto intro: inv_intro)


section \<open>Identity text\<close>

lemma bar_not_in_lang: "CHR ''|'' \<notin> set (lang_as_str l)"
  by (cases l) simp_all

lemma lang_as_str_inj: "lang_as_str a = lang_as_str b \<longleftrightarrow> a = b"
  by (cases a; cases b) simp_all

lemma bar_unique:
  assumes "CHR ''|'' \<notin> set a" "CHR ''|'' \<notin> set b" "a @ CHR ''|'' # r = b @ CHR ''|'' # r'"
  shows "a = b" "r = r'"
proof -
  from assms(1) have "split_once CHR ''|'' (a @ CHR ''|'' # r) = Some (a, r)" by (rule split_once_first)
  moreover from assms(2) have "split_once CHR ''|'' (b @ CHR ''|'' # r') = Some (b, r')"
    by (rule split_once_first)
  ultimately show "a = b" "r = r'" unfolding assms(3) by simp_all
qed

lemma identity_text_inj:
  assumes "CHR ''|'' \<notin> set (id_name i)" "CHR ''|'' \<notin> set (id_name j)"
    and "CHR ''|'' \<notin> set (id_workspace_root i)" "CHR ''|'' \<notin> set (id_workspace_root j)"
    and eq: "identity_text i = identity_text j"
  shows "i = j"
proof -
  note b = bar_unique
  from eq have 1: "id_name i @ CHR ''|'' # lang_as_str (id_language i) @ CHR ''|'' #
        id_workspace_root i @ CHR ''|'' # id_hostname i =
      id_name j @ CHR ''|'' # lang_as_str (id_language j) @ CHR ''|'' #
        id_workspace_root j @ CHR ''|'' # id_hostname j"
    by (simp add: identity_text_def)
  note 2 = b(2) [OF assms(1,2) 1]
  note 3 = b(2) [OF bar_not_in_lang bar_not_in_lang 2]
  have "id_name i = id_name j" by (rule b(1) [OF assms(1,2) 1])
  moreover have "id_language i = id_language j"
    using b(1) [OF bar_not_in_lang bar_not_in_lang 2] by (simp add: lang_as_str_inj)
  moreover have "id_workspace_root i = id_workspace_root j" by (rule b(1) [OF assms(3,4) 3])
  moreover have "id_hostname i = id_hostname j" by (rule b(2) [OF assms(3,4) 3])
  ultimately show ?thesis by simp
qed



section \<open>The inactivity test\<close>

lemma sint_in_range:
  fixes a :: "64 word"
  shows "- (2 ^ 63) \<le> sint a" "sint a < 2 ^ 63"
  using sint_ge[of a] sint_lt[of a] by simp_all

lemma sint_mult_64:
  fixes a b :: "64 word"
  assumes "- (2 ^ 63) \<le> sint a * sint b" "sint a * sint b < 2 ^ 63"
  shows "sint (a * b) = sint a * sint b"
  using assms by (simp add: sint_word_ariths signed_take_bit_int_eq_self)

lemma sint_diff_64:
  fixes a b :: "64 word"
  assumes "- (2 ^ 63) \<le> sint a - sint b" "sint a - sint b < 2 ^ 63"
  shows "sint (a - b) = sint a - sint b"
  using assms by (simp add: sint_word_ariths signed_take_bit_int_eq_self)

lemma sint_micros_per_day: "sint micros_per_day = 86400000000"
  by (simp add: micros_per_day_def)

lemma inactive_for_days_exact:
  assumes days: "0 < sint days" "sint days \<le> 106751991"
    and la: "0 \<le> sint (c_last_active c)" and now: "0 \<le> sint now"
  shows "inactive_for_days c days now \<longleftrightarrow>
    sint days * 86400000000 \<le> sint now - sint (c_last_active c)"
proof -
  have mult: "sint (days * micros_per_day) = sint days * 86400000000"
    using sint_mult_64[of days micros_per_day] days by (simp add: sint_micros_per_day)
  have diff: "sint (now - c_last_active c) = sint now - sint (c_last_active c)"
    using la now sint_in_range[of now] sint_in_range[of "c_last_active c"]
    by (intro sint_diff_64) linarith+
  from days have "days \<noteq> 0" by auto
  with days show ?thesis by (simp add: inactive_for_days_def mult diff)
qed


section \<open>Properties\<close>

text \<open>A connection status survives being written as text and read back, a failure message up to
  surrounding white space.\<close>

lemma status_text_roundtrip:
  "status_from_str (to_status_string st) = (case st of Failed m \<Rightarrow> Failed (trim m) | _ \<Rightarrow> st)"
proof (cases st)
  case (Failed m)
  then show ?thesis
    by (simp only: to_status_string_def connection_status.case status_failed_roundtrip)
qed (simp_all add: to_status_string_def status_from_str_def)


definition sample_identity :: connection_identity where
  "sample_identity =
     \<lparr>id_name = ''bot'', id_language = Python, id_workspace_root = ''/w'', id_hostname = ''h''\<rparr>"


text \<open>Two identities whose names and workspace roots hold no vertical bar get different UUIDs,
  unless the first sixteen bytes of the SHA-256 digests of two different texts agree.\<close>

theorem uuid_separates_identities:
  assumes "CHR ''|'' \<notin> set (id_name i)" "CHR ''|'' \<notin> set (id_name j)"
    and "CHR ''|'' \<notin> set (id_workspace_root i)" "CHR ''|'' \<notin> set (id_workspace_root j)"
    and "i \<noteq> j" "to_uuid sha256 i = to_uuid sha256 j"
  shows "identity_text i \<noteq> identity_text j \<and>
    take 16 (sha256 (identity_text i)) = take 16 (sha256 (identity_text j))"
  using assms identity_text_inj by (auto simp: to_uuid_def hex_string_inj)

theorem uuid_separates_identities_witness:
  "identity_text sample_identity \<noteq> identity_text (sample_identity\<lparr>id_hostname := ''k''\<rparr>)"
  using uuid_separates_identities[of sample_identity "sample_identity\<lparr>id_hostname := ''k''\<rparr>" "\<lambda>_. []"]
  by (simp add: sample_identity_def to_uuid_def)


text \<open>For a time to live of up to 106751991 days and clock readings after 1970 the inactivity test
  is exactly the comparison of elapsed microseconds with the number of days.\<close>

theorem inactive_for_days_correct:
  assumes "0 < sint days" "sint days \<le> 106751991" "0 \<le> sint (c_last_active c)" "0 \<le> sint now"
  shows "inactive_for_days c days now \<longleftrightarrow>
    sint days * 86400000000 \<le> sint now - sint (c_last_active c)"
  using assms by (rule inactive_for_days_exact)

definition sample_connection :: connection where
  "sample_connection =
     \<lparr>c_id = ''x'', c_name = None, c_workspace_root = ''/w'', c_hostname = ''h'', c_host = ''h'',
      c_port = 5678, c_language = Go, c_status = Disconnected, c_auto_reconnect = True,
      c_safe_mode = False, c_control_plane_url = None, c_build_commit = None, c_build_tag = None,
      c_user_id = None, c_created_at = 5, c_last_connected_at = None, c_last_active = 5\<rparr>"

theorem inactive_for_days_correct_witness:
  "inactive_for_days sample_connection 1 86400000005 \<and> \<not> inactive_for_days sample_connection 1 86400000004"
  using inactive_for_days_correct[of 1 sample_connection 86400000005]
    inactive_for_days_correct[of 1 sample_connection 86400000004]
  by (simp add: sample_connection_def)


text \<open>A user or agent identifier that passes tenant validation never names the daemon's own
  reference identity.\<close>

theorem tenant_id_not_daemon:
  assumes "validate_tenant_id field (Some v) = Inr ()"
  shows "client_from_str v = Bridge v \<and> client_as_str (client_from_str v) = v"
proof -
  have "v \<noteq> DAEMON_IDENTITY"
  proof
    assume v: "v = DAEMON_IDENTITY"
    have "prefix ''__'' DAEMON_IDENTITY" "suffix ''__'' DAEMON_IDENTITY" "length DAEMON_IDENTITY = 10"
      by (simp_all add: DAEMON_IDENTITY_def suffix_def)
    with assms v show False by (simp add: validate_tenant_id_def split: if_splits)
  qed
  then show ?thesis by (simp add: client_from_str_def)
qed

theorem tenant_id_not_daemon_witness: "client_from_str ''alice'' = Bridge ''alice''"
proof -
  have "validate_tenant_id ''user_id'' (Some ''alice'') = Inr ()"
    by (simp add: validate_tenant_id_def all_whitespace_def trim_start_plain plain_start_def
        byte_of_def MAX_USER_ID_LEN_def suffix_def)
  from tenant_id_not_daemon [OF this] show ?thesis by simp
qed

end
