(* ===== verification/Core_Event.thy ===== *)
theory Core_Event
  imports Core_Metric
begin

text \<open>
  Metric events (\<open>detrix-core/src/entities/event.rs\<close> and the captured data of
  \<open>detrix-core/src/entities/memory.rs\<close>): typed values, their flat form for storage and the
  event record with its constructors and accessors. An \<open>f64\<close> is its 64-bit pattern; nothing here
  computes with it.
\<close>


datatype typed_value = Numeric f64 | Text string | Boolean bool

record expression_value =
  xv_expression :: string
  xv_value_json :: string
  xv_typed_value :: "typed_value option"

text \<open>The flat record that is written as JSON.\<close>

record expression_value_serde =
  xs_expression :: string
  xs_value_json :: string
  xs_value_numeric :: "f64 option"
  xs_value_string :: "string option"
  xs_value_boolean :: "bool option"

definition to_serde :: "expression_value \<Rightarrow> expression_value_serde" where
  "to_serde ev =
     (let (n, s, b) =
        (case xv_typed_value ev of
           Some (Numeric n) \<Rightarrow> (Some n, None, None)
         | Some (Text s) \<Rightarrow> (None, Some s, None)
         | Some (Boolean b) \<Rightarrow> (None, None, Some b)
         | None \<Rightarrow> (None, None, None)) in
      \<lparr>xs_expression = xv_expression ev, xs_value_json = xv_value_json ev,
       xs_value_numeric = n, xs_value_string = s, xs_value_boolean = b\<rparr>)"

definition from_serde :: "expression_value_serde \<Rightarrow> expression_value" where
  "from_serde s =
     \<lparr>xv_expression = xs_expression s, xv_value_json = xs_value_json s,
      xv_typed_value =
        (case xs_value_numeric s of
           Some n \<Rightarrow> Some (Numeric n)
         | None \<Rightarrow>
             (case xs_value_string s of
                Some t \<Rightarrow> Some (Text t)
              | None \<Rightarrow> map_option Boolean (xs_value_boolean s)))\<rparr>"

definition value_new :: "string \<Rightarrow> string \<Rightarrow> expression_value" where
  "value_new e json = \<lparr>xv_expression = e, xv_value_json = json, xv_typed_value = None\<rparr>"

definition with_numeric :: "string \<Rightarrow> string \<Rightarrow> f64 \<Rightarrow> expression_value" where
  "with_numeric e json n =
     \<lparr>xv_expression = e, xv_value_json = json, xv_typed_value = Some (Numeric n)\<rparr>"

definition with_text :: "string \<Rightarrow> string \<Rightarrow> string \<Rightarrow> expression_value" where
  "with_text e json s =
     \<lparr>xv_expression = e, xv_value_json = json, xv_typed_value = Some (Text s)\<rparr>"

definition with_boolean :: "string \<Rightarrow> string \<Rightarrow> bool \<Rightarrow> expression_value" where
  "with_boolean e json b =
     \<lparr>xv_expression = e, xv_value_json = json, xv_typed_value = Some (Boolean b)\<rparr>"

definition numeric :: "expression_value \<Rightarrow> f64 option" where
  "numeric v = (case xv_typed_value v of Some (Numeric n) \<Rightarrow> Some n | _ \<Rightarrow> None)"

definition text_value :: "expression_value \<Rightarrow> string option" where
  "text_value v = (case xv_typed_value v of Some (Text s) \<Rightarrow> Some s | _ \<Rightarrow> None)"

definition boolean :: "expression_value \<Rightarrow> bool option" where
  "boolean v = (case xv_typed_value v of Some (Boolean b) \<Rightarrow> Some b | _ \<Rightarrow> None)"


section \<open>Captured stacks and memory\<close>

record stack_frame =
  sf_index :: u32
  sf_name :: string
  sf_file :: "string option"
  sf_line :: "u32 option"
  sf_column :: "u32 option"
  sf_module :: "string option"

record captured_stack_trace =
  st_frames :: "stack_frame list"
  st_total_frames :: u32
  st_truncated :: bool

record captured_variable =
  cv_name :: string
  cv_value :: string
  cv_var_type :: "string option"
  cv_scope :: "string option"

record memory_snapshot =
  ms_locals :: "captured_variable list"
  ms_globals :: "captured_variable list"
  ms_scope :: snapshot_scope


section \<open>Events\<close>

record metric_event =
  ev_id :: "i64 option"
  ev_metric_id :: u64
  ev_metric_name :: string
  ev_connection_id :: string
  ev_timestamp :: i64
  ev_thread_name :: "string option"
  ev_thread_id :: "i64 option"
  ev_values :: "expression_value list"
  ev_is_error :: bool
  ev_error_type :: "string option"
  ev_error_message :: "string option"
  ev_request_id :: "string option"
  ev_session_id :: "string option"
  ev_stack_trace :: "captured_stack_trace option"
  ev_memory_snapshot :: "memory_snapshot option"

definition event_new :: "i64 \<Rightarrow> u64 \<Rightarrow> string \<Rightarrow> string \<Rightarrow> string \<Rightarrow> metric_event" where
  "event_new now metric_id metric_name connection_id json =
     \<lparr>ev_id = None, ev_metric_id = metric_id, ev_metric_name = metric_name,
      ev_connection_id = connection_id, ev_timestamp = now, ev_thread_name = None,
      ev_thread_id = None, ev_values = [value_new '''' json], ev_is_error = False,
      ev_error_type = None, ev_error_message = None, ev_request_id = None, ev_session_id = None,
      ev_stack_trace = None, ev_memory_snapshot = None\<rparr>"

definition event_error :: "i64 \<Rightarrow> u64 \<Rightarrow> string \<Rightarrow> string \<Rightarrow> string \<Rightarrow> string \<Rightarrow> metric_event" where
  "event_error now metric_id metric_name connection_id error_type error_message =
     \<lparr>ev_id = None, ev_metric_id = metric_id, ev_metric_name = metric_name,
      ev_connection_id = connection_id, ev_timestamp = now, ev_thread_name = None,
      ev_thread_id = None, ev_values = [], ev_is_error = True,
      ev_error_type = Some error_type, ev_error_message = Some error_message,
      ev_request_id = None, ev_session_id = None, ev_stack_trace = None,
      ev_memory_snapshot = None\<rparr>"

definition first_value :: "metric_event \<Rightarrow> expression_value option" where
  "first_value ev = (case ev_values ev of [] \<Rightarrow> None | v # _ \<Rightarrow> Some v)"

definition value_json :: "metric_event \<Rightarrow> string" where
  "value_json ev = (case first_value ev of None \<Rightarrow> '''' | Some v \<Rightarrow> xv_value_json v)"

definition value_numeric :: "metric_event \<Rightarrow> f64 option" where
  "value_numeric ev = Option.bind (first_value ev) numeric"

definition value_string :: "metric_event \<Rightarrow> string option" where
  "value_string ev = Option.bind (first_value ev) text_value"

definition value_boolean :: "metric_event \<Rightarrow> bool option" where
  "value_boolean ev = Option.bind (first_value ev) boolean"

definition with_stack_trace :: "metric_event \<Rightarrow> captured_stack_trace \<Rightarrow> metric_event" where
  "with_stack_trace ev t = ev\<lparr>ev_stack_trace := Some t\<rparr>"

definition with_memory_snapshot :: "metric_event \<Rightarrow> memory_snapshot \<Rightarrow> metric_event" where
  "with_memory_snapshot ev s = ev\<lparr>ev_memory_snapshot := Some s\<rparr>"


section \<open>Properties\<close>

text \<open>A typed value survives its flat form, and of two filled fields of malformed data the
  numeric one wins over the text and the text over the Boolean.\<close>

lemma expression_value_roundtrip:
  "from_serde (to_serde ev) = ev \<and>
   (case xs_value_numeric s of
      Some n \<Rightarrow> numeric (from_serde s) = Some n
    | None \<Rightarrow> (case xs_value_string s of
        Some t \<Rightarrow> text_value (from_serde s) = Some t
      | None \<Rightarrow> boolean (from_serde s) = xs_value_boolean s))"
proof -
  have "from_serde (to_serde ev) = ev"
    by (cases ev) (auto simp: from_serde_def to_serde_def split: option.splits typed_value.splits)
  moreover have "case xs_value_numeric s of
      Some n \<Rightarrow> numeric (from_serde s) = Some n
    | None \<Rightarrow> (case xs_value_string s of
        Some t \<Rightarrow> text_value (from_serde s) = Some t
      | None \<Rightarrow> boolean (from_serde s) = xs_value_boolean s)"
    by (simp add: from_serde_def numeric_def text_value_def boolean_def split: option.splits)
  ultimately show ?thesis by simp
qed

end
