(* ===== verification/Circuit_Breakers.thy ===== *)
theory Circuit_Breakers
  imports Core_Error
begin

text \<open>
  The two circuit breakers of the daemon. The agent breaker
  (\<open>detrix-application/src/services/circuit_breaker.rs\<close>) guards the calls of a remote adapter;
  the output breaker (\<open>detrix-output/src/circuit_breaker.rs\<close>) guards an event output, which
  \<open>detrix-output/src/middleware/circuit_breaker.rs\<close> wraps. Every method is one atomic step, so
  a list of steps is an interleaving of the callers that share a breaker. The clock reading of a
  step is an argument: milliseconds of the system clock for the agent breaker, nanoseconds of the
  monotonic clock for the output breaker. The locale \<open>breaker\<close> holds what both promise their
  callers: while the breaker is open every caller is refused, and after the cooldown one gets through.
\<close>


section \<open>The agent breaker\<close>

definition STATE_CLOSED :: u8 where
  "STATE_CLOSED = 0"

definition STATE_OPEN :: u8 where
  "STATE_OPEN = 1"

definition STATE_HALF_OPEN :: u8 where
  "STATE_HALF_OPEN = 2"

record agent_breaker =
  ab_state :: u8
  ab_last_transition_ms :: u64
  ab_failure_timestamps :: "u64 list"

definition agent_breaker_new :: "u64 \<Rightarrow> agent_breaker" where
  "agent_breaker_new now =
     \<lparr>ab_state = STATE_CLOSED, ab_last_transition_ms = now, ab_failure_timestamps = []\<rparr>"

text \<open>\<open>is_open\<close> loads the state and finishes with a compare-and-exchange. The part after the load
  is a definition of its own, so that two callers can be interleaved between the two.\<close>

definition is_open_loaded :: "u8 \<Rightarrow> u64 \<Rightarrow> agent_breaker \<Rightarrow> bool \<times> agent_breaker" where
  "is_open_loaded state now b =
     (if state = STATE_OPEN then
        let elapsed = saturating_sub now (ab_last_transition_ms b) in
        if elapsed \<ge> 30000 then
          (if ab_state b = STATE_OPEN then (False, b\<lparr>ab_state := STATE_HALF_OPEN\<rparr>) else (True, b))
        else (True, b)
      else (False, b))"

definition is_open :: "agent_breaker \<Rightarrow> u64 \<Rightarrow> bool \<times> agent_breaker" where
  "is_open b now = is_open_loaded (ab_state b) now b"

definition peek_open :: "agent_breaker \<Rightarrow> bool" where
  "peek_open b \<longleftrightarrow> ab_state b = STATE_OPEN"

definition on_success :: "agent_breaker \<Rightarrow> u64 \<Rightarrow> agent_breaker" where
  "on_success b now =
     (let b = b\<lparr>ab_failure_timestamps := []\<rparr> in
      if ab_state b = STATE_HALF_OPEN
      then b\<lparr>ab_state := STATE_CLOSED, ab_last_transition_ms := now\<rparr> else b)"

definition on_failure :: "agent_breaker \<Rightarrow> u64 \<Rightarrow> agent_breaker" where
  "on_failure b ts =
     (let timestamps = ab_failure_timestamps b @ [ts];
          timestamps = (if length timestamps > 3 then tl timestamps else timestamps) in
      if length timestamps \<ge> 3 \<and> saturating_sub ts (timestamps ! 0) \<le> 60000
      then b\<lparr>ab_state := STATE_OPEN, ab_last_transition_ms := ts, ab_failure_timestamps := []\<rparr>
      else b\<lparr>ab_failure_timestamps := timestamps\<rparr>)"

text \<open>\<open>call\<close> around a remote operation with result \<open>r\<close>; \<open>t\<^sub>1\<close> and \<open>t\<^sub>2\<close> are the clock before and
  after it. The Boolean says whether the operation ran.\<close>

definition breaker_call ::
  "agent_breaker \<Rightarrow> u64 \<Rightarrow> u64 \<Rightarrow> 'a result \<Rightarrow> 'a result \<times> bool \<times> agent_breaker" where
  "breaker_call b t\<^sub>1 t\<^sub>2 r =
     (case is_open b t\<^sub>1 of
        (True, b) \<Rightarrow> (Inl (Adapter ''agent circuit open''), False, b)
      | (False, b) \<Rightarrow>
          (r, True,
           case r of
             Inr _ \<Rightarrow> on_success b t\<^sub>2
           | Inl e \<Rightarrow> if is_retryable e then on_failure b t\<^sub>2 else b))"


section \<open>The output breaker\<close>

datatype circuit_state = Closed | Open | HalfOpen

record breaker_config =
  failure_threshold :: u32
  reset_timeout_ms :: u64
  success_threshold :: u32
  breaker_name :: "string option"

definition config_default :: breaker_config where
  "config_default = \<lparr>failure_threshold = 5, reset_timeout_ms = 30000, success_threshold = 2,
     breaker_name = None\<rparr>"

definition config_new :: "u32 \<Rightarrow> u64 \<Rightarrow> breaker_config" where
  "config_new threshold timeout =
     config_default\<lparr>failure_threshold := threshold, reset_timeout_ms := timeout\<rparr>"

record output_breaker =
  ob_config :: breaker_config
  ob_state :: circuit_state
  ob_consecutive_failures :: u32
  ob_consecutive_successes :: u32
  ob_last_failure_time :: "nat option"
  ob_total_requests :: u64
  ob_rejected_requests :: u64
  ob_total_failures :: u64
  ob_total_successes :: u64
  ob_state_transitions :: u64

definition output_breaker_new :: "breaker_config \<Rightarrow> output_breaker" where
  "output_breaker_new cfg =
     \<lparr>ob_config = cfg, ob_state = Closed, ob_consecutive_failures = 0,
      ob_consecutive_successes = 0, ob_last_failure_time = None, ob_total_requests = 0,
      ob_rejected_requests = 0, ob_total_failures = 0, ob_total_successes = 0,
      ob_state_transitions = 0\<rparr>"

definition reset_timeout_ns :: "output_breaker \<Rightarrow> nat" where
  "reset_timeout_ns b = unat (reset_timeout_ms (ob_config b)) * 1000000"

definition compute_effective_state :: "output_breaker \<Rightarrow> nat \<Rightarrow> circuit_state" where
  "compute_effective_state b now =
     (if ob_state b = Open then
        (case ob_last_failure_time b of
           Some last_failure \<Rightarrow> if now - last_failure \<ge> reset_timeout_ns b then HalfOpen else Open
         | None \<Rightarrow> Open)
      else ob_state b)"

definition transition_to :: "output_breaker \<Rightarrow> circuit_state \<Rightarrow> output_breaker" where
  "transition_to b new_state =
     (if ob_state b \<noteq> new_state
      then b\<lparr>ob_state := new_state, ob_consecutive_successes := 0,
             ob_state_transitions := ob_state_transitions b + 1\<rparr>
      else b)"

definition allow_request :: "output_breaker \<Rightarrow> nat \<Rightarrow> bool \<times> output_breaker" where
  "allow_request b now =
     (let b = b\<lparr>ob_total_requests := ob_total_requests b + 1\<rparr> in
      case compute_effective_state b now of
        Closed \<Rightarrow> (True, b)
      | Open \<Rightarrow> (False, b\<lparr>ob_rejected_requests := ob_rejected_requests b + 1\<rparr>)
      | HalfOpen \<Rightarrow> (True, if ob_state b = Open then transition_to b HalfOpen else b))"

definition record_success :: "output_breaker \<Rightarrow> output_breaker" where
  "record_success b =
     (let b = b\<lparr>ob_total_successes := ob_total_successes b + 1\<rparr> in
      case ob_state b of
        HalfOpen \<Rightarrow>
          (let b = b\<lparr>ob_consecutive_successes := ob_consecutive_successes b + 1,
                     ob_consecutive_failures := 0\<rparr> in
           if ob_consecutive_successes b \<ge> success_threshold (ob_config b)
           then transition_to b Closed else b)
      | Closed \<Rightarrow> b\<lparr>ob_consecutive_failures := 0,
                     ob_consecutive_successes := ob_consecutive_successes b + 1\<rparr>
      | Open \<Rightarrow> b)"

definition record_failure :: "output_breaker \<Rightarrow> nat \<Rightarrow> output_breaker" where
  "record_failure b now =
     (let b = b\<lparr>ob_total_failures := ob_total_failures b + 1,
                ob_consecutive_failures := ob_consecutive_failures b + 1,
                ob_consecutive_successes := 0,
                ob_last_failure_time := Some now\<rparr> in
      case ob_state b of
        Closed \<Rightarrow> if ob_consecutive_failures b \<ge> failure_threshold (ob_config b)
                  then transition_to b Open else b
      | HalfOpen \<Rightarrow> transition_to b Open
      | Open \<Rightarrow> b)"

definition force_state :: "output_breaker \<Rightarrow> circuit_state \<Rightarrow> output_breaker" where
  "force_state b state = transition_to b state"

definition breaker_reset :: "output_breaker \<Rightarrow> output_breaker" where
  "breaker_reset b = b\<lparr>ob_state := Closed, ob_consecutive_failures := 0,
     ob_consecutive_successes := 0, ob_last_failure_time := None\<rparr>"


subsection \<open>The guarded output\<close>

record 'i breaker_output =
  bo_inner :: 'i
  bo_breaker :: output_breaker
  bo_events_rejected :: u64

text \<open>The wrapped output is any type with a \<open>send\<close> that may fail and may change the output.\<close>

definition breaker_output_send ::
  "('i \<Rightarrow> 'e \<Rightarrow> unit result \<times> 'i) \<Rightarrow> nat \<Rightarrow> nat \<Rightarrow> 'i breaker_output \<Rightarrow> 'e
     \<Rightarrow> unit result \<times> 'i breaker_output" where
  "breaker_output_send inner_send t\<^sub>1 t\<^sub>2 out event =
     (case allow_request (bo_breaker out) t\<^sub>1 of
        (False, b) \<Rightarrow>
          (Inl (Output ''Circuit breaker is open - request blocked''),
           out\<lparr>bo_breaker := b, bo_events_rejected := bo_events_rejected out + 1\<rparr>)
      | (True, b) \<Rightarrow>
          (case inner_send (bo_inner out) event of
             (Inr _, inner) \<Rightarrow> (Inr (), out\<lparr>bo_inner := inner, bo_breaker := record_success b\<rparr>)
           | (Inl e, inner) \<Rightarrow> (Inl e, out\<lparr>bo_inner := inner, bo_breaker := record_failure b t\<^sub>2\<rparr>)))"

definition breaker_output_send_batch ::
  "('i \<Rightarrow> 'e list \<Rightarrow> unit result \<times> 'i) \<Rightarrow> nat \<Rightarrow> nat \<Rightarrow> 'i breaker_output \<Rightarrow> 'e list
     \<Rightarrow> unit result \<times> 'i breaker_output" where
  "breaker_output_send_batch inner_send_batch t\<^sub>1 t\<^sub>2 out events =
     (case allow_request (bo_breaker out) t\<^sub>1 of
        (False, b) \<Rightarrow>
          (Inl (Output ''Circuit breaker is open - batch blocked''),
           out\<lparr>bo_breaker := b,
               bo_events_rejected := bo_events_rejected out + word_of_nat (length events)\<rparr>)
      | (True, b) \<Rightarrow>
          (case inner_send_batch (bo_inner out) events of
             (Inr _, inner) \<Rightarrow> (Inr (), out\<lparr>bo_inner := inner, bo_breaker := record_success b\<rparr>)
           | (Inl e, inner) \<Rightarrow> (Inl e, out\<lparr>bo_inner := inner, bo_breaker := record_failure b t\<^sub>2\<rparr>)))"

definition breaker_output_is_healthy :: "('i \<Rightarrow> bool) \<Rightarrow> nat \<Rightarrow> 'i breaker_output \<Rightarrow> bool" where
  "breaker_output_is_healthy inner_healthy now out \<longleftrightarrow>
     compute_effective_state (bo_breaker out) now \<noteq> Open \<and> inner_healthy (bo_inner out)"


section \<open>The contract of a breaker\<close>

text \<open>The steps callers take on a shared breaker, each with its clock reading.\<close>

datatype 't breaker_op = Admit 't | Succeed 't | Fail 't

primrec op_time :: "'t breaker_op \<Rightarrow> 't" where
  "op_time (Admit t) = t"
| "op_time (Succeed t) = t"
| "op_time (Fail t) = t"

primrec breaker_step ::
  "('s \<Rightarrow> 't \<Rightarrow> bool \<times> 's) \<Rightarrow> ('s \<Rightarrow> 't \<Rightarrow> 's) \<Rightarrow> ('s \<Rightarrow> 't \<Rightarrow> 's) \<Rightarrow> 's \<Rightarrow> 't breaker_op
     \<Rightarrow> bool list \<times> 's" where
  "breaker_step admit succeed failed s (Admit t) = (let (ok, s') = admit s t in ([ok], s'))"
| "breaker_step admit succeed failed s (Succeed t) = ([], succeed s t)"
| "breaker_step admit succeed failed s (Fail t) = ([], failed s t)"

text \<open>A run collects the answers given to the callers that asked.\<close>

primrec breaker_run ::
  "('s \<Rightarrow> 't \<Rightarrow> bool \<times> 's) \<Rightarrow> ('s \<Rightarrow> 't \<Rightarrow> 's) \<Rightarrow> ('s \<Rightarrow> 't \<Rightarrow> 's) \<Rightarrow> 's \<Rightarrow> 't breaker_op list
     \<Rightarrow> bool list \<times> 's" where
  "breaker_run admit succeed failed s [] = ([], s)"
| "breaker_run admit succeed failed s (x # xs) =
     (let (a, s') = breaker_step admit succeed failed s x;
          (as, s'') = breaker_run admit succeed failed s' xs in (a @ as, s''))"

text \<open>\<open>deadline\<close> is the end of the cooldown of an open breaker, \<open>stamp\<close> the clock reading it
  counts from. The laws are about a step taken at a time not before the stamp.\<close>

locale breaker =
  fixes admit :: "'s \<Rightarrow> 't \<Rightarrow> bool \<times> 's"
    and succeed :: "'s \<Rightarrow> 't \<Rightarrow> 's"
    and failed :: "'s \<Rightarrow> 't \<Rightarrow> 's"
    and clock :: "'t \<Rightarrow> nat"
    and deadline :: "'s \<Rightarrow> nat option"
    and stamp :: "'s \<Rightarrow> nat"
  assumes admit_open: "deadline s = Some d \<Longrightarrow> stamp s \<le> clock t \<Longrightarrow> clock t < d \<Longrightarrow>
      \<not> fst (admit s t) \<and> deadline (snd (admit s t)) = Some d \<and> stamp (snd (admit s t)) = stamp s"
    and succeed_open: "deadline s = Some d \<Longrightarrow> deadline (succeed s t) = Some d \<and> stamp (succeed s t) = stamp s"
    and failed_open: "deadline s = Some d \<Longrightarrow> stamp s \<le> clock t \<Longrightarrow>
      (\<exists>d'. deadline (failed s t) = Some d' \<and> d \<le> d') \<and> stamp (failed s t) \<le> clock t"
    and admit_cooled: "deadline s = Some d \<Longrightarrow> d \<le> clock t \<Longrightarrow>
      fst (admit s t) \<and> deadline (snd (admit s t)) = None"
begin

abbreviation run where "run \<equiv> breaker_run admit succeed failed"
abbreviation step where "step \<equiv> breaker_step admit succeed failed"

lemma step_open:
  assumes "deadline s = Some d" "stamp s \<le> clock (op_time x)" "clock (op_time x) < d"
  shows "True \<notin> set (fst (step s x))"
    and "\<exists>d'. deadline (snd (step s x)) = Some d' \<and> d \<le> d'"
    and "stamp (snd (step s x)) \<le> clock (op_time x)"
  using assms admit_open[OF assms(1)] succeed_open[OF assms(1)] failed_open[OF assms(1)]
  by (cases x; force simp: split_beta)+

text \<open>However the callers interleave, none is let through before the deadline.\<close>

lemma refuses_until_deadline:
  assumes "deadline s = Some d" "stamp s \<le> t\<^sub>0"
    and "sorted (t\<^sub>0 # map (clock \<circ> op_time) xs)" "list_all (\<lambda>x. clock (op_time x) < d) xs"
  shows "True \<notin> set (fst (run s xs)) \<and> (\<exists>d'. deadline (snd (run s xs)) = Some d' \<and> d \<le> d')"
  using assms
proof (induction xs arbitrary: s d t\<^sub>0)
  case (Cons x xs)
  then have x: "stamp s \<le> clock (op_time x)" "clock (op_time x) < d" by auto
  note first = step_open[OF Cons.prems(1) x]
  from first(2) obtain d' where d': "deadline (snd (step s x)) = Some d'" "d \<le> d'" by blast
  have "True \<notin> set (fst (run (snd (step s x)) xs)) \<and>
      (\<exists>d''. deadline (snd (run (snd (step s x)) xs)) = Some d'' \<and> d' \<le> d'')"
    using Cons.prems d' first(3) by (intro Cons.IH[where t\<^sub>0 = "clock (op_time x)"]) (auto simp: list_all_iff)
  with first(1) d'(2) show ?case by (auto simp: split_beta)
qed simp

lemma admits_after_deadline:
  assumes "deadline s = Some d" "d \<le> clock t"
  shows "hd (fst (run s (Admit t # xs)))"
  using admit_cooled[OF assms] by (simp add: split_beta)

end


section \<open>Both breakers keep the contract\<close>

named_theorems breaker_defs \<open>definitions of the breakers' operations\<close>

lemmas [breaker_defs] =
  is_open_def is_open_loaded_def peek_open_def on_success_def on_failure_def agent_breaker_new_def
  STATE_OPEN_def STATE_CLOSED_def STATE_HALF_OPEN_def
  allow_request_def record_success_def record_failure_def compute_effective_state_def
  transition_to_def force_state_def breaker_reset_def reset_timeout_ns_def output_breaker_new_def

definition agent_admit :: "agent_breaker \<Rightarrow> u64 \<Rightarrow> bool \<times> agent_breaker" where
  "agent_admit b now = (let (opened, b') = is_open b now in (\<not> opened, b'))"

definition agent_deadline :: "agent_breaker \<Rightarrow> nat option" where
  "agent_deadline b = (if peek_open b then Some (unat (ab_last_transition_ms b) + 30000) else None)"

lemma cooled_down_iff:
  "(30000 :: u64) \<le> saturating_sub now since \<longleftrightarrow> unat since + 30000 \<le> unat now"
  by (auto simp: word_le_nat_alt unat_saturating_sub)

interpretation agent: breaker agent_admit on_success on_failure unat agent_deadline
    "\<lambda>b. unat (ab_last_transition_ms b)"
  by unfold_locales
    (auto simp: agent_admit_def agent_deadline_def breaker_defs cooled_down_iff Let_def split: if_splits)

definition output_deadline :: "output_breaker \<Rightarrow> nat option" where
  "output_deadline b =
     (if ob_state b = Open then map_option (\<lambda>t. t + reset_timeout_ns b) (ob_last_failure_time b) else None)"

definition output_stamp :: "output_breaker \<Rightarrow> nat" where
  "output_stamp b = (case ob_last_failure_time b of None \<Rightarrow> 0 | Some t \<Rightarrow> t)"

interpretation outp: breaker allow_request "\<lambda>b _. record_success b" record_failure id output_deadline
    output_stamp
  by unfold_locales
    (auto simp: output_deadline_def output_stamp_def breaker_defs Let_def
       split: if_splits option.splits circuit_state.splits)


section \<open>Lemmas on the output breaker\<close>

text \<open>The states reached from a new breaker by the calls of its clients; \<open>force_state\<close> is kept
  out, being manual intervention.\<close>

inductive output_reachable :: "breaker_config \<Rightarrow> output_breaker \<Rightarrow> bool" for cfg where
  start: "output_reachable cfg (output_breaker_new cfg)"
| allow: "output_reachable cfg b \<Longrightarrow> output_reachable cfg (snd (allow_request b now))"
| success: "output_reachable cfg b \<Longrightarrow> output_reachable cfg (record_success b)"
| failure: "output_reachable cfg b \<Longrightarrow> output_reachable cfg (record_failure b now)"
| reset: "output_reachable cfg b \<Longrightarrow> output_reachable cfg (breaker_reset b)"

text \<open>What the fields of a breaker mean: a closed breaker is below its failure threshold, one that
  probes is below its success threshold, and an open one knows when it failed.\<close>

definition output_breaker_wf :: "breaker_config \<Rightarrow> output_breaker \<Rightarrow> bool" where
  "output_breaker_wf cfg b \<longleftrightarrow> ob_config b = cfg \<and>
     (case ob_state b of
        Closed \<Rightarrow> ob_consecutive_failures b < failure_threshold cfg
      | HalfOpen \<Rightarrow> ob_consecutive_successes b < success_threshold cfg
      | Open \<Rightarrow> ob_last_failure_time b \<noteq> None)"

lemma output_breaker_wf_new [inv_intro]:
  "0 < failure_threshold cfg \<Longrightarrow> output_breaker_wf cfg (output_breaker_new cfg)"
  by (simp add: output_breaker_wf_def output_breaker_new_def)

lemma output_breaker_wf_allow [inv_intro]:
  "0 < success_threshold cfg \<Longrightarrow> output_breaker_wf cfg b \<Longrightarrow> output_breaker_wf cfg (snd (allow_request b now))"
  by (auto simp: output_breaker_wf_def breaker_defs Let_def
      split: circuit_state.splits option.splits if_splits)

lemma output_breaker_wf_success [inv_intro]:
  "0 < failure_threshold cfg \<Longrightarrow> output_breaker_wf cfg b \<Longrightarrow> output_breaker_wf cfg (record_success b)"
  by (auto simp: output_breaker_wf_def breaker_defs Let_def split: circuit_state.splits)

lemma output_breaker_wf_failure [inv_intro]:
  "output_breaker_wf cfg b \<Longrightarrow> output_breaker_wf cfg (record_failure b now)"
  by (auto simp: output_breaker_wf_def breaker_defs Let_def split: circuit_state.splits)

lemma output_breaker_wf_reset [inv_intro]:
  "0 < failure_threshold cfg \<Longrightarrow> output_breaker_wf cfg b \<Longrightarrow> output_breaker_wf cfg (breaker_reset b)"
  by (simp add: output_breaker_wf_def breaker_reset_def)

text \<open>A run of failures on a closed breaker: the counter counts them and the state turns at the
  threshold.\<close>

definition fail_run :: "output_breaker \<Rightarrow> nat list \<Rightarrow> output_breaker" where
  "fail_run b ts = foldl record_failure b ts"

lemma fail_run_snoc: "fail_run b (ts @ [t]) = record_failure (fail_run b ts) t"
  by (simp add: fail_run_def)

lemma record_failure_config [simp]: "ob_config (record_failure b t) = ob_config b"
  by (simp add: breaker_defs Let_def split: circuit_state.splits)

lemma record_failure_counts [simp]:
  "ob_consecutive_failures (record_failure b t) = ob_consecutive_failures b + 1"
  by (simp add: breaker_defs Let_def split: circuit_state.splits)

lemma fail_run_fields:
  "ob_config (fail_run b ts) = ob_config b"
  "ob_consecutive_failures (fail_run b ts) = ob_consecutive_failures b + word_of_nat (length ts)"
  by (induction ts rule: rev_induct) (simp_all add: fail_run_def)

lemma record_failure_state:
  "ob_state (record_failure b t) =
     (if ob_state b = Closed \<and> ob_consecutive_failures b + 1 < failure_threshold (ob_config b)
      then Closed else Open)"
  by (cases "ob_state b") (auto simp: breaker_defs Let_def)

text \<open>A run of successes on a breaker that probes.\<close>

definition success_run :: "output_breaker \<Rightarrow> nat \<Rightarrow> output_breaker" where
  "success_run b n = (record_success ^^ n) b"

lemma record_success_half_open:
  assumes "ob_state b = HalfOpen" "ob_consecutive_successes b + 1 < success_threshold (ob_config b)"
  shows "ob_state (record_success b) = HalfOpen"
    and "ob_consecutive_successes (record_success b) = ob_consecutive_successes b + 1"
  using assms by (auto simp: breaker_defs Let_def)

lemma record_success_config [simp]: "ob_config (record_success b) = ob_config b"
  by (simp add: breaker_defs Let_def split: circuit_state.splits)


section \<open>Lemmas on the agent breaker\<close>

inductive agent_reachable :: "agent_breaker \<Rightarrow> bool" where
  start: "agent_reachable (agent_breaker_new now)"
| admit: "agent_reachable b \<Longrightarrow> agent_reachable (snd (is_open b now))"
| success: "agent_reachable b \<Longrightarrow> agent_reachable (on_success b now)"
| failure: "agent_reachable b \<Longrightarrow> agent_reachable (on_failure b now)"

lemma agent_reachable_timestamps: "agent_reachable b \<Longrightarrow> length (ab_failure_timestamps b) \<le> 3"
  by (induction rule: agent_reachable.induct) (auto simp: breaker_defs Let_def)

text \<open>Callers that all loaded the state \<open>Open\<close> before any of them finished: their answers.\<close>

primrec is_open_race :: "u64 list \<Rightarrow> agent_breaker \<Rightarrow> bool list" where
  "is_open_race [] b = []"
| "is_open_race (now # nows) b =
     (let (opened, b') = is_open_loaded STATE_OPEN now b in opened # is_open_race nows b')"

lemma is_open_race_lost: "ab_state b \<noteq> STATE_OPEN \<Longrightarrow> False \<notin> set (is_open_race nows b)"
  by (induction nows) (auto simp: is_open_loaded_def Let_def)


section \<open>Properties\<close>



text \<open>Consecutive failures open a closed output breaker exactly when their number reaches the
  failure threshold, for any number of failures the 32-bit counter can hold.\<close>

theorem output_opens_at_threshold:
  assumes "ob_state b = Closed" "ob_consecutive_failures b = 0"
    and "0 < failure_threshold (ob_config b)" "length ts < 2 ^ 32"
  shows "ob_state (fail_run b ts) =
     (if length ts < unat (failure_threshold (ob_config b)) then Closed else Open)"
  using assms(4)
proof (induction ts rule: rev_induct)
  case Nil
  with assms show ?case by (simp add: fail_run_def word_less_nat_alt)
next
  case (snoc t ts)
  have n: "unat (word_of_nat (length ts) + 1 :: u32) = length ts + 1"
    using snoc.prems by (simp add: unat_count_Suc)
  with snoc assms(2) show ?case
    by (auto simp: fail_run_snoc record_failure_state fail_run_fields word_less_nat_alt)
qed

theorem output_opens_at_threshold_witness:
  "ob_state (fail_run (output_breaker_new config_default) [1, 2, 3, 4, 5]) = Open"
  by (subst output_opens_at_threshold) (simp_all add: output_breaker_new_def config_default_def)

text \<open>Once an output breaker is open, no caller is let through before the reset timeout since the
  last failure has passed, however requests, late successes and late failures interleave.\<close>

theorem output_breaker_fails_fast:
  assumes "ob_state b = Open" "ob_last_failure_time b = Some t\<^sub>0"
    and "sorted (t\<^sub>0 # map op_time xs)"
    and "list_all (\<lambda>x. op_time x < t\<^sub>0 + reset_timeout_ns b) xs"
  shows "True \<notin> set (fst (breaker_run allow_request (\<lambda>b _. record_success b) record_failure b xs))"
  using outp.refuses_until_deadline[of b "t\<^sub>0 + reset_timeout_ns b" t\<^sub>0 xs] assms
  by (simp add: output_deadline_def output_stamp_def)

theorem output_breaker_fails_fast_witness:
  "let b = record_failure (output_breaker_new (config_new 1 10)) 5 in
   True \<notin> set (fst (breaker_run allow_request (\<lambda>b _. record_success b) record_failure b
     [Admit 5, Succeed 6, Fail 7, Admit 10000004]))"
  unfolding Let_def
  by (rule output_breaker_fails_fast[where t\<^sub>0 = 5])
    (simp_all add: config_new_def config_default_def breaker_defs)

text \<open>C38: an output breaker that its clients drove open always recovers: from some time on the next
  request is let through and the breaker probes.\<close>

theorem output_breaker_recovers:
  assumes "0 < failure_threshold cfg" "0 < success_threshold cfg" "output_reachable cfg b"
    and "ob_state b = Open"
  shows "\<exists>d. \<forall>now. d \<le> now \<longrightarrow>
     fst (allow_request b now) \<and> ob_state (snd (allow_request b now)) = HalfOpen"
proof -
  have "output_breaker_wf cfg b"
    using assms(3,1,2) by (induction rule: output_reachable.induct) (simp_all add: inv_intro)
  with assms(4) obtain t where "ob_last_failure_time b = Some t"
    by (auto simp: output_breaker_wf_def)
  with assms(4) show ?thesis
    by (intro exI[of _ "t + reset_timeout_ns b"]) (auto simp: breaker_defs Let_def)
qed

theorem output_breaker_recovers_witness:
  "let b = record_failure (output_breaker_new (config_new 1 10)) 3 in
   \<exists>d. \<forall>now. d \<le> now \<longrightarrow> fst (allow_request b now) \<and> ob_state (snd (allow_request b now)) = HalfOpen"
  unfolding Let_def
  by (rule output_breaker_recovers[of "config_new 1 10"], simp_all only: output_reachable.intros)
    (simp_all add: config_new_def config_default_def breaker_defs)

text \<open>A breaker that probes closes exactly with the success that reaches the success threshold.\<close>

theorem output_half_open_closes:
  assumes "ob_state b = HalfOpen" "ob_consecutive_successes b = 0"
    and "0 < success_threshold (ob_config b)"
  shows "ob_state (success_run b n) =
     (if n < unat (success_threshold (ob_config b)) then HalfOpen else Closed)"
proof -
  have "(n < unat (success_threshold (ob_config b)) \<longrightarrow> ob_state (success_run b n) = HalfOpen \<and>
           ob_consecutive_successes (success_run b n) = word_of_nat n) \<and>
        (\<not> n < unat (success_threshold (ob_config b)) \<longrightarrow> ob_state (success_run b n) = Closed) \<and>
        ob_config (success_run b n) = ob_config b"
  proof (induction n)
    case 0
    with assms show ?case by (simp add: success_run_def word_less_nat_alt)
  next
    case (Suc n)
    let ?b = "success_run b n"
    have step: "success_run b (Suc n) = record_success ?b" by (simp add: success_run_def)
    show ?case
    proof (cases "n < unat (success_threshold (ob_config b))")
      case True
      moreover have "unat (success_threshold (ob_config b)) < 2 ^ LENGTH(32)"
        by (rule unsigned_less)
      ultimately have "Suc n < 2 ^ 32" by simp
      then have "unat (word_of_nat n + 1 :: u32) = Suc n"
        by (simp add: unat_count_Suc)
      with True Suc show ?thesis
        by (auto simp: step breaker_defs Let_def word_less_nat_alt word_le_nat_alt)
    next
      case False
      with Suc show ?thesis by (simp add: step breaker_defs Let_def)
    qed
  qed
  then show ?thesis by simp
qed

theorem output_half_open_closes_witness:
  "ob_state (success_run (force_state (output_breaker_new config_default) HalfOpen) 2) = Closed"
  by (subst output_half_open_closes) (simp_all add: breaker_defs config_default_def)

text \<open>The agent breaker opens on a failure exactly when the third failure back, this one counted,
  is at most sixty seconds old.\<close>

theorem agent_opens_on_third_failure:
  assumes "agent_reachable b" "\<not> peek_open b"
  shows "peek_open (on_failure b now) \<longleftrightarrow>
     2 \<le> length (ab_failure_timestamps b) \<and>
     unat now \<le> unat (ab_failure_timestamps b ! (length (ab_failure_timestamps b) - 2)) + 60000"
proof -
  have "length (ab_failure_timestamps b) \<in> {0, 1, 2, 3}"
    using agent_reachable_timestamps[OF assms(1)] by (simp add: le_Suc_eq numeral_eq_Suc)
  then consider "ab_failure_timestamps b = []" | x where "ab_failure_timestamps b = [x]"
    | x y where "ab_failure_timestamps b = [x, y]" | x y z where "ab_failure_timestamps b = [x, y, z]"
    by (auto simp: length_Suc_conv numeral_2_eq_2 numeral_3_eq_3)
  then show ?thesis
    using assms(2) by cases (auto simp: breaker_defs Let_def word_le_nat_alt unat_saturating_sub)
qed

theorem agent_opens_on_third_failure_witness:
  "let b = on_failure (on_failure (agent_breaker_new 0) 1000) 2000 in
   peek_open (on_failure b 61000) \<and> \<not> peek_open (on_failure b 61001)"
proof -
  let ?b = "on_failure (on_failure (agent_breaker_new 0) 1000) 2000"
  have r: "agent_reachable ?b" by (simp add: agent_reachable.intros)
  have b: "\<not> peek_open ?b" "ab_failure_timestamps ?b = [1000, 2000]" by (simp_all add: breaker_defs)
  show ?thesis
    using agent_opens_on_third_failure[OF r b(1)] by (simp add: b Let_def)
qed

text \<open>Once the agent breaker is open, no call is let through for thirty seconds, however the
  callers interleave.\<close>

theorem agent_breaker_fails_fast:
  assumes "peek_open b" "unat (ab_last_transition_ms b) = t\<^sub>0"
    and "sorted (t\<^sub>0 # map (unat \<circ> op_time) xs)"
    and "list_all (\<lambda>x. unat (op_time x) < t\<^sub>0 + 30000) xs"
  shows "True \<notin> set (fst (breaker_run agent_admit on_success on_failure b xs))"
  using agent.refuses_until_deadline[of b "t\<^sub>0 + 30000" t\<^sub>0 xs] assms
  by (simp add: agent_deadline_def)

theorem agent_breaker_fails_fast_witness:
  "let b = on_failure (on_failure (on_failure (agent_breaker_new 0) 1) 2) 3 in
   True \<notin> set (fst (breaker_run agent_admit on_success on_failure b
     [Admit 3, Succeed 10, Fail 20, Fail 20, Fail 20, Admit 30002]))"
  unfolding Let_def
  by (rule agent_breaker_fails_fast[where t\<^sub>0 = 3]) (simp_all add: breaker_defs saturating_sub_def)

text \<open>Of all the callers that saw the agent breaker open before any of them acted on it, at most
  one gets through.\<close>

theorem is_open_race_one_winner:
  "length (filter Not (is_open_race nows b)) \<le> 1"
proof (induction nows arbitrary: b)
  case (Cons now nows)
  show ?case
  proof (cases "fst (is_open_loaded STATE_OPEN now b)")
    case True
    with Cons show ?thesis by (simp add: split_beta)
  next
    case False
    then have "ab_state (snd (is_open_loaded STATE_OPEN now b)) \<noteq> STATE_OPEN"
      by (auto simp: breaker_defs Let_def split: if_splits)
    from is_open_race_lost[OF this, of nows]
    have "filter Not (is_open_race nows (snd (is_open_loaded STATE_OPEN now b))) = []"
      by (subst filter_empty_conv) metis
    then show ?thesis by (simp add: split_beta)
  qed
qed simp

text \<open>A probe that fails does not reopen the agent breaker: after three failures and the cooldown,
  a call is let through, fails, and every later call is still let through.\<close>

theorem agent_failed_probe_stays_half_open:
  fixes now :: u64
  defines "tripped \<equiv> on_failure (on_failure (on_failure (agent_breaker_new now) now) now) now"
  assumes "unat now + 30000 \<le> unat probe"
  shows "let (admitted, b) = agent_admit tripped probe; b' = on_failure b failed in
     admitted \<and> ab_state b' = STATE_HALF_OPEN \<and> fst (agent_admit b' later)"
  using assms(2) by (simp add: tripped_def agent_admit_def breaker_defs cooled_down_iff Let_def)

theorem agent_failed_probe_stays_half_open_witness:
  "let tripped = on_failure (on_failure (on_failure (agent_breaker_new 5) 5) 5) 5;
       (admitted, b) = agent_admit tripped 40000; b' = on_failure b 70000 in
     admitted \<and> ab_state b' = STATE_HALF_OPEN \<and> fst (agent_admit b' 70001)"
  using agent_failed_probe_stays_half_open[of 5 40000 70000 70001] by simp

end
