(* ===== verification/Dap_Logpoints.thy ===== *)
theory Dap_Logpoints
  imports Core_Event "HOL-Library.AList"
begin

text \<open>
  The debug adapter (\<open>detrix-dap/src/base\<close>): how a metric becomes a logpoint or a breakpoint of
  the debugger, how the adapter tracks the metrics it has set, and how the text a logpoint prints is
  read back. \<open>setBreakpoints\<close> of the Debug Adapter Protocol replaces all breakpoints of a source
  file, so the model keeps, beside the adapter's own map of active metrics, what the debugger has
  installed per file: an accepted request replaces it, a refused one leaves it alone, and after a lost
  answer either may be the case. The adapter's \<open>HashMap\<close> is an association list with distinct
  keys; its order stands for the unspecified iteration order and no claim depends on it.
\<close>


section \<open>Logpoints\<close>

record source_breakpoint =
  sb_line :: u32
  sb_column :: "u32 option"
  sb_condition :: "string option"
  sb_hit_condition :: "string option"
  sb_log_message :: "string option"

definition at_line :: "u32 \<Rightarrow> source_breakpoint" where
  "at_line line = \<lparr>sb_line = line, sb_column = None, sb_condition = None, sb_hit_condition = None,
     sb_log_message = None\<rparr>"

definition logpoint :: "u32 \<Rightarrow> string \<Rightarrow> source_breakpoint" where
  "logpoint line message = \<lparr>sb_line = line, sb_column = None, sb_condition = None,
     sb_hit_condition = None, sb_log_message = Some message\<rparr>"

definition DETRICS_PREFIX :: string where
  "DETRICS_PREFIX = ''DETRICS:''"

text \<open>The default of the \<open>OutputParser\<close> trait, which Go and Rust use.\<close>

definition build_logpoint_message :: "metric \<Rightarrow> string" where
  "build_logpoint_message m =
     (case m_expressions m of
        [e] \<Rightarrow> DETRICS_PREFIX @ m_name m @ ''={'' @ e @ ''}''
      | es \<Rightarrow> DETRICS_PREFIX @ m_name m @ ''='' @
               join_str [MULTI_EXPR_DELIMITER] (map (\<lambda>e. ''{'' @ e @ ''}'') es))"

definition is_go_function_call :: "metric \<Rightarrow> bool" where
  "is_go_function_call m \<longleftrightarrow>
     m_language m = Go \<and> list_ex expression_contains_function_call (m_expressions m)"

definition needs_introspection :: "metric \<Rightarrow> bool" where
  "needs_introspection m \<longleftrightarrow> m_capture_stack_trace m \<or> m_capture_memory_snapshot m"

definition build_source_breakpoint :: "metric \<Rightarrow> bool \<Rightarrow> string \<Rightarrow> source_breakpoint" where
  "build_source_breakpoint m supports_logpoint_introspection message =
     (if (needs_introspection m \<and> \<not> supports_logpoint_introspection) \<or> is_go_function_call m
      then at_line (loc_line (m_location m))
      else logpoint (loc_line (m_location m)) message)"


section \<open>Setting and removing metrics\<close>

record set_metric_result =
  sr_verified :: bool
  sr_line :: u32
  sr_message :: "string option"

record remove_metric_result =
  rr_confirmed :: bool
  rr_message :: "string option"

text \<open>A breakpoint of the response body; a missing or ill-typed JSON field is \<open>None\<close>.\<close>

record reply_breakpoint =
  rb_verified :: "bool option"
  rb_line :: "u64 option"
  rb_message :: "string option"

text \<open>The outcome of \<open>broker\<close> and \<open>send_request\<close>: a response, or an error with the debugger
  having executed the request or not.\<close>

datatype dap_reply =
    Reply (reply_success: bool) (reply_message: "string option")
      (reply_body: "reply_breakpoint list option")
  | ReplyLost (reply_applied: bool) (reply_error: string)

record dap_adapter =
  da_active :: "(string \<times> metric) list"
  da_installed :: "string \<Rightarrow> source_breakpoint list"

text \<open>The two constants of a language adapter.\<close>

record adapter_kind =
  ak_message :: "metric \<Rightarrow> string"
  ak_logpoint_introspection :: bool

definition breakpoint_of :: "adapter_kind \<Rightarrow> metric \<Rightarrow> source_breakpoint" where
  "breakpoint_of k m = build_source_breakpoint m (ak_logpoint_introspection k) (ak_message k m)"

definition file_breakpoints ::
  "adapter_kind \<Rightarrow> (string \<times> metric) list \<Rightarrow> string \<Rightarrow> source_breakpoint list" where
  "file_breakpoints k active path =
     map (breakpoint_of k) (filter (\<lambda>m. loc_file (m_location m) = path) (map snd active))"

definition parse_breakpoint_response ::
  "reply_breakpoint list option \<Rightarrow> u32 \<Rightarrow> bool \<times> u32 \<times> string option" where
  "parse_breakpoint_response body default_line =
     (case body of
        Some (bp # _) \<Rightarrow>
          (rb_verified bp = Some True,
           (case rb_line bp of Some l \<Rightarrow> ucast l | None \<Rightarrow> default_line),
           rb_message bp)
      | _ \<Rightarrow> (False, default_line, None))"

text \<open>What the debugger holds for a file after a request with the given breakpoints.\<close>

definition installed_after ::
  "dap_reply \<Rightarrow> string \<Rightarrow> source_breakpoint list \<Rightarrow> (string \<Rightarrow> source_breakpoint list)
     \<Rightarrow> (string \<Rightarrow> source_breakpoint list)" where
  "installed_after reply path bps installed =
     (if (case reply of Reply success _ _ \<Rightarrow> success | ReplyLost applied _ \<Rightarrow> applied)
      then installed(path := bps) else installed)"

definition dap_set_metric ::
  "adapter_kind \<Rightarrow> metric \<Rightarrow> dap_reply \<Rightarrow> dap_adapter \<Rightarrow> set_metric_result result \<times> dap_adapter" where
  "dap_set_metric k m reply a =
     (let path = loc_file (m_location m);
          active = AList.update (m_name m) m (da_active a);
          a = a\<lparr>da_active := active,
                 da_installed := installed_after reply path (file_breakpoints k active path) (da_installed a)\<rparr> in
      case reply of
        ReplyLost _ e \<Rightarrow> (Inl (Adapter e), a)
      | Reply False message _ \<Rightarrow>
          (Inl (Adapter (''Protocol error: Failed to set breakpoint: '' @
             (case message of Some s \<Rightarrow> s | None \<Rightarrow> ''Unknown error''))),
           a\<lparr>da_active := AList.delete (m_name m) (da_active a)\<rparr>)
      | Reply True _ body \<Rightarrow>
          (let (verified, actual_line, message) =
                 parse_breakpoint_response body (loc_line (m_location m)) in
           (Inr \<lparr>sr_verified = verified, sr_line = actual_line, sr_message = message\<rparr>, a)))"

definition dap_remove_metric ::
  "adapter_kind \<Rightarrow> metric \<Rightarrow> dap_reply \<Rightarrow> dap_adapter \<Rightarrow> remove_metric_result result \<times> dap_adapter" where
  "dap_remove_metric k m reply a =
     (let path = loc_file (m_location m);
          active = AList.delete (m_name m) (da_active a);
          a = a\<lparr>da_active := active,
                 da_installed := installed_after reply path (file_breakpoints k active path) (da_installed a)\<rparr> in
      case reply of
        ReplyLost _ e \<Rightarrow> (Inl (Adapter e), a)
      | Reply success message _ \<Rightarrow> (Inr \<lparr>rr_confirmed = success, rr_message = message\<rparr>, a))"


section \<open>Reading logpoint output\<close>

record thread_info =
  ti_thread_id :: "i64 option"
  ti_thread_name :: "string option"
  ti_cleaned_text :: string

definition without_thread :: "string \<Rightarrow> thread_info" where
  "without_thread s = \<lparr>ti_thread_id = None, ti_thread_name = None, ti_cleaned_text = s\<rparr>"

definition with_goroutine :: "i64 \<Rightarrow> string \<Rightarrow> thread_info" where
  "with_goroutine i s = \<lparr>ti_thread_id = Some i, ti_thread_name = Some (''goroutine-'' @ show_i64 i),
     ti_cleaned_text = s\<rparr>"

definition go_extract_thread_info :: "string \<Rightarrow> thread_info" where
  "go_extract_thread_info output =
     (case strip_prefix ''> [Go '' output of
        None \<Rightarrow> without_thread output
      | Some rest \<Rightarrow>
          (case split_once_str '']: '' rest of
             None \<Rightarrow> without_thread output
           | Some (goroutine, message) \<Rightarrow>
               (case parse_i64 goroutine of
                  None \<Rightarrow> without_thread output
                | Some i \<Rightarrow> with_goroutine i message)))"

record logpoint_parse_result =
  lp_metric_name :: string
  lp_value_parts :: "string list"
  lp_thread_info :: thread_info

definition parse_logpoint_core :: "(string \<Rightarrow> thread_info) \<Rightarrow> string \<Rightarrow> logpoint_parse_result option" where
  "parse_logpoint_core extract output =
     (let info = extract (trim output) in
      case strip_prefix DETRICS_PREFIX (ti_cleaned_text info) of
        None \<Rightarrow> None
      | Some rest \<Rightarrow>
          (case split_once CHR ''='' (hd (split_char CHR ''|'' rest)) of
             None \<Rightarrow> None
           | Some (name, vals) \<Rightarrow>
               Some \<lparr>lp_metric_name = name, lp_value_parts = split_char MULTI_EXPR_DELIMITER vals,
                     lp_thread_info = info\<rparr>))"

text \<open>Values are JSON where they parse as such. The JSON library (\<open>serde_json\<close>) and the conversion
  of decimal text to a float are parameters.\<close>

datatype json =
    JNull
  | JBool bool
  | JNumber (as_f64: f64) (number_text: string)
  | JString string
  | JArray "json list"
  | JObject "(string \<times> json) list"

record value_parser =
  vp_from_str :: "string \<Rightarrow> json option"
  vp_to_string :: "json \<Rightarrow> string"
  vp_parse_f64 :: "string \<Rightarrow> f64 option"

definition parse_value :: "value_parser \<Rightarrow> string \<Rightarrow> string \<times> typed_value option" where
  "parse_value vp s =
     (case vp_from_str vp s of
        Some v \<Rightarrow>
          (vp_to_string vp v,
           (case v of
              JNumber n _ \<Rightarrow> Some (Numeric n)
            | JString t \<Rightarrow> Some (Text t)
            | JBool b \<Rightarrow> Some (Boolean b)
            | _ \<Rightarrow> None))
      | None \<Rightarrow>
          (s, (case vp_parse_f64 vp s of Some n \<Rightarrow> Some (Numeric n) | None \<Rightarrow> Some (Text s))))"

definition create_metric_event_from_logpoint ::
  "value_parser \<Rightarrow> i64 \<Rightarrow> logpoint_parse_result \<Rightarrow> (string \<times> metric) list \<Rightarrow> metric_event option" where
  "create_metric_event_from_logpoint vp now r active =
     (case find (\<lambda>m. m_name m = lp_metric_name r) (map snd active) of
        None \<Rightarrow> None
      | Some m \<Rightarrow>
          (case m_id m of
             None \<Rightarrow> None
           | Some i \<Rightarrow>
               Some \<lparr>ev_id = None, ev_metric_id = i, ev_metric_name = m_name m,
                     ev_connection_id = m_connection_id m, ev_timestamp = now,
                     ev_thread_name = ti_thread_name (lp_thread_info r),
                     ev_thread_id = ti_thread_id (lp_thread_info r),
                     ev_values =
                       map (\<lambda>(e, v). let (json, typed) = parse_value vp v in
                              \<lparr>xv_expression = e, xv_value_json = json, xv_typed_value = typed\<rparr>)
                         (zip (m_expressions m) (lp_value_parts r)),
                     ev_is_error = False, ev_error_type = None, ev_error_message = None,
                     ev_request_id = None, ev_session_id = None, ev_stack_trace = None,
                     ev_memory_snapshot = None\<rparr>))"

definition parse_logpoint_output ::
  "value_parser \<Rightarrow> (string \<Rightarrow> thread_info) \<Rightarrow> i64 \<Rightarrow> string \<Rightarrow> (string \<times> metric) list
     \<Rightarrow> metric_event option" where
  "parse_logpoint_output vp extract now output active =
     (case parse_logpoint_core extract (trim output) of
        Some r \<Rightarrow> create_metric_event_from_logpoint vp now r active
      | None \<Rightarrow> None)"

text \<open>\<open>Path::file_name\<close>: the last component, unless it is \<open>..\<close> or there is none.\<close>

definition path_file_name :: "string \<Rightarrow> string option" where
  "path_file_name p =
     (case rev (filter (\<lambda>c. c \<noteq> [] \<and> c \<noteq> ''.'') (split_char CHR ''/'' p)) of
        [] \<Rightarrow> None
      | c # _ \<Rightarrow> if c = ''..'' then None else Some c)"

record output_location =
  ol_path :: "string option"
  ol_line :: "u32 option"

definition find_metric_for_error ::
  "output_location \<Rightarrow> (string \<times> metric) list \<Rightarrow> (u64 \<times> string \<times> string) option" where
  "find_metric_for_error out metrics =
     (let by_location =
            (case (ol_path out, ol_line out) of
               (Some path, Some line) \<Rightarrow>
                 map_of metrics
                   ((case path_file_name path of Some f \<Rightarrow> f | None \<Rightarrow> path) @ ''#'' @ show_nat (unat line))
             | _ \<Rightarrow> None);
          tag = (\<lambda>m. map_option (\<lambda>i. (i, m_name m, m_connection_id m)) (m_id m)) in
      case by_location of
        Some m \<Rightarrow> tag m
      | None \<Rightarrow> (case metrics of [] \<Rightarrow> None | (_, m) # _ \<Rightarrow> tag m))"


section \<open>The adapter keeps the debugger in step\<close>

text \<open>The debugger holds, file by file, the breakpoints of the metrics the adapter tracks.\<close>

definition adapter_synced :: "adapter_kind \<Rightarrow> dap_adapter \<Rightarrow> bool" where
  "adapter_synced k a \<longleftrightarrow>
     (\<forall>path. set (da_installed a path) = set (file_breakpoints k (da_active a) path))"

definition adapter_new :: dap_adapter where
  "adapter_new = \<lparr>da_active = [], da_installed = (\<lambda>_. [])\<rparr>"

definition adapter_wf :: "dap_adapter \<Rightarrow> bool" where
  "adapter_wf a \<longleftrightarrow> distinct (map fst (da_active a)) \<and>
     list_all (\<lambda>(n, m). m_name m = n) (da_active a)"

lemma adapter_wf_new [inv_intro, simp]: "adapter_wf adapter_new"
  by (simp add: adapter_wf_def adapter_new_def)

lemma update_keys_named:
  assumes "list_all (\<lambda>(n, m). m_name m = n) xs"
  shows "list_all (\<lambda>(n, m). m_name m = n) (AList.update (m_name m) m xs)"
  using assms by (induction xs) auto

lemma delete_keys_named:
  "list_all (\<lambda>(n, m). m_name m = n) xs \<Longrightarrow> list_all (\<lambda>(n, m). m_name m = n) (AList.delete n' xs)"
  by (auto simp: list_all_iff AList.delete_eq)

lemmas active_simps = AList.distinct_update AList.distinct_delete update_keys_named delete_keys_named

lemma adapter_wf_set [inv_intro]: "adapter_wf a \<Longrightarrow> adapter_wf (snd (dap_set_metric k m reply a))"
  by (auto simp: adapter_wf_def dap_set_metric_def Let_def active_simps
      split: dap_reply.splits bool.splits prod.splits)

lemma adapter_wf_remove [inv_intro]: "adapter_wf a \<Longrightarrow> adapter_wf (snd (dap_remove_metric k m reply a))"
  by (auto simp: adapter_wf_def dap_remove_metric_def Let_def active_simps split: dap_reply.splits)

text \<open>The breakpoints of a file, as a set over the map of active metrics.\<close>

lemma set_file_breakpoints:
  assumes "distinct (map fst active)"
  shows "set (file_breakpoints k active path) =
    breakpoint_of k ` {m. m \<in> ran (map_of active) \<and> loc_file (m_location m) = path}"
  using ran_distinct[OF assms] by (auto simp: file_breakpoints_def)

text \<open>A metric that enters or leaves the map concerns one file when the entry it replaces is of
  that file.\<close>

definition same_file_entry :: "metric \<Rightarrow> (string \<times> metric) list \<Rightarrow> bool" where
  "same_file_entry m active \<longleftrightarrow>
     (case map_of active (m_name m) of
        None \<Rightarrow> True | Some m' \<Rightarrow> loc_file (m_location m') = loc_file (m_location m))"

lemma file_breakpoints_update_other:
  assumes "distinct (map fst active)" "same_file_entry m active" "path \<noteq> loc_file (m_location m)"
  shows "set (file_breakpoints k (AList.update (m_name m) m active) path) =
         set (file_breakpoints k active path)"
proof -
  have "{x \<in> ran ((map_of active)(m_name m \<mapsto> m)). loc_file (m_location x) = path} =
        {x \<in> ran (map_of active). loc_file (m_location x) = path}"
    using assms(2,3) by (intro ran_upd_irrelevant) (auto simp: same_file_entry_def)
  then show ?thesis
    using assms(1) by (simp add: set_file_breakpoints AList.distinct_update AList.update_conv')
qed

lemma file_breakpoints_delete_other:
  assumes "distinct (map fst active)" "same_file_entry m active" "path \<noteq> loc_file (m_location m)"
  shows "set (file_breakpoints k (AList.delete (m_name m) active) path) =
         set (file_breakpoints k active path)"
proof -
  have "{x \<in> ran ((map_of active)(m_name m := None)). loc_file (m_location x) = path} =
        {x \<in> ran (map_of active). loc_file (m_location x) = path}"
    using assms(2,3) by (intro ran_upd_irrelevant) (auto simp: same_file_entry_def)
  then show ?thesis
    using assms(1) by (simp add: set_file_breakpoints AList.distinct_delete AList.delete_conv')
qed

lemma adapter_synced_set:
  assumes "adapter_wf a" "adapter_synced k a" "same_file_entry m (da_active a)"
  shows "adapter_synced k (snd (dap_set_metric k m (Reply True msg body) a))"
  using assms file_breakpoints_update_other[of "da_active a" m]
  by (auto simp: adapter_synced_def adapter_wf_def dap_set_metric_def installed_after_def Let_def
      split: prod.splits)

lemma adapter_synced_remove:
  assumes "adapter_wf a" "adapter_synced k a" "same_file_entry m (da_active a)"
  shows "adapter_synced k (snd (dap_remove_metric k m (Reply True msg body) a))"
  using assms file_breakpoints_delete_other[of "da_active a" m]
  by (auto simp: adapter_synced_def adapter_wf_def dap_remove_metric_def installed_after_def Let_def)

text \<open>The runs in which the debugger answers every request and each name is used in one file: metrics
  are set and removed, and a request for a metric that is not tracked yet may be refused.\<close>

inductive adapter_reachable :: "adapter_kind \<Rightarrow> (string \<Rightarrow> string) \<Rightarrow> dap_adapter \<Rightarrow> bool"
  for k file_of where
  start: "adapter_reachable k file_of adapter_new"
| set: "adapter_reachable k file_of a \<Longrightarrow> loc_file (m_location m) = file_of (m_name m) \<Longrightarrow>
    adapter_reachable k file_of (snd (dap_set_metric k m (Reply True msg body) a))"
| refused: "adapter_reachable k file_of a \<Longrightarrow> map_of (da_active a) (m_name m) = None \<Longrightarrow>
    adapter_reachable k file_of (snd (dap_set_metric k m (Reply False msg body) a))"
| remove: "adapter_reachable k file_of a \<Longrightarrow> loc_file (m_location m) = file_of (m_name m) \<Longrightarrow>
    adapter_reachable k file_of (snd (dap_remove_metric k m (Reply True msg body) a))"

definition files_named :: "(string \<Rightarrow> string) \<Rightarrow> dap_adapter \<Rightarrow> bool" where
  "files_named file_of a \<longleftrightarrow>
     (\<forall>n m. map_of (da_active a) n = Some m \<longrightarrow> loc_file (m_location m) = file_of n)"

lemma files_named_same_file:
  "files_named file_of a \<Longrightarrow> loc_file (m_location m) = file_of (m_name m) \<Longrightarrow> same_file_entry m (da_active a)"
  by (simp add: files_named_def same_file_entry_def split: option.splits)

lemma active_after:
  "map_of (da_active (snd (dap_set_metric k m (Reply True msg body) a))) =
     (map_of (da_active a))(m_name m \<mapsto> m)"
  "map_of (da_active (snd (dap_set_metric k m (Reply False msg body) a))) =
     (map_of (da_active a))(m_name m := None)"
  "map_of (da_active (snd (dap_remove_metric k m (Reply True msg body) a))) =
     (map_of (da_active a))(m_name m := None)"
  by (auto simp: dap_set_metric_def dap_remove_metric_def Let_def AList.update_conv' AList.delete_conv'
      split: prod.splits)

lemma refused_untracked:
  assumes "map_of (da_active a) (m_name m) = None"
  shows "snd (dap_set_metric k m (Reply False msg body) a) = a"
proof -
  have "AList.delete (m_name m) (AList.update (m_name m) m xs) = xs"
    if "map_of xs (m_name m) = None" for xs
    using that by (induction xs) (auto split: if_splits)
  with assms show ?thesis by (simp add: dap_set_metric_def installed_after_def Let_def)
qed

lemma adapter_reachable_inv:
  "adapter_reachable k file_of a \<Longrightarrow> adapter_wf a \<and> files_named file_of a \<and> adapter_synced k a"
proof (induction rule: adapter_reachable.induct)
  case start
  show ?case by (simp add: files_named_def adapter_new_def adapter_synced_def adapter_wf_def file_breakpoints_def)
next
  case (set a m msg body)
  then show ?case
    by (auto simp: adapter_wf_set adapter_synced_set files_named_same_file)
      (auto simp: files_named_def active_after)
next
  case (refused a m msg body)
  then show ?case by (simp add: refused_untracked)
next
  case (remove a m msg body)
  then show ?case
    by (auto simp: adapter_wf_remove adapter_synced_remove files_named_same_file)
      (auto simp: files_named_def active_after)
qed


section \<open>Lemmas on names and output\<close>

lemma validate_name_chars: "validate_name n = Inr () \<Longrightarrow> n \<noteq> [] \<and> list_all name_char n"
  by (auto simp: validate_name_def split: if_splits)

lemma name_char_special: "\<not> name_char CHR ''#''" "\<not> name_char CHR ''=''" "\<not> name_char CHR ''|''"
  by code_simp+

lemma valid_name_without:
  "validate_name n = Inr () \<Longrightarrow> c \<in> {CHR ''#'', CHR ''='', CHR ''|''} \<Longrightarrow> c \<notin> set n"
  using validate_name_chars[of n] name_char_special by (auto simp: list_all_iff)

declare strip_prefix_append [simp]

lemma go_extract_prefixed:
  assumes "n < 2 ^ 63"
  shows "go_extract_thread_info (''> [Go '' @ show_nat n @ '']: '' @ msg) =
    with_goroutine (of_nat n) msg"
proof -
  have "CHR '']'' \<notin> set (show_nat n)"
    using show_nat_digits[of n] by (auto simp: list_all_iff is_digit_def byte_of_def)
  then have "split_once_str '']: '' (show_nat n @ '']: '' @ msg) = Some (show_nat n, msg)"
    by (intro split_once_str_first) auto
  then show ?thesis
    unfolding go_extract_thread_info_def strip_prefix_append
    by (simp only: option.case prod.case parse_i64_show_nat[OF assms])
qed

lemma join_str_last:
  "vs \<noteq> [] \<Longrightarrow> last vs \<noteq> [] \<Longrightarrow> join_str sep vs \<noteq> [] \<and> last (join_str sep vs) = last (last vs)"
  by (induction sep vs rule: join_str.induct) auto

text \<open>What Delve prints for a logpoint of a metric with the given name and values.\<close>

definition go_logpoint_output :: "nat \<Rightarrow> string \<Rightarrow> string list \<Rightarrow> string" where
  "go_logpoint_output goroutine name vals =
     ''> [Go '' @ show_nat goroutine @ '']: '' @ DETRICS_PREFIX @ name @ ''='' @
     join_str [MULTI_EXPR_DELIMITER] vals"

text \<open>Values the format can carry: no bar, no delimiter, and a visible character at the end.\<close>

definition printable_values :: "string list \<Rightarrow> bool" where
  "printable_values vals \<longleftrightarrow> vals \<noteq> [] \<and>
     list_all (\<lambda>v. CHR ''|'' \<notin> set v \<and> MULTI_EXPR_DELIMITER \<notin> set v) vals \<and>
     last vals \<noteq> [] \<and> plain_start (last (last vals))"

lemma trim_go_logpoint_output:
  assumes "printable_values vals"
  shows "trim (go_logpoint_output n name vals) = go_logpoint_output n name vals"
proof -
  let ?j = "join_str [MULTI_EXPR_DELIMITER] vals"
  have j: "?j \<noteq> []" "plain_start (last ?j)"
    using assms join_str_last[of vals] by (auto simp: printable_values_def)
  define s where "s = tl (''> [Go '' @ show_nat n @ '']: '' @ DETRICS_PREFIX @ name @ ''='' @ butlast ?j)"
  have "go_logpoint_output n name vals = CHR ''>'' # s @ [last ?j]"
    using j(1) by (simp add: go_logpoint_output_def s_def)
  moreover have "plain_start CHR ''>''" by code_simp
  ultimately show ?thesis using trim_plain[OF _ j(2), of "CHR ''>''" s] by simp
qed

lemma parse_go_logpoint_output:
  assumes "validate_name name = Inr ()" "n < 2 ^ 63" "printable_values vals"
  shows "\<exists>info. parse_logpoint_core go_extract_thread_info (go_logpoint_output n name vals) =
      Some \<lparr>lp_metric_name = name, lp_value_parts = vals, lp_thread_info = info\<rparr> \<and>
    ti_thread_id info = Some (of_nat n)"
proof -
  let ?j = "join_str [MULTI_EXPR_DELIMITER] vals"
  let ?info = "with_goroutine (of_nat n) (DETRICS_PREFIX @ name @ ''='' @ ?j)"
  have info: "go_extract_thread_info (go_logpoint_output n name vals) = ?info"
    using go_extract_prefixed[OF assms(2)] by (simp only: go_logpoint_output_def append_assoc)
  have "CHR ''|'' \<notin> set ?j"
    using set_join_str[of "[MULTI_EXPR_DELIMITER]" vals] assms(3)
    by (auto simp: printable_values_def list_all_iff MULTI_EXPR_DELIMITER_def)
  then have bar: "hd (split_char CHR ''|'' (name @ ''='' @ ?j)) = name @ ''='' @ ?j"
    using valid_name_without[OF assms(1), of "CHR ''|''"] by (subst split_char_absent) auto
  have eq: "split_once CHR ''='' (name @ ''='' @ ?j) = Some (name, ?j)"
    using valid_name_without[OF assms(1), of "CHR ''=''"] split_once_first[of "CHR ''=''" name ?j] by simp
  have vals: "split_char MULTI_EXPR_DELIMITER ?j = vals"
    using assms(3) by (intro split_char_join) (auto simp: printable_values_def list_all_iff)
  have clean: "ti_cleaned_text ?info = DETRICS_PREFIX @ (name @ ''='' @ ?j)"
    by (simp add: with_goroutine_def)
  have "parse_logpoint_core go_extract_thread_info (go_logpoint_output n name vals) =
      Some \<lparr>lp_metric_name = name, lp_value_parts = vals, lp_thread_info = ?info\<rparr>"
    by (simp only: parse_logpoint_core_def trim_go_logpoint_output[OF assms(3)] info Let_def clean
        strip_prefix_append option.case bar eq prod.case vals)
  then show ?thesis by (auto simp: with_goroutine_def)
qed

lemma find_named:
  assumes "list_all (\<lambda>(n, m). m_name m = n) xs"
  shows "find (\<lambda>m. m_name m = n) (map snd xs) = map_of xs n"
  using assms by (induction xs) auto

lemma find_active: "adapter_wf a \<Longrightarrow> find (\<lambda>m. m_name m = n) (map snd (da_active a)) = map_of (da_active a) n"
  by (simp add: adapter_wf_def find_named)

lemma event_value_fields:
  fixes vp
  assumes "length vals = length es"
  defines "evs \<equiv> map (\<lambda>(e, v). let (json, typed) = parse_value vp v in
    \<lparr>xv_expression = e, xv_value_json = json, xv_typed_value = typed\<rparr>) (zip es vals)"
  shows "map xv_expression evs = es"
    and "map (\<lambda>v. (xv_value_json v, xv_typed_value v)) evs = map (parse_value vp) vals"
  using assms(1) unfolding evs_def
  by (induction vals es rule: list_induct2) (simp_all add: split_beta)


section \<open>Properties\<close>


lemma sample_metric_name: "m_name (sample_metric\<lparr>m_expressions := es\<rparr>) = ''m''"
  by (simp add: sample_metric_def)

definition sample_kind :: adapter_kind where
  "sample_kind = \<lparr>ak_message = build_logpoint_message, ak_logpoint_introspection = False\<rparr>"




text \<open>When the debugger refuses the change of a tracked metric, the adapter forgets the metric
  while the debugger keeps its old logpoint, whose output then gives no event.\<close>

theorem refused_change_untracks:
  assumes "adapter_wf a"
    and "dap_set_metric k m (Reply False msg body) a = (r, a')"
  shows "da_installed a' = da_installed a \<and> map_of (da_active a') (m_name m) = None \<and>
    (lp_metric_name p = m_name m \<longrightarrow> create_metric_event_from_logpoint vp now p (da_active a') = None)"
proof -
  have wf: "adapter_wf a'" using adapter_wf_set[OF assms(1), of k m "Reply False msg body"] assms(2) by simp
  have none: "map_of (da_active a') (m_name m) = None"
    using active_after(2)[of k m msg body a] assms(2) by simp
  have "find (\<lambda>x. m_name x = m_name m) (map snd (da_active a')) = None"
    by (simp only: find_active[OF wf] none)
  moreover have "da_installed a' = da_installed a"
    using assms(2) by (auto simp: dap_set_metric_def installed_after_def Let_def)
  ultimately show ?thesis using none by (simp add: create_metric_event_from_logpoint_def)
qed

theorem refused_change_untracks_witness:
  "let a = snd (dap_set_metric sample_kind sample_metric (Reply True None None) adapter_new);
       a' = snd (dap_set_metric sample_kind (sample_metric\<lparr>m_expressions := [''y'']\<rparr>) (Reply False None None) a) in
   da_installed a' = da_installed a \<and> map_of (da_active a') ''m'' = None"
proof -
  let ?a = "snd (dap_set_metric sample_kind sample_metric (Reply True None None) adapter_new)"
  let ?m = "sample_metric\<lparr>m_expressions := [''y'']\<rparr>"
  have "adapter_wf ?a" by (intro adapter_wf_set adapter_wf_new)
  from refused_change_untracks[OF this, of sample_kind ?m None None] show ?thesis
    unfolding Let_def by (metis prod.collapse sample_metric_name)
qed

text \<open>What a logpoint of a validly named metric prints under Delve is read back as an event of
  that metric: same goroutine, and each expression with its own value in order.\<close>

theorem go_logpoint_roundtrip:
  assumes "validate_name (m_name m) = Inr ()" "n < 2 ^ 63" "printable_values vals"
    and "adapter_wf a" "map_of (da_active a) (m_name m) = Some m" "m_id m = Some i"
    and "length vals = length (m_expressions m)"
  shows "\<exists>ev. parse_logpoint_output vp go_extract_thread_info now
        (go_logpoint_output n (m_name m) vals) (da_active a) = Some ev \<and>
      ev_metric_id ev = i \<and> ev_thread_id ev = Some (of_nat n) \<and>
      map xv_expression (ev_values ev) = m_expressions m \<and>
      map (\<lambda>v. (xv_value_json v, xv_typed_value v)) (ev_values ev) = map (parse_value vp) vals"
proof -
  obtain info where core: "parse_logpoint_core go_extract_thread_info (go_logpoint_output n (m_name m) vals) =
      Some \<lparr>lp_metric_name = m_name m, lp_value_parts = vals, lp_thread_info = info\<rparr>"
    "ti_thread_id info = Some (of_nat n)"
    using parse_go_logpoint_output[OF assms(1-3)] by blast
  show ?thesis
    using find_active[OF assms(4)] core assms(5,6) event_value_fields[OF assms(7)]
    by (simp add: parse_logpoint_output_def trim_go_logpoint_output[OF assms(3)]
        create_metric_event_from_logpoint_def)
qed

definition sample_parser :: value_parser where
  "sample_parser = \<lparr>vp_from_str = (\<lambda>_. None), vp_to_string = (\<lambda>_. []), vp_parse_f64 = (\<lambda>_. None)\<rparr>"

theorem go_logpoint_roundtrip_witness:
  "let m = sample_metric\<lparr>m_id := Some 4, m_expressions := [''x'', ''y'']\<rparr>;
       a = snd (dap_set_metric sample_kind m (Reply True None None) adapter_new) in
   \<exists>ev. parse_logpoint_output sample_parser go_extract_thread_info 0
        (go_logpoint_output 7 ''m'' [''1'', ''2'']) (da_active a) = Some ev \<and>
      ev_metric_id ev = 4 \<and> ev_thread_id ev = Some 7 \<and>
      map xv_expression (ev_values ev) = [''x'', ''y'']"
proof -
  let ?m = "sample_metric\<lparr>m_id := Some 4, m_expressions := [''x'', ''y'']\<rparr>"
  let ?a = "snd (dap_set_metric sample_kind ?m (Reply True None None) adapter_new)"
  have m: "m_name ?m = ''m''" "m_id ?m = Some 4" "m_expressions ?m = [''x'', ''y'']"
    by (simp_all add: sample_metric_def)
  have n: "validate_name ''m'' = Inr ()" and p: "printable_values [''1'', ''2'']" by code_simp+
  have wf: "adapter_wf ?a" by (intro adapter_wf_set adapter_wf_new)
  have act: "map_of (da_active ?a) ''m'' = Some ?m" using m(1) by (simp add: active_after)
  show ?thesis
    using go_logpoint_roundtrip[of ?m 7 "[''1'', ''2'']" ?a 4 sample_parser 0] n p wf act
    unfolding m Let_def by auto
qed

text \<open>The metrics the adapter tracks are filed by name, so looking one up by the location of an
  error never succeeds: the error is given to the same metric whatever file and line the debugger
  reports.\<close>

theorem error_location_never_matches:
  assumes "list_all (\<lambda>(n, m). validate_name n = Inr ()) metrics"
  shows "find_metric_for_error out metrics =
    find_metric_for_error \<lparr>ol_path = None, ol_line = None\<rparr> metrics"
proof -
  have "map_of metrics (f @ ''#'' @ l) = None" for f l
  proof (rule ccontr)
    assume "map_of metrics (f @ ''#'' @ l) \<noteq> None"
    then have "(f @ ''#'' @ l) \<in> fst ` set metrics" by (simp add: map_of_eq_None_iff)
    with assms have "validate_name (f @ ''#'' @ l) = Inr ()" by (auto simp: list_all_iff)
    then show False using valid_name_without[of "f @ ''#'' @ l" "CHR ''#''"] by simp
  qed
  then show ?thesis
    unfolding find_metric_for_error_def by (simp only: output_location.simps option.case prod.case Let_def
      split: option.splits) simp
qed

theorem error_location_never_matches_witness:
  "find_metric_for_error \<lparr>ol_path = Some ''/src/b.py'', ol_line = Some 9\<rparr>
     [(''m'', sample_metric\<lparr>m_id := Some 4\<rparr>),
      (''n'', sample_metric\<lparr>m_id := Some 5, m_name := ''n'', m_location := \<lparr>loc_file = ''b.py'', loc_line = 9\<rparr>\<rparr>)]
     = Some (4, ''m'', ''c'')"
proof -
  have "validate_name ''m'' = Inr ()" "validate_name ''n'' = Inr ()" by code_simp+
  then show ?thesis
    by (subst error_location_never_matches) (simp_all add: find_metric_for_error_def sample_metric_def)
qed

end
