(* ===== verification/Vfs.thy ===== *)
theory Vfs
  imports Core_Error "HOL-Library.AList"
begin

text \<open>
  The cached file system (\<open>detrix-storage/src/vfs.rs\<close>): source files that clients upload, with
  their hashes, staleness and time to live, and the disk behind them. The \<open>HashMap\<close> of the cache
  is an association list whose order stands for the unspecified iteration order. The disk and the
  hash function are parameters; times are nanoseconds of the monotonic clock. The locale
  \<open>hash_cache\<close> is the part of the interface the validation protocol uses.
\<close>

record source_metadata =
  md_source_kind :: string
  md_commit :: "string option"
  md_differs_from_local :: "bool option"

definition metadata_default :: source_metadata where
  "metadata_default = \<lparr>md_source_kind = [], md_commit = None, md_differs_from_local = None\<rparr>"

record cache_entry =
  ce_content :: string
  ce_hash :: string
  ce_stale :: bool
  ce_stored_at :: nat
  ce_metadata :: "source_metadata option"

type_synonym cache = "((string \<times> string) \<times> cache_entry) list"

record cached_file_system =
  fs_cache :: cache
  fs_hot_reload_ttl :: nat

definition cached_fs_new :: "nat \<Rightarrow> cached_file_system" where
  "cached_fs_new ttl = \<lparr>fs_cache = [], fs_hot_reload_ttl = ttl\<rparr>"

definition ttl_expired :: "cached_file_system \<Rightarrow> nat \<Rightarrow> string \<Rightarrow> (string \<times> string) \<Rightarrow> cache_entry \<Rightarrow> bool" where
  "ttl_expired fs now path key entry \<longleftrightarrow>
     snd key = path \<and> \<not> ce_stale entry \<and> now - ce_stored_at entry > fs_hot_reload_ttl fs"

definition check_ttl_expiry :: "cached_file_system \<Rightarrow> nat \<Rightarrow> string \<Rightarrow> cached_file_system" where
  "check_ttl_expiry fs now path =
     fs\<lparr>fs_cache :=
       map (\<lambda>(key, entry). (key, if ttl_expired fs now path key entry then entry\<lparr>ce_stale := True\<rparr> else entry))
         (fs_cache fs)\<rparr>"

text \<open>What the operating system answers to a read; the texts are those of its errors.\<close>

datatype disk_read = DiskContent string | DiskNotFound | DiskError string

definition vfs_read_to_string ::
  "(string \<Rightarrow> disk_read) \<Rightarrow> nat \<Rightarrow> string \<Rightarrow> cached_file_system \<Rightarrow> string result \<times> cached_file_system" where
  "vfs_read_to_string disk now path fs =
     (let needs_expiry = list_ex (\<lambda>(key, entry). ttl_expired fs now path key entry) (fs_cache fs);
          fs = (if needs_expiry then check_ttl_expiry fs now path else fs) in
      case find (\<lambda>(key, entry). snd key = path) (fs_cache fs) of
        Some (_, entry) \<Rightarrow> (Inr (ce_content entry), fs)
      | None \<Rightarrow>
          ((case disk path of
              DiskContent content \<Rightarrow> Inr content
            | DiskNotFound \<Rightarrow> Inl (FileNotFound (''File not found: '' @ path))
            | DiskError e \<Rightarrow> Inl (Io (''Failed to read '' @ [CHR 0x27] @ path @ [CHR 0x27] @ '': '' @ e))), fs))"

definition vfs_exists :: "(string \<Rightarrow> bool) \<Rightarrow> string \<Rightarrow> cached_file_system \<Rightarrow> bool result" where
  "vfs_exists disk_exists path fs =
     Inr (list_ex (\<lambda>(key, _). snd key = path) (fs_cache fs) \<or> disk_exists path)"

definition store_with_metadata ::
  "(string \<Rightarrow> string) \<Rightarrow> nat \<Rightarrow> string \<Rightarrow> string \<Rightarrow> string \<Rightarrow> source_metadata
     \<Rightarrow> cached_file_system \<Rightarrow> cached_file_system" where
  "store_with_metadata sha256_hex now connection_id path content metadata fs =
     fs\<lparr>fs_cache := AList.update (connection_id, path)
       \<lparr>ce_content = content, ce_hash = sha256_hex content, ce_stale = False, ce_stored_at = now,
        ce_metadata = Some metadata\<rparr> (fs_cache fs)\<rparr>"

definition vfs_store ::
  "(string \<Rightarrow> string) \<Rightarrow> nat \<Rightarrow> string \<Rightarrow> string \<Rightarrow> string \<Rightarrow> cached_file_system \<Rightarrow> cached_file_system" where
  "vfs_store sha256_hex now connection_id path content fs =
     store_with_metadata sha256_hex now connection_id path content metadata_default fs"

definition get_metadata :: "string \<Rightarrow> cached_file_system \<Rightarrow> source_metadata option" where
  "get_metadata path fs =
     (case find (\<lambda>(key, entry). snd key = path) (fs_cache fs) of
        Some (_, entry) \<Rightarrow> ce_metadata entry
      | None \<Rightarrow> None)"

definition cached_hashes :: "string \<Rightarrow> cached_file_system \<Rightarrow> (string \<times> string) list" where
  "cached_hashes connection_id fs =
     map (\<lambda>(key, entry). (snd key, ce_hash entry))
       (filter (\<lambda>(key, _). fst key = connection_id) (fs_cache fs))"

text \<open>One round of the loop of \<open>validate_hashes\<close>; of duplicate reports of a path the last one counts.\<close>

definition validate_key ::
  "nat \<Rightarrow> (string \<times> string) list \<Rightarrow> string \<times> string \<Rightarrow> cache \<times> string list \<Rightarrow> cache \<times> string list" where
  "validate_key now client_hashes key state =
     (let (cache, evicted) = state in
      case (map_of (rev client_hashes) (snd key), map_of cache key) of
        (Some client_hash, Some entry) \<Rightarrow>
          if ce_hash entry = client_hash
          then (AList.update key (entry\<lparr>ce_stale := False, ce_stored_at := now\<rparr>) cache, evicted)
          else (AList.delete key cache, evicted @ [snd key])
      | _ \<Rightarrow> (cache, evicted))"

definition validate_hashes ::
  "nat \<Rightarrow> string \<Rightarrow> (string \<times> string) list \<Rightarrow> cached_file_system \<Rightarrow> string list \<times> cached_file_system" where
  "validate_hashes now connection_id client_hashes fs =
     (let keys = filter (\<lambda>key. fst key = connection_id) (map fst (fs_cache fs));
          (cache, evicted) = fold (validate_key now client_hashes) keys (fs_cache fs, []) in
      (evicted, fs\<lparr>fs_cache := cache\<rparr>))"

definition mark_stale :: "string \<Rightarrow> cached_file_system \<Rightarrow> cached_file_system" where
  "mark_stale connection_id fs =
     fs\<lparr>fs_cache :=
       map (\<lambda>(key, entry). (key, if fst key = connection_id then entry\<lparr>ce_stale := True\<rparr> else entry))
         (fs_cache fs)\<rparr>"

definition clear_connection :: "string \<Rightarrow> cached_file_system \<Rightarrow> cached_file_system" where
  "clear_connection connection_id fs =
     fs\<lparr>fs_cache := filter (\<lambda>(key, _). fst key \<noteq> connection_id) (fs_cache fs)\<rparr>"


section \<open>The interface of the validation protocol\<close>

text \<open>The client's side: report the hashes of its files, then send the evicted ones again.\<close>

definition client_sync ::
  "(string \<Rightarrow> string \<Rightarrow> string \<Rightarrow> 's \<Rightarrow> 's) \<Rightarrow> (string \<Rightarrow> (string \<times> string) list \<Rightarrow> 's \<Rightarrow> string list \<times> 's)
     \<Rightarrow> (string \<Rightarrow> string) \<Rightarrow> string \<Rightarrow> (string \<times> string) list \<Rightarrow> 's \<Rightarrow> 's" where
  "client_sync put validate digest c files s =
     (let (evicted, s') = validate c (map (\<lambda>(p, x). (p, digest x)) files) s in
      fold (\<lambda>(p, x). if p \<in> set evicted then put c p x else id) files s')"

text \<open>\<open>hash_of s c p\<close> is the hash the cache holds for path \<open>p\<close> of connection \<open>c\<close>. Validation keeps the
  matching entries and evicts, and reports, the others the client named.\<close>

locale hash_cache =
  fixes hash_of :: "'s \<Rightarrow> string \<Rightarrow> string \<Rightarrow> string option"
    and put :: "string \<Rightarrow> string \<Rightarrow> string \<Rightarrow> 's \<Rightarrow> 's"
    and validate :: "string \<Rightarrow> (string \<times> string) list \<Rightarrow> 's \<Rightarrow> string list \<times> 's"
    and digest :: "string \<Rightarrow> string"
    and valid :: "'s \<Rightarrow> bool"
  assumes put_hash: "valid s \<Longrightarrow> hash_of (put c p x s) =
      (hash_of s)(c := (hash_of s c)(p \<mapsto> digest x))"
    and put_valid: "valid s \<Longrightarrow> valid (put c p x s)"
    and validate_hash: "valid s \<Longrightarrow> hash_of (snd (validate c hs s)) =
      (hash_of s)(c := (\<lambda>p. case (hash_of s c p, map_of (rev hs) p) of
          (Some h, Some h') \<Rightarrow> if h = h' then Some h else None
        | (old, _) \<Rightarrow> old))"
    and validate_evicts: "valid s \<Longrightarrow> set (fst (validate c hs s)) =
      {p. \<exists>h h'. hash_of s c p = Some h \<and> map_of (rev hs) p = Some h' \<and> h \<noteq> h'}"
    and validate_valid: "valid s \<Longrightarrow> valid (snd (validate c hs s))"
begin

abbreviation sync where "sync \<equiv> client_sync put validate digest"

lemma fold_put_valid:
  "valid s \<Longrightarrow> valid (fold (\<lambda>(p, x). if p \<in> E then put c p x else id) files s)"
  by (induction files arbitrary: s) (auto simp: put_valid)

lemma fold_put_hash:
  assumes "valid s" "distinct (map fst files)"
  shows "hash_of (fold (\<lambda>(p, x). if p \<in> E then put c p x else id) files s) c' p' =
    (if c' = c \<and> p' \<in> E then
       (case map_of files p' of Some x \<Rightarrow> Some (digest x) | None \<Rightarrow> hash_of s c' p')
     else hash_of s c' p')"
  using assms
proof (induction files arbitrary: s)
  case (Cons f files)
  obtain p x where f: "f = (p, x)" by (cases f)
  from Cons.prems have d: "p \<notin> fst ` set files" "distinct (map fst files)" by (auto simp: f)
  then have absent: "map_of files p = None" by (simp add: map_of_eq_None_iff)
  show ?case
    using Cons.IH[OF _ d(2), of "if p \<in> E then put c p x s else s"] Cons.prems(1) absent
    by (auto simp: f put_valid put_hash split: option.splits)
qed simp

lemma map_of_rev_digests:
  assumes "distinct (map fst files)"
  shows "map_of (rev (map (\<lambda>(p, x). (p, digest x)) files)) p = map_option digest (map_of files p)"
proof -
  let ?hs = "map (\<lambda>(p, x). (p, digest x)) files"
  have "distinct (map fst ?hs)" using assms by (simp add: comp_def split_beta)
  then have "map_of (rev ?hs) = map_of ?hs"
    by (subst map_of_inject_set) (simp_all add: rev_map[symmetric])
  then show ?thesis by (simp add: map_of_map comp_def)
qed

text \<open>After a sync no cached file the client has differs from the client's.\<close>

lemma sync_agrees:
  assumes "valid s" "distinct (map fst files)" "map_of files p = Some x"
    and "hash_of (sync c files s) c p = Some h"
  shows "h = digest x"
proof -
  let ?hs = "map (\<lambda>(p, x). (p, digest x)) files"
  let ?v = "validate c ?hs s"
  have lookup: "map_of (rev ?hs) p = Some (digest x)"
    using map_of_rev_digests[OF assms(2)] assms(3) by simp
  have "hash_of (sync c files s) c p =
      (if p \<in> set (fst ?v) then Some (digest x) else hash_of (snd ?v) c p)"
    using fold_put_hash[OF validate_valid[OF assms(1)] assms(2), of "set (fst ?v)" c c ?hs c p] assms(3)
    by (simp add: client_sync_def split_beta)
  with assms(4) lookup show ?thesis
    by (auto simp: validate_hash[OF assms(1)] validate_evicts[OF assms(1)] split: if_splits option.splits)
qed

text \<open>Nor does it lose a file of the client, or touch another connection.\<close>

lemma sync_keeps:
  assumes "valid s" "distinct (map fst files)" "map_of files p = Some x" "hash_of s c p \<noteq> None"
  shows "hash_of (sync c files s) c p = Some (digest x)"
proof -
  let ?hs = "map (\<lambda>(p, x). (p, digest x)) files"
  let ?v = "validate c ?hs s"
  have lookup: "map_of (rev ?hs) p = Some (digest x)"
    using map_of_rev_digests[OF assms(2)] assms(3) by simp
  obtain h where h: "hash_of s c p = Some h" using assms(4) by auto
  have "hash_of (sync c files s) c p =
      (if p \<in> set (fst ?v) then Some (digest x) else hash_of (snd ?v) c p)"
    using fold_put_hash[OF validate_valid[OF assms(1)] assms(2), of "set (fst ?v)" c c ?hs c p] assms(3)
    by (simp add: client_sync_def split_beta)
  with h lookup show ?thesis
    by (auto simp: validate_hash[OF assms(1)] validate_evicts[OF assms(1)])
qed

lemma sync_other:
  assumes "valid s" "distinct (map fst files)" "c' \<noteq> c"
  shows "hash_of (sync c files s) c' = hash_of s c'"
  using fold_put_hash[OF validate_valid[OF assms(1)] assms(2)] assms(3)
  by (auto simp: client_sync_def split_beta validate_hash[OF assms(1)] fun_eq_iff)

end


section \<open>The cache implements the interface\<close>

definition fs_valid :: "cached_file_system \<Rightarrow> bool" where
  "fs_valid fs \<longleftrightarrow> distinct (map fst (fs_cache fs))"

definition fs_hash :: "cached_file_system \<Rightarrow> string \<Rightarrow> string \<Rightarrow> string option" where
  "fs_hash fs c p = map_option ce_hash (map_of (fs_cache fs) (c, p))"

lemma fs_valid_store [inv_intro]: "fs_valid fs \<Longrightarrow> fs_valid (vfs_store sha now c p x fs)"
  by (simp add: fs_valid_def vfs_store_def store_with_metadata_def AList.distinct_update)

lemma map_fst_mapped: "map (fst \<circ> (\<lambda>(key, entry). (key, f key entry))) xs = map fst xs"
  by (induction xs) auto

lemma fs_valid_stale [inv_intro]: "fs_valid fs \<Longrightarrow> fs_valid (mark_stale c fs)"
  "fs_valid fs \<Longrightarrow> fs_valid (check_ttl_expiry fs now p)"
  by (simp_all add: fs_valid_def mark_stale_def check_ttl_expiry_def map_fst_mapped)

lemma fs_valid_clear [inv_intro]: "fs_valid fs \<Longrightarrow> fs_valid (clear_connection c fs)"
  by (simp add: fs_valid_def clear_connection_def distinct_map_filter)

text \<open>What one key's round does to the entry of a key.\<close>

definition validated_entry ::
  "nat \<Rightarrow> (string \<times> string) list \<Rightarrow> string \<times> string \<Rightarrow> cache_entry option \<Rightarrow> cache_entry option" where
  "validated_entry now hs key old =
     (case (map_of (rev hs) (snd key), old) of
        (Some h, Some e) \<Rightarrow> if ce_hash e = h then Some (e\<lparr>ce_stale := False, ce_stored_at := now\<rparr>) else None
      | _ \<Rightarrow> old)"

definition hash_mismatch :: "(string \<times> string) list \<Rightarrow> cache \<Rightarrow> string \<times> string \<Rightarrow> bool" where
  "hash_mismatch hs cache key \<longleftrightarrow>
     (\<exists>h e. map_of (rev hs) (snd key) = Some h \<and> map_of cache key = Some e \<and> ce_hash e \<noteq> h)"

lemma validate_key_cache:
  "map_of (fst (validate_key now hs key st)) =
     (map_of (fst st))(key := validated_entry now hs key (map_of (fst st) key))"
  by (cases st) (auto simp: validate_key_def validated_entry_def AList.update_conv' AList.delete_conv'
      fun_eq_iff split: option.splits)

lemma validate_key_evicted:
  "set (snd (validate_key now hs key st)) =
     set (snd st) \<union> (if hash_mismatch hs (fst st) key then {snd key} else {})"
  by (cases st) (auto simp: validate_key_def hash_mismatch_def split: option.splits)

lemma validate_key_distinct:
  "distinct (map fst (fst st)) \<Longrightarrow> distinct (map fst (fst (validate_key now hs key st)))"
  by (cases st) (auto simp: validate_key_def AList.distinct_update AList.distinct_delete split: option.splits)

lemma fold_validate_key:
  assumes "distinct keys"
  shows "map_of (fst (fold (validate_key now hs) keys st)) key =
      (if key \<in> set keys then validated_entry now hs key (map_of (fst st) key) else map_of (fst st) key)"
    and "set (snd (fold (validate_key now hs) keys st)) =
      set (snd st) \<union> snd ` {key \<in> set keys. hash_mismatch hs (fst st) key}"
  using assms
proof (induction keys arbitrary: st)
  case (Cons k keys)
  case 1
  with Cons.IH(1)[of "validate_key now hs k st"] show ?case by (auto simp: validate_key_cache)
next
  case (Cons k keys)
  case 2
  then have k: "k \<notin> set keys" "distinct keys" by auto
  then have "hash_mismatch hs (fst (validate_key now hs k st)) key = hash_mismatch hs (fst st) key"
    if "key \<in> set keys" for key
    using that by (auto simp: hash_mismatch_def validate_key_cache)
  then have "{key \<in> set keys. hash_mismatch hs (fst (validate_key now hs k st)) key} =
      {key \<in> set keys. hash_mismatch hs (fst st) key}"
    by blast
  with Cons.IH(2)[OF k(2), of "validate_key now hs k st"] show ?case
    by (auto simp: validate_key_evicted split: if_splits)
qed simp_all

lemma fold_validate_key_distinct:
  "distinct (map fst (fst st)) \<Longrightarrow> distinct (map fst (fst (fold (validate_key now hs) keys st)))"
  by (induction keys arbitrary: st) (auto simp: validate_key_distinct)

lemma mismatch_present: "hash_mismatch hs cache key \<Longrightarrow> key \<in> fst ` set cache"
  using map_of_eq_None_iff[of cache key] by (auto simp: hash_mismatch_def)

lemma validate_hashes_fold:
  "fs_cache (snd (validate_hashes now c hs fs)) =
     fst (fold (validate_key now hs) (filter (\<lambda>key. fst key = c) (map fst (fs_cache fs))) (fs_cache fs, []))"
  "fst (validate_hashes now c hs fs) =
     snd (fold (validate_key now hs) (filter (\<lambda>key. fst key = c) (map fst (fs_cache fs))) (fs_cache fs, []))"
  by (simp_all add: validate_hashes_def Let_def split_beta)

lemma validate_hashes_cache:
  assumes "fs_valid fs"
  shows "map_of (fs_cache (snd (validate_hashes now c hs fs))) (c', p) =
      (if c' = c then validated_entry now hs (c, p) (map_of (fs_cache fs) (c, p))
       else map_of (fs_cache fs) (c', p))"
    and "set (fst (validate_hashes now c hs fs)) = {p. hash_mismatch hs (fs_cache fs) (c, p)}"
    and "fs_valid (snd (validate_hashes now c hs fs))"
proof -
  let ?keys = "filter (\<lambda>key. fst key = c) (map fst (fs_cache fs))"
  have d: "distinct ?keys" using assms by (simp add: fs_valid_def)
  have "(c, p) \<in> set ?keys \<or> map_of (fs_cache fs) (c, p) = None"
    by (auto simp: map_of_eq_None_iff)
  moreover have "validated_entry now hs (c, p) None = None"
    by (simp add: validated_entry_def split: option.splits)
  ultimately show "map_of (fs_cache (snd (validate_hashes now c hs fs))) (c', p) =
      (if c' = c then validated_entry now hs (c, p) (map_of (fs_cache fs) (c, p))
       else map_of (fs_cache fs) (c', p))"
    unfolding validate_hashes_fold fold_validate_key(1)[OF d] by auto
  have "x \<in> snd ` {key \<in> set ?keys. hash_mismatch hs (fs_cache fs) key} \<longleftrightarrow>
      hash_mismatch hs (fs_cache fs) (c, x)" for x
  proof
    assume "hash_mismatch hs (fs_cache fs) (c, x)"
    moreover from mismatch_present[OF this] have "(c, x) \<in> set ?keys" by simp
    ultimately show "x \<in> snd ` {key \<in> set ?keys. hash_mismatch hs (fs_cache fs) key}"
      by (intro image_eqI[of x snd "(c, x)"]) simp_all
  qed auto
  then show "set (fst (validate_hashes now c hs fs)) = {p. hash_mismatch hs (fs_cache fs) (c, p)}"
    unfolding validate_hashes_fold fold_validate_key(2)[OF d] by auto
  show "fs_valid (snd (validate_hashes now c hs fs))"
    using fold_validate_key_distinct[of "(fs_cache fs, [])" now hs ?keys] assms
    by (simp only: fs_valid_def validate_hashes_fold fst_conv)
qed

interpretation vfs_cache: hash_cache fs_hash "vfs_store sha now" "validate_hashes now'" sha fs_valid
  for sha now now'
proof unfold_locales
  fix fs c p x assume "fs_valid fs"
  then show "fs_hash (vfs_store sha now c p x fs) = (fs_hash fs)(c := (fs_hash fs c)(p \<mapsto> sha x))"
    by (auto simp: fs_hash_def vfs_store_def store_with_metadata_def AList.update_conv' fun_eq_iff)
next
  fix fs c hs assume "fs_valid fs"
  then show "fs_hash (snd (validate_hashes now' c hs fs)) =
      (fs_hash fs)(c := (\<lambda>p. case (fs_hash fs c p, map_of (rev hs) p) of
          (Some h, Some h') \<Rightarrow> if h = h' then Some h else None
        | (old, _) \<Rightarrow> old))"
    by (auto simp: fs_hash_def validate_hashes_cache validated_entry_def fun_eq_iff split: option.splits)
next
  fix fs c hs assume "fs_valid fs"
  then show "set (fst (validate_hashes now' c hs fs)) =
      {p. \<exists>h h'. fs_hash fs c p = Some h \<and> map_of (rev hs) p = Some h' \<and> h \<noteq> h'}"
    by (auto simp: fs_hash_def validate_hashes_cache hash_mismatch_def)
qed (simp_all add: fs_valid_store validate_hashes_cache)

text \<open>A read returns cached content of the path, whoever stored it; expiry changes no content.\<close>

lemma find_path_expiry:
  "map_option (\<lambda>(_, e). ce_content e)
      (find (\<lambda>(key, entry). snd key = p) (fs_cache (check_ttl_expiry fs now p'))) =
   map_option (\<lambda>(_, e). ce_content e) (find (\<lambda>(key, entry). snd key = p) (fs_cache fs))"
proof -
  have "map_option (\<lambda>(_, e). ce_content e) (find (\<lambda>(key, entry). snd key = p)
      (map (\<lambda>(key, entry). (key, if ttl_expired fs now p' key entry then entry\<lparr>ce_stale := True\<rparr> else entry)) xs)) =
    map_option (\<lambda>(_, e). ce_content e) (find (\<lambda>(key, entry). snd key = p) xs)" for xs
    by (induction xs) auto
  then show ?thesis by (simp add: check_ttl_expiry_def)
qed

lemma read_cached:
  assumes "map_option (\<lambda>(_, e). ce_content e) (find (\<lambda>(key, entry). snd key = p) (fs_cache fs)) = Some x"
  shows "fst (vfs_read_to_string disk now p fs) = Inr x"
  using assms find_path_expiry[of p fs now p]
  by (auto simp: vfs_read_to_string_def Let_def split: option.splits)

lemma find_unique_key:
  assumes "map_of xs (c, p) = Some e" "\<And>c'. (c', p) \<in> fst ` set xs \<Longrightarrow> c' = c"
  shows "\<exists>key. find (\<lambda>(key, entry). snd key = p) xs = Some (key, e)"
  using assms
proof (induction xs)
  case (Cons kv xs)
  obtain c' p' e' where kv: "kv = ((c', p'), e')" by (cases kv) auto
  show ?case
  proof (cases "p' = p")
    case True
    with Cons.prems(2)[of c'] kv have "c' = c" by simp
    with Cons.prems(1) kv True show ?thesis by simp
  next
    case False
    have "map_of xs (c, p) = Some e" using Cons.prems(1) kv False by (auto split: if_splits)
    moreover have "c'' = c" if "(c'', p) \<in> fst ` set xs" for c''
      using Cons.prems(2)[of c''] that by simp
    ultimately show ?thesis using Cons.IH kv False by simp
  qed
qed simp


section \<open>Properties\<close>



text \<open>A file stored for a connection is read back from the cache, stale or not and whatever is on
  disk, as long as no other connection caches the same path.\<close>

theorem vfs_store_then_read:
  assumes "fs_valid fs" "\<And>c'. (c', p) \<in> fst ` set (fs_cache fs) \<Longrightarrow> c' = c"
  shows "fst (vfs_read_to_string disk now' p (mark_stale c'' (vfs_store sha now c p x fs))) = Inr x"
proof -
  let ?xs = "AList.update (c, p) \<lparr>ce_content = x, ce_hash = sha x, ce_stale = False, ce_stored_at = now,
    ce_metadata = Some metadata_default\<rparr> (fs_cache fs)"
  have "map_of ?xs (c, p) \<noteq> None" by (simp add: AList.update_conv')
  then obtain e where e: "map_of ?xs (c, p) = Some e" "ce_content e = x" by (auto simp: AList.update_conv')
  have keys: "c' = c" if "(c', p) \<in> fst ` set ?xs" for c'
    using that assms(2)[of c'] by (auto simp: AList.dom_update)
  obtain key where key: "find (\<lambda>(key, entry). snd key = p) ?xs = Some (key, e)"
    using find_unique_key[OF e(1) keys] by blast
  have "map_option (\<lambda>(_, e). ce_content e) (find (\<lambda>(key, entry). snd key = p)
      (map (\<lambda>(key, entry). (key, if fst key = c'' then entry\<lparr>ce_stale := True\<rparr> else entry)) ys)) =
    map_option (\<lambda>(_, e). ce_content e) (find (\<lambda>(key, entry). snd key = p) ys)" for ys
    by (induction ys) auto
  note stale = this[of ?xs, unfolded key]
  show ?thesis
    by (rule read_cached) (use stale e(2) in \<open>simp add: mark_stale_def vfs_store_def store_with_metadata_def\<close>)
qed

theorem vfs_store_then_read_witness:
  "fst (vfs_read_to_string (\<lambda>_. DiskNotFound) 99 ''a.py''
     (mark_stale ''c'' (vfs_store id 0 ''c'' ''a.py'' ''text'' (cached_fs_new 5)))) = Inr ''text''"
  by (rule vfs_store_then_read) (simp_all add: fs_valid_def cached_fs_new_def)

end
