(* ===== verification/App_Error.thy ===== *)
theory App_Error
  imports Core_Metric
begin

text \<open>
  The errors of the application layer (\<open>detrix-application/src/error.rs\<close>): the typed groups, the
  union with the domain errors, their codes, and the tenant scopes of
  \<open>detrix-application/src/scope.rs\<close> whose violation is one of them. A path is its text.
\<close>


section \<open>Errors\<close>

datatype config_error =
    TomlParse string
  | TomlSerialize string
  | ConfigRead string string
  | ConfigWrite string string
  | RestartRequired string
  | InvalidValue string string
  | EnvironmentValidation string

primrec config_code :: "config_error \<Rightarrow> error_code" where
  "config_code (TomlParse a) = EC_ConfigTomlParse"
| "config_code (TomlSerialize a) = EC_ConfigTomlSerialize"
| "config_code (ConfigRead a b) = EC_ConfigReadFailed"
| "config_code (ConfigWrite a b) = EC_ConfigWriteFailed"
| "config_code (RestartRequired a) = EC_ConfigRestartRequired"
| "config_code (InvalidValue a b) = EC_ConfigInvalidValue"
| "config_code (EnvironmentValidation a) = EC_ConfigEnvironmentValidation"

datatype safety_error =
    UnsupportedLanguage source_language
  | ProcessSpawn string string
  | ProcessTimeout string u64
  | ValidationFailed string "string list"
  | OutputParse string
  | ProcessExecution string
  | HashVerification string

primrec safety_code :: "safety_error \<Rightarrow> error_code" where
  "safety_code (UnsupportedLanguage a) = EC_SafetyUnsupportedLanguage"
| "safety_code (ProcessSpawn a b) = EC_SafetyProcessSpawn"
| "safety_code (ProcessTimeout a b) = EC_SafetyProcessTimeout"
| "safety_code (ValidationFailed a b) = EC_SafetyViolation"
| "safety_code (OutputParse a) = EC_SafetyOutputParse"
| "safety_code (ProcessExecution a) = EC_SafetyProcessExecution"
| "safety_code (HashVerification a) = EC_SafetyHashVerification"

datatype file_inspection_error =
    InspectRead string string
  | InspectParse string string
  | AnalyzerNotFound string "string list"
  | CommandFailed string string
  | InvalidPath string
  | NotFound string
  | NotAFile string
  | LineNotFound string u32 nat
  | VariableNotInExecutableScope string string

primrec file_inspection_code :: "file_inspection_error \<Rightarrow> error_code" where
  "file_inspection_code (InspectRead a b) = EC_FileReadFailed"
| "file_inspection_code (InspectParse a b) = EC_FileParseFailed"
| "file_inspection_code (AnalyzerNotFound a b) = EC_AnalyzerNotFound"
| "file_inspection_code (CommandFailed a b) = EC_CommandFailed"
| "file_inspection_code (InvalidPath a) = EC_InvalidPath"
| "file_inspection_code (NotFound a) = EC_FileNotFound"
| "file_inspection_code (NotAFile a) = EC_NotAFile"
| "file_inspection_code (LineNotFound a b c) = EC_LineNotFound"
| "file_inspection_code (VariableNotInExecutableScope a b) = EC_VariableNotInExecutableScope"

text \<open>A rollback failure holds the texts of the two errors; the model keeps the errors themselves.\<close>

datatype app_error =
    CoreError error
  | ConfigTyped config_error
  | SafetyTyped safety_error
  | FileInspectionTyped file_inspection_error
  | Storage string
  | ConnectionNotFound string
  | AppOutput string
  | PartialGroupFailure nat "(string \<times> string) list"
  | OperationWithRollbackFailure (primary: app_error) (rollback: app_error) (rollback_context: string)
  | SubprocessTimeout string u64
  | Auth string
  | AccessDenied string

type_synonym 'a app_result = "app_error + 'a"

primrec app_code :: "app_error \<Rightarrow> error_code" where
  "app_code (CoreError e) = code_of e"
| "app_code (ConfigTyped e) = config_code e"
| "app_code (SafetyTyped e) = safety_code e"
| "app_code (FileInspectionTyped e) = file_inspection_code e"
| "app_code (Storage a) = EC_StorageError"
| "app_code (ConnectionNotFound a) = EC_ConnectionNotFound"
| "app_code (AppOutput a) = EC_OutputError"
| "app_code (PartialGroupFailure a b) = EC_PartialGroupFailure"
| "app_code (OperationWithRollbackFailure a b c) = EC_RollbackFailure"
| "app_code (SubprocessTimeout a b) = EC_SubprocessTimeout"
| "app_code (Auth a) = EC_Unauthorized"
| "app_code (AccessDenied a) = EC_Forbidden"

definition app_code_name :: "app_error \<Rightarrow> string" where
  "app_code_name e = code_name_of (app_code e)"

text \<open>\<open>?\<close> on a domain result inside the application layer converts the error.\<close>

definition lift_core :: "'a result \<Rightarrow> 'a app_result" where
  "lift_core r = (case r of Inl e \<Rightarrow> Inl (CoreError e) | Inr a \<Rightarrow> Inr a)"

lemma lift_core_simps [simp]: "lift_core (Inl e) = Inl (CoreError e)" "lift_core (Inr a) = Inr a"
  by (simp_all add: lift_core_def)

lemma lift_core_Inr_iff [simp]: "lift_core r = Inr a \<longleftrightarrow> r = Inr a"
  by (cases r) simp_all


section \<open>Tenant scopes\<close>

datatype metric_scope =
    Admin
  | UserScope string
  | AgentScope (scope_user: string) (scope_agent: string)

datatype user_role = RoleUser | RoleAdmin

definition can_read :: "metric_scope \<Rightarrow> metric \<Rightarrow> bool" where
  "can_read scope m =
     (case scope of
        Admin \<Rightarrow> True
      | UserScope uid \<Rightarrow> m_user_id m = Some uid
      | AgentScope user_id _ \<Rightarrow> m_user_id m = Some user_id)"

definition can_mutate :: "metric_scope \<Rightarrow> metric \<Rightarrow> bool" where
  "can_mutate scope m =
     (case scope of
        Admin \<Rightarrow> True
      | UserScope uid \<Rightarrow> m_user_id m = Some uid
      | AgentScope user_id agent_id \<Rightarrow> m_user_id m = Some user_id \<and> m_agent_id m = Some agent_id)"

definition scope_user_id :: "metric_scope \<Rightarrow> string option" where
  "scope_user_id scope =
     (case scope of Admin \<Rightarrow> None | UserScope uid \<Rightarrow> Some uid | AgentScope user_id _ \<Rightarrow> Some user_id)"

definition scope_agent_id :: "metric_scope \<Rightarrow> string option" where
  "scope_agent_id scope =
     (case scope of Admin \<Rightarrow> None | UserScope _ \<Rightarrow> None | AgentScope _ agent_id \<Rightarrow> Some agent_id)"

definition check_read_access :: "metric_scope \<Rightarrow> metric \<Rightarrow> unit result" where
  "check_read_access scope m =
     (if can_read scope m then Inr () else Inl (MetricNotFound ''Metric not found''))"

definition extract_scope :: "string \<Rightarrow> user_role \<Rightarrow> string option \<Rightarrow> metric_scope" where
  "extract_scope user_id role agent_id =
     (if role = RoleAdmin then Admin
      else (case agent_id of Some aid \<Rightarrow> AgentScope user_id aid | None \<Rightarrow> UserScope user_id))"

text \<open>\<open>check_mutate_access\<close> of \<open>services/metric_service/mod.rs\<close>; the id is printed as an option.\<close>

definition show_id_debug :: "u64 option \<Rightarrow> string" where
  "show_id_debug i = (case i of None \<Rightarrow> ''None'' | Some n \<Rightarrow> ''Some('' @ show_nat (unat n) @ '')'')"

definition check_mutate_access :: "metric_scope \<Rightarrow> metric \<Rightarrow> unit app_result" where
  "check_mutate_access scope m =
     (if \<not> can_mutate scope m
      then Inl (AccessDenied (''Cannot mutate metric '' @ [CHR 0x27] @ m_name m @ [CHR 0x27] @
             '' (id='' @ show_id_debug (m_id m) @ '')''))
      else Inr ())"

lemma check_mutate_access_ok [simp]: "check_mutate_access scope m = Inr u \<longleftrightarrow> can_mutate scope m"
  by (simp add: check_mutate_access_def)

lemma mutate_implies_read: "can_mutate scope m \<Longrightarrow> can_read scope m"
  by (simp add: can_mutate_def can_read_def split: metric_scope.splits)

lemma can_mutate_cong:
  "m_user_id m = m_user_id m' \<Longrightarrow> m_agent_id m = m_agent_id m' \<Longrightarrow> can_mutate scope m = can_mutate scope m'"
  by (simp add: can_mutate_def split: metric_scope.splits)


section \<open>Properties\<close>



end
