(* ===== verification/Metric_Store.thy ===== *)
theory Metric_Store
  imports App_Error
begin

text \<open>
  The metric repository as its callers see it (the trait \<open>MetricRepository\<close> of
  \<open>detrix-ports/src/repository.rs\<close>): a table of metrics with unique identifiers, in which no
  connection has two metrics of one owner at one location. \<open>Metric_Sqlite\<close> shows that the SQL
  repository implements it. The table is in order of creation. Every operation may also fail with a
  database error and then changes nothing; which of the coming calls fail is part of the state, so
  that a statement for all states covers every pattern of failures.
\<close>


section \<open>The table\<close>

definition SYSTEM_USER_ID :: string where
  "SYSTEM_USER_ID = ''__system__''"

record store =
  st_metrics :: "metric list"
  st_next_id :: u64
  st_faults :: "string option list"

text \<open>The next call: an injected failure, or the state to work on.\<close>

definition store_call :: "store \<Rightarrow> string option \<times> store" where
  "store_call s = (case st_faults s of [] \<Rightarrow> (None, s) | f # fs \<Rightarrow> (f, s\<lparr>st_faults := fs\<rparr>))"

definition effective_user :: "metric \<Rightarrow> string" where
  "effective_user m = (case m_user_id m of Some u \<Rightarrow> u | None \<Rightarrow> SYSTEM_USER_ID)"

text \<open>The columns of the unique index.\<close>

definition unique_key :: "metric \<Rightarrow> location \<times> string \<times> string" where
  "unique_key m = (m_location m, m_connection_id m, effective_user m)"

text \<open>What a metric looks like when it is read back: the owner \<open>__system__\<close> is none, and an anchor
  without a symbol and without context is dropped.\<close>

definition keep_anchor :: "metric_anchor \<Rightarrow> bool" where
  "keep_anchor a \<longleftrightarrow> enclosing_symbol a \<noteq> None \<or> context_fingerprint a \<noteq> None \<or>
     context_before a \<noteq> None \<or> source_line a \<noteq> None"

definition stored_anchor :: "metric_anchor option \<Rightarrow> metric_anchor option" where
  "stored_anchor a = (case a of Some x \<Rightarrow> if keep_anchor x then Some x else None | None \<Rightarrow> None)"

definition stored_form :: "metric \<Rightarrow> metric" where
  "stored_form m = m\<lparr>m_user_id := (if m_user_id m = Some SYSTEM_USER_ID then None else m_user_id m),
     m_anchor := stored_anchor (m_anchor m)\<rparr>"

definition unique_violation :: error where
  "unique_violation = Database ''UNIQUE constraint failed: metrics.location, metrics.connection_id, metrics.user_id''"

definition store_find :: "u64 \<Rightarrow> store \<Rightarrow> metric option" where
  "store_find i s = find (\<lambda>m. m_id m = Some i) (st_metrics s)"


section \<open>Operations\<close>

text \<open>An \<open>AUTOINCREMENT\<close> column hands out positive signed 64-bit numbers and never one twice.\<close>

definition ROWID_LIMIT :: u64 where
  "ROWID_LIMIT = 0x8000000000000000"

definition store_save :: "i64 \<Rightarrow> metric \<Rightarrow> store \<Rightarrow> u64 result \<times> store" where
  "store_save now m s =
     (case store_call s of
        (Some e, s) \<Rightarrow> (Inl (Database e), s)
      | (None, s) \<Rightarrow>
          if unique_key m \<in> unique_key ` set (st_metrics s) then (Inl unique_violation, s)
          else if st_next_id s = ROWID_LIMIT then (Inl (Database ''database or disk is full''), s)
          else
            (Inr (st_next_id s),
             s\<lparr>st_metrics := st_metrics s @ [(stored_form m)\<lparr>m_id := Some (st_next_id s), m_created_at := Some now\<rparr>],
               st_next_id := st_next_id s + 1\<rparr>))"

text \<open>The fields an update writes; owner, connection and the capture settings stay.\<close>

definition updated_fields :: "metric \<Rightarrow> metric \<Rightarrow> metric" where
  "updated_fields old m = old\<lparr>m_name := m_name m, m_group := m_group m, m_location := m_location m,
     m_expressions := m_expressions m, m_language := m_language m, m_enabled := m_enabled m,
     m_mode := m_mode m, m_condition := m_condition m, m_safety_level := m_safety_level m,
     m_anchor := stored_anchor (m_anchor m), m_anchor_status := m_anchor_status m\<rparr>"

definition show_id :: "u64 \<Rightarrow> string" where
  "show_id i = show_nat (unat i)"

definition store_update :: "metric \<Rightarrow> store \<Rightarrow> unit result \<times> store" where
  "store_update m s =
     (case m_id m of
        None \<Rightarrow> (Inl (InvalidConfig ''Metric must have ID to update''), s)
      | Some i \<Rightarrow>
          (case store_call s of
             (Some e, s) \<Rightarrow> (Inl (Database e), s)
           | (None, s) \<Rightarrow>
               (case store_find i s of
                  None \<Rightarrow> (Inl (MetricNotFound (show_id i)), s)
                | Some old \<Rightarrow>
                    let new = updated_fields old m in
                    if unique_key new \<in> unique_key ` {x \<in> set (st_metrics s). m_id x \<noteq> Some i}
                    then (Inl unique_violation, s)
                    else (Inr (), s\<lparr>st_metrics :=
                            map (\<lambda>x. if m_id x = Some i then new else x) (st_metrics s)\<rparr>))))"

definition store_delete :: "u64 \<Rightarrow> store \<Rightarrow> unit result \<times> store" where
  "store_delete i s =
     (case store_call s of
        (Some e, s) \<Rightarrow> (Inl (Database e), s)
      | (None, s) \<Rightarrow>
          if store_find i s = None then (Inl (MetricNotFound (show_id i)), s)
          else (Inr (), s\<lparr>st_metrics := filter (\<lambda>m. m_id m \<noteq> Some i) (st_metrics s)\<rparr>))"

text \<open>A query: an injected failure, or a function of the table.\<close>

definition store_query :: "(metric list \<Rightarrow> 'a) \<Rightarrow> store \<Rightarrow> 'a result \<times> store" where
  "store_query f s =
     (case store_call s of
        (Some e, s) \<Rightarrow> (Inl (Database e), s)
      | (None, s) \<Rightarrow> (Inr (f (st_metrics s)), s))"

definition store_find_by_id :: "u64 \<Rightarrow> store \<Rightarrow> metric option result \<times> store" where
  "store_find_by_id i = store_query (find (\<lambda>m. m_id m = Some i))"

definition store_find_by_name :: "string \<Rightarrow> store \<Rightarrow> metric option result \<times> store" where
  "store_find_by_name n = store_query (find (\<lambda>m. m_name m = n))"

definition store_find_all :: "store \<Rightarrow> metric list result \<times> store" where
  "store_find_all = store_query rev"

definition store_find_by_group :: "string \<Rightarrow> store \<Rightarrow> metric list result \<times> store" where
  "store_find_by_group g = store_query (\<lambda>ms. rev (filter (\<lambda>m. m_group m = Some g) ms))"

definition store_find_by_connection_id :: "string \<Rightarrow> store \<Rightarrow> metric list result \<times> store" where
  "store_find_by_connection_id c = store_query (\<lambda>ms. rev (filter (\<lambda>m. m_connection_id m = c) ms))"

datatype owner_filter = OwnerUser string | OwnerSystem

primrec owner_id :: "owner_filter \<Rightarrow> string" where
  "owner_id (OwnerUser u) = u"
| "owner_id OwnerSystem = SYSTEM_USER_ID"

definition at_location :: "string \<Rightarrow> string \<Rightarrow> u32 \<Rightarrow> metric \<Rightarrow> bool" where
  "at_location c path line m \<longleftrightarrow>
     m_connection_id m = c \<and> m_location m = \<lparr>loc_file = path, loc_line = line\<rparr>"

definition store_find_by_location ::
  "string \<Rightarrow> string \<Rightarrow> u32 \<Rightarrow> owner_filter \<Rightarrow> store \<Rightarrow> metric option result \<times> store" where
  "store_find_by_location c path line owner =
     store_query (find (\<lambda>m. at_location c path line m \<and> effective_user m = owner_id owner))"

definition store_find_all_at_location ::
  "string \<Rightarrow> string \<Rightarrow> u32 \<Rightarrow> store \<Rightarrow> metric list result \<times> store" where
  "store_find_all_at_location c path line = store_query (filter (at_location c path line))"

record metric_filter =
  mf_connection_id :: "string option"
  mf_enabled :: "bool option"
  mf_group :: "string option"
  mf_user_id :: "string option"
  mf_agent_id :: "string option"

definition filter_matches :: "metric_filter \<Rightarrow> metric \<Rightarrow> bool" where
  "filter_matches f m \<longleftrightarrow>
     (case mf_connection_id f of None \<Rightarrow> True | Some c \<Rightarrow> m_connection_id m = c) \<and>
     (case mf_enabled f of None \<Rightarrow> True | Some b \<Rightarrow> m_enabled m = b) \<and>
     (case mf_group f of
        None \<Rightarrow> True
      | Some g \<Rightarrow> if g = ''default'' then m_group m = None \<or> m_group m = Some ''default''
                   else m_group m = Some g) \<and>
     (case mf_user_id f of None \<Rightarrow> True | Some u \<Rightarrow> effective_user m = u) \<and>
     (case mf_agent_id f of None \<Rightarrow> True | Some a \<Rightarrow> m_agent_id m = Some a)"

text \<open>Limit and offset are bound as signed integers; a negative limit is no limit in SQL, a negative
  offset is none.\<close>

definition sql_page :: "u64 \<Rightarrow> u64 \<Rightarrow> 'a list \<Rightarrow> 'a list" where
  "sql_page limit offset xs =
     (let xs = (if sint offset < 0 then xs else drop (unat offset) xs) in
      if sint limit < 0 then xs else take (unat limit) xs)"

definition store_find_filtered ::
  "metric_filter \<Rightarrow> u64 \<Rightarrow> u64 \<Rightarrow> store \<Rightarrow> (metric list \<times> u64) result \<times> store" where
  "store_find_filtered f limit offset =
     store_query (\<lambda>ms. let found = rev (filter (filter_matches f) ms) in
       (sql_page limit offset found, word_of_nat (length found)))"



section \<open>The invariant of the table\<close>

definition store_wf :: "store \<Rightarrow> bool" where
  "store_wf s \<longleftrightarrow>
     distinct (map m_id (st_metrics s)) \<and>
     list_all (\<lambda>m. \<exists>i. m_id m = Some i \<and> i < st_next_id s) (st_metrics s) \<and>
     st_next_id s \<le> ROWID_LIMIT \<and>
     distinct (map unique_key (st_metrics s)) \<and>
     list_all (\<lambda>m. m_user_id m \<noteq> Some SYSTEM_USER_ID) (st_metrics s)"

definition store_empty :: "string option list \<Rightarrow> store" where
  "store_empty faults = \<lparr>st_metrics = [], st_next_id = 1, st_faults = faults\<rparr>"

lemma store_wf_empty [simp]: "store_wf (store_empty faults)"
  by (simp add: store_wf_def store_empty_def ROWID_LIMIT_def)

lemma store_call_fields:
  assumes "store_call s = (r, s')"
  shows "st_metrics s' = st_metrics s" "st_next_id s' = st_next_id s"
  using assms by (auto simp: store_call_def split: list.splits)

lemma store_wf_cong: "st_metrics s = st_metrics s' \<Longrightarrow> st_next_id s = st_next_id s' \<Longrightarrow> store_wf s = store_wf s'"
  by (simp add: store_wf_def)

lemma store_wf_call: "store_call s = (r, s') \<Longrightarrow> store_wf s' = store_wf s"
  by (rule store_wf_cong) (simp_all add: store_call_fields)

lemma unique_key_stored [simp]:
  "unique_key ((stored_form m)\<lparr>m_id := i, m_created_at := t\<rparr>) = unique_key m"
  by (simp add: unique_key_def effective_user_def stored_form_def split: option.splits)

lemma below_limit_Suc:
  assumes "n \<le> ROWID_LIMIT" "n \<noteq> ROWID_LIMIT"
  shows "n < n + 1" "n + 1 \<le> ROWID_LIMIT"
proof -
  have "unat n < unat ROWID_LIMIT"
    using assms by (metis order_le_neq_trans word_less_nat_alt)
  then have "unat (n + 1) = Suc (unat n)" and "unat n < 2 ^ 63"
    by (simp_all add: ROWID_LIMIT_def unat_word_ariths)
  then show "n < n + 1" "n + 1 \<le> ROWID_LIMIT"
    by (simp_all add: word_less_nat_alt word_le_nat_alt ROWID_LIMIT_def)
qed

text \<open>The row a save adds.\<close>

definition saved_row :: "i64 \<Rightarrow> metric \<Rightarrow> u64 \<Rightarrow> metric" where
  "saved_row now m i = (stored_form m)\<lparr>m_id := Some i, m_created_at := Some now\<rparr>"

lemma saved_row_simps [simp]:
  "m_id (saved_row now m i) = Some i" "unique_key (saved_row now m i) = unique_key m"
  "m_user_id (saved_row now m i) \<noteq> Some SYSTEM_USER_ID"
  by (simp_all add: saved_row_def) (simp add: stored_form_def)

lemma store_save_cases:
  assumes "store_save now m s = (r, s')"
  obtains "st_metrics s' = st_metrics s" "st_next_id s' = st_next_id s" "\<not> is_ok r"
  | "r = Inr (st_next_id s)" "unique_key m \<notin> unique_key ` set (st_metrics s)" "st_next_id s \<noteq> ROWID_LIMIT"
      "st_metrics s' = st_metrics s @ [saved_row now m (st_next_id s)]" "st_next_id s' = st_next_id s + 1"
proof -
  obtain f s1 where c: "store_call s = (f, s1)" by (cases "store_call s")
  note same = store_call_fields[OF c]
  consider e where "f = Some e" | "f = None" "unique_key m \<in> unique_key ` set (st_metrics s1)"
    | "f = None" "unique_key m \<notin> unique_key ` set (st_metrics s1)" "st_next_id s1 = ROWID_LIMIT"
    | "f = None" "unique_key m \<notin> unique_key ` set (st_metrics s1)" "st_next_id s1 \<noteq> ROWID_LIMIT"
    by (cases f) auto
  then show ?thesis
  proof cases
    case 4
    have "r = Inr (st_next_id s1)" "s' = s1\<lparr>st_metrics := st_metrics s1 @ [saved_row now m (st_next_id s1)],
        st_next_id := st_next_id s1 + 1\<rparr>"
      using assms by (simp_all add: store_save_def c 4 saved_row_def)
    then show ?thesis using 4 same by (intro that(2)) simp_all
  qed (use assms same in \<open>auto simp: store_save_def c intro!: that(1)\<close>)
qed

lemma store_wf_ids:
  assumes "store_wf s" "x \<in> set (st_metrics s)"
  shows "\<exists>i. m_id x = Some i \<and> i < st_next_id s"
  using assms by (simp only: store_wf_def list_all_iff)

lemma store_wf_id_fresh: "store_wf s \<Longrightarrow> x \<in> set (st_metrics s) \<Longrightarrow> m_id x \<noteq> Some (st_next_id s)"
  using store_wf_ids[of s x] by auto

lemma store_wf_save [inv_intro]:
  assumes "store_wf s" "store_save now m s = (r, s')"
  shows "store_wf s'"
  using assms(2)
proof (cases rule: store_save_cases)
  case 1
  then show ?thesis using assms(1) by (simp add: store_wf_def)
next
  case 2
  have bound: "st_next_id s < st_next_id s + 1" "st_next_id s + 1 \<le> ROWID_LIMIT"
    using below_limit_Suc[of "st_next_id s"] 2(3) assms(1) by (simp_all add: store_wf_def)
  have "Some (st_next_id s) \<notin> m_id ` set (st_metrics s)"
  proof
    assume "Some (st_next_id s) \<in> m_id ` set (st_metrics s)"
    then obtain x where x: "x \<in> set (st_metrics s)" "m_id x = Some (st_next_id s)" by force
    with store_wf_id_fresh[OF assms(1) x(1)] show False by simp
  qed
  moreover have "list_all (\<lambda>m. \<exists>i. m_id m = Some i \<and> i < st_next_id s + 1) (st_metrics s)"
    using assms(1) less_trans[OF _ bound(1)] by (auto simp: store_wf_def list_all_iff)
  ultimately show ?thesis
    using assms(1) 2(2) bound by (simp add: store_wf_def 2(4,5))
qed

lemma find_id_Some:
  assumes "store_wf s" "m \<in> set (st_metrics s)" "m_id m = Some i"
  shows "store_find i s = Some m"
proof -
  have "find (\<lambda>x. m_id x = Some i) ms = Some m"
    if "distinct (map m_id ms)" "m \<in> set ms" for ms
    using that assms(3) by (induction ms) (auto simp: image_iff)
  with assms show ?thesis by (simp add: store_find_def store_wf_def)
qed

lemma store_find_SomeD: "store_find i s = Some m \<Longrightarrow> m \<in> set (st_metrics s) \<and> m_id m = Some i"
  by (auto simp: store_find_def find_Some_iff)

text \<open>Replacing the one row with an identifier.\<close>

lemma distinct_map_replace:
  assumes "distinct (map f xs)" "distinct (map g xs)" "x0 \<in> set xs" "f x0 = k"
    and "g new \<notin> g ` {x \<in> set xs. f x \<noteq> k}"
  shows "distinct (map g (map (\<lambda>x. if f x = k then new else x) xs))"
  using assms
proof (induction xs)
  case (Cons x xs)
  show ?case
  proof (cases "f x = k")
    case True
    then have other: "\<And>y. y \<in> set xs \<Longrightarrow> f y \<noteq> k" using Cons.prems(1) by (auto simp: image_iff)
    then have "map (\<lambda>y. if f y = k then new else y) xs = xs" by (auto intro: map_idI)
    with True other Cons.prems show ?thesis by (auto simp: image_iff)
  next
    case False
    with Cons.prems(3,4) have "x0 \<in> set xs" by auto
    moreover have "g new \<notin> g ` {y \<in> set xs. f y \<noteq> k}" "g new \<noteq> g x"
      using Cons.prems(5) False by auto
    ultimately show ?thesis using Cons False by (auto simp: image_iff)
  qed
qed simp

lemma updated_fields_id [simp]:
  "m_id (updated_fields old m) = m_id old"
  "m_user_id (updated_fields old m) = m_user_id old"
  "m_agent_id (updated_fields old m) = m_agent_id old"
  "m_connection_id (updated_fields old m) = m_connection_id old"
  "effective_user (updated_fields old m) = effective_user old"
  by (simp_all add: updated_fields_def effective_user_def)

lemma store_update_cases:
  assumes "store_update m s = (r, s')"
  obtains "st_metrics s' = st_metrics s" "st_next_id s' = st_next_id s" "\<not> is_ok r"
  | i old where "m_id m = Some i" "store_find i s = Some old" "r = Inr ()"
      "unique_key (updated_fields old m) \<notin> unique_key ` {x \<in> set (st_metrics s). m_id x \<noteq> Some i}"
      "st_metrics s' = map (\<lambda>x. if m_id x = Some i then updated_fields old m else x) (st_metrics s)"
      "st_next_id s' = st_next_id s"
proof -
  obtain f s1 where c: "store_call s = (f, s1)" by (cases "store_call s")
  note same = store_call_fields[OF c]
  have found: "store_find i s1 = store_find i s" for i by (simp add: store_find_def same)
  let ?clash = "\<lambda>i old. unique_key (updated_fields old m) \<in> unique_key ` {x \<in> set (st_metrics s1). m_id x \<noteq> Some i}"
  show ?thesis
  proof (cases "m_id m")
    case None
    then show ?thesis using assms by (intro that(1)) (auto simp: store_update_def)
  next
    case i: (Some i)
    show ?thesis
    proof (cases f)
      case (Some e)
      then show ?thesis using assms same by (intro that(1)) (auto simp: store_update_def c i)
    next
      case f: None
      show ?thesis
      proof (cases "store_find i s1")
        case None
        then show ?thesis using assms same by (intro that(1)) (auto simp: store_update_def c i f)
      next
        case old: (Some old)
        show ?thesis
        proof (cases "?clash i old")
          case True
          with assms have "r = Inl unique_violation" "s' = s1"
            by (simp_all only: store_update_def c i f old option.case prod.case Let_def if_True prod.inject)
          then show ?thesis using same by (intro that(1)) simp_all
        next
          case False
          with assms have "r = Inr ()" "s' = s1\<lparr>st_metrics :=
              map (\<lambda>x. if m_id x = Some i then updated_fields old m else x) (st_metrics s1)\<rparr>"
            by (simp_all only: store_update_def c i f old option.case prod.case Let_def if_False prod.inject)
          then show ?thesis using False i old same found by (intro that(2)[of i old]) simp_all
        qed
      qed
    qed
  qed
qed

lemma store_wf_update [inv_intro]:
  assumes "store_wf s" "store_update m s = (r, s')"
  shows "store_wf s'"
  using assms(2)
proof (cases rule: store_update_cases)
  case 1
  then show ?thesis using assms(1) by (simp add: store_wf_def)
next
  case (2 i old)
  let ?new = "updated_fields old m"
  let ?f = "\<lambda>x. if m_id x = Some i then ?new else x"
  have old: "old \<in> set (st_metrics s)" "m_id old = Some i" using store_find_SomeD[OF 2(2)] by auto
  have "map m_id (map ?f (st_metrics s)) = map m_id (st_metrics s)"
    using old(2) by (auto simp: comp_def)
  moreover have "distinct (map unique_key (map ?f (st_metrics s)))"
    using assms(1) old 2(4) by (intro distinct_map_replace[of m_id]) (auto simp: store_wf_def)
  moreover have "list_all (\<lambda>m. m_user_id m \<noteq> Some SYSTEM_USER_ID) (map ?f (st_metrics s))"
    using assms(1) old(1) by (auto simp: store_wf_def list_all_iff)
  moreover have "list_all (\<lambda>m. \<exists>i. m_id m = Some i \<and> i < st_next_id s) (map ?f (st_metrics s))"
    using assms(1) old by (auto simp: store_wf_def list_all_iff)
  ultimately show ?thesis
    using assms(1) by (simp only: store_wf_def 2(5,6) simp_thms)
qed

lemma store_delete_cases:
  assumes "store_delete i s = (r, s')"
  obtains "st_metrics s' = st_metrics s" "st_next_id s' = st_next_id s" "\<not> is_ok r"
  | "r = Inr ()" "store_find i s \<noteq> None" "st_next_id s' = st_next_id s"
      "st_metrics s' = filter (\<lambda>m. m_id m \<noteq> Some i) (st_metrics s)"
proof -
  obtain f s1 where c: "store_call s = (f, s1)" by (cases "store_call s")
  note same = store_call_fields[OF c]
  have found: "store_find i s1 = store_find i s" by (simp add: store_find_def same)
  consider e where "f = Some e" | "f = None" "store_find i s1 = None" | "f = None" "store_find i s1 \<noteq> None"
    by (metis not_None_eq)
  then show ?thesis
  proof cases
    case 3
    have "r = Inr ()" "s' = s1\<lparr>st_metrics := filter (\<lambda>m. m_id m \<noteq> Some i) (st_metrics s1)\<rparr>"
      using assms 3(2) by (simp_all add: store_delete_def c 3(1))
    then show ?thesis using 3 same found by (intro that(2)) simp_all
  qed (use assms same in \<open>auto simp: store_delete_def c intro!: that(1)\<close>)
qed

lemma store_wf_delete [inv_intro]:
  assumes "store_wf s" "store_delete i s = (r, s')"
  shows "store_wf s'"
  using assms(2)
proof (cases rule: store_delete_cases)
  case 1
  then show ?thesis using assms(1) by (simp add: store_wf_def)
next
  case 2
  then show ?thesis using assms(1) by (auto simp: store_wf_def distinct_map_filter list_all_iff)
qed

lemma store_query_table:
  assumes "store_query f s = (r, s')"
  shows "st_metrics s' = st_metrics s" "st_next_id s' = st_next_id s"
  using assms by (auto simp: store_query_def store_call_def split: list.splits option.splits)

lemma store_query_ok: "store_query f s = (Inr a, s') \<Longrightarrow> a = f (st_metrics s)"
  by (auto simp: store_query_def store_call_def split: list.splits option.splits)

lemmas store_find_defs = store_find_by_id_def store_find_by_name_def store_find_all_def
  store_find_by_group_def store_find_by_connection_id_def store_find_by_location_def
  store_find_all_at_location_def store_find_filtered_def

end
