(* ===== verification/Metric_Sqlite.thy ===== *)
theory Metric_Sqlite
  imports Metric_Store "HOL-Library.Multiset"
begin

text \<open>
  The SQL repository of metrics (detrix-storage, sqlite/metric_repo.rs): the columns of a row, the
  conversion of a metric to a row and back, and the statements as functions of the table. It is shown
  to implement \<open>Metric_Store\<close>: on metrics with a file name and with a clock that advances between
  saves it gives the answers of the abstract table, call by call. JSON is written and read by a
  third-party package and is a parameter; the upsert form of the insert is not modelled.
\<close>


section \<open>Rows\<close>

record metric_row =
  r_id :: i64
  r_name :: string
  r_connection_id :: string
  r_group_name :: "string option"
  r_location :: string
  r_expressions_json :: string
  r_expression_hash :: string
  r_language :: string
  r_enabled :: bool
  r_mode_type :: string
  r_mode_config :: "string option"
  r_condition_expr :: "string option"
  r_safety_level :: string
  r_created_at :: i64
  r_updated_at :: i64
  r_user_id :: "string option"
  r_agent_id :: "string option"
  r_capture_stack_trace :: bool
  r_stack_trace_ttl :: "i64 option"
  r_stack_trace_slice :: "string option"
  r_capture_memory_snapshot :: bool
  r_snapshot_scope :: "string option"
  r_snapshot_ttl :: "i64 option"
  r_anchor_symbol :: "string option"
  r_anchor_symbol_kind :: "i64 option"
  r_anchor_symbol_range :: "string option"
  r_anchor_offset :: "i64 option"
  r_anchor_fingerprint :: "string option"
  r_anchor_context_before :: "string option"
  r_anchor_source_line :: "string option"
  r_anchor_context_after :: "string option"
  r_anchor_last_verified :: "i64 option"
  r_anchor_original_location :: "string option"
  r_anchor_status :: "string option"

text \<open>The JSON package: lists of strings, trace slices, and an unsigned number in a field of an object,
  with its error texts.\<close>

record json_codec =
  jc_expressions :: "string list \<Rightarrow> string"
  jc_parse_expressions :: "string \<Rightarrow> string + string list"
  jc_slice :: "stack_trace_slice \<Rightarrow> string"
  jc_parse_slice :: "string \<Rightarrow> stack_trace_slice option"
  jc_number_field :: "string \<Rightarrow> string \<Rightarrow> string + u64 option"

definition json_number :: "string \<Rightarrow> u32 \<Rightarrow> string" where
  "json_number key n = ''{'' @ [CHR 0x22] @ key @ [CHR 0x22] @ '':'' @ show_nat (unat n) @ ''}''"

definition mode_config_to_json :: "metric_mode \<Rightarrow> string option" where
  "mode_config_to_json mode =
     (case mode of
        Sample rate \<Rightarrow> Some (json_number ''rate'' rate)
      | SampleInterval seconds \<Rightarrow> Some (json_number ''seconds'' seconds)
      | Throttle max_per_second \<Rightarrow> Some (json_number ''max_per_second'' max_per_second)
      | _ \<Rightarrow> None)"

definition config_number :: "json_codec \<Rightarrow> string option \<Rightarrow> string \<Rightarrow> string \<Rightarrow> u32 result" where
  "config_number codec config mode key =
     (case config of
        None \<Rightarrow> Inl (InvalidConfig (mode @ '' mode requires config''))
      | Some text \<Rightarrow>
          (case jc_number_field codec text key of
             Inl e \<Rightarrow> Inl (Serialization e)
           | Inr None \<Rightarrow> Inl (InvalidConfig (''Missing '' @ key))
           | Inr (Some n) \<Rightarrow> Inr (ucast n)))"

definition string_to_mode :: "json_codec \<Rightarrow> string \<Rightarrow> string option \<Rightarrow> metric_mode result" where
  "string_to_mode codec mode_type config =
     (if mode_type = ''stream'' then Inr Stream
      else if mode_type = ''first'' then Inr First
      else if mode_type = ''sample'' then try_bind (config_number codec config ''Sample'' ''rate'') (\<lambda>n. Inr (Sample n))
      else if mode_type = ''sample_interval'' then
        try_bind (config_number codec config ''SampleInterval'' ''seconds'') (\<lambda>n. Inr (SampleInterval n))
      else if mode_type = ''throttle'' then
        try_bind (config_number codec config ''Throttle'' ''max_per_second'') (\<lambda>n. Inr (Throttle n))
      else Inl (InvalidConfig (''Unknown mode type: '' @ mode_type)))"

primrec scope_text :: "snapshot_scope \<Rightarrow> string" where
  "scope_text ScopeLocal = ''local''"
| "scope_text ScopeGlobal = ''global''"
| "scope_text ScopeBoth = ''both''"

definition scope_of_text :: "string \<Rightarrow> snapshot_scope option" where
  "scope_of_text s =
     (if s = ''local'' then Some ScopeLocal else if s = ''global'' then Some ScopeGlobal
      else if s = ''both'' then Some ScopeBoth else None)"

primrec anchor_status_text :: "anchor_status \<Rightarrow> string" where
  "anchor_status_text Unanchored = ''unanchored''"
| "anchor_status_text Verified = ''verified''"
| "anchor_status_text Relocated = ''relocated''"
| "anchor_status_text Orphaned = ''orphaned''"

definition anchor_status_of_text :: "string option \<Rightarrow> anchor_status" where
  "anchor_status_of_text t =
     (case t of
        None \<Rightarrow> Unanchored
      | Some s \<Rightarrow> if s = ''verified'' then Verified else if s = ''relocated'' then Relocated
                   else if s = ''orphaned'' then Orphaned else Unanchored)"

definition range_text :: "u32 \<times> u32 \<Rightarrow> string" where
  "range_text r = (case r of (start, end_line) \<Rightarrow> show_nat (unat start) @ '':'' @ show_nat (unat end_line))"

definition range_of_text :: "string \<Rightarrow> (u32 \<times> u32) option" where
  "range_of_text s =
     (case split_char CHR '':'' s of
        [a, b] \<Rightarrow> (case (parse_unsigned a, parse_unsigned b) of (Some x, Some y) \<Rightarrow> Some (x, y) | _ \<Rightarrow> None)
      | _ \<Rightarrow> None)"

text \<open>The columns both statements write.\<close>

definition write_columns :: "json_codec \<Rightarrow> (string \<Rightarrow> string) \<Rightarrow> i64 \<Rightarrow> metric \<Rightarrow> metric_row \<Rightarrow> metric_row" where
  "write_columns codec sha256 now m r = r\<lparr>
     r_name := m_name m, r_group_name := m_group m, r_location := to_string_format (m_location m),
     r_expressions_json := jc_expressions codec (m_expressions m), r_expression_hash := expression_hash sha256 m,
     r_language := lang_as_str (m_language m), r_enabled := m_enabled m, r_mode_type := mode_as_str (m_mode m),
     r_mode_config := mode_config_to_json (m_mode m), r_condition_expr := m_condition m,
     r_safety_level := safety_as_str (m_safety_level m), r_updated_at := now,
     r_anchor_symbol := Option.bind (m_anchor m) enclosing_symbol,
     r_anchor_symbol_kind := map_option ucast (Option.bind (m_anchor m) symbol_kind),
     r_anchor_symbol_range := map_option range_text (Option.bind (m_anchor m) symbol_range),
     r_anchor_offset := map_option ucast (Option.bind (m_anchor m) offset_in_symbol),
     r_anchor_fingerprint := Option.bind (m_anchor m) context_fingerprint,
     r_anchor_context_before := Option.bind (m_anchor m) context_before,
     r_anchor_source_line := Option.bind (m_anchor m) source_line,
     r_anchor_context_after := Option.bind (m_anchor m) context_after,
     r_anchor_last_verified := Option.bind (m_anchor m) last_verified_at,
     r_anchor_original_location := Option.bind (m_anchor m) original_location,
     r_anchor_status := Some (anchor_status_text (m_anchor_status m))\<rparr>"

definition blank_row :: metric_row where
  "blank_row = \<lparr>r_id = 0, r_name = [], r_connection_id = [], r_group_name = None, r_location = [],
     r_expressions_json = [], r_expression_hash = [], r_language = [], r_enabled = True, r_mode_type = ''stream'',
     r_mode_config = None, r_condition_expr = None, r_safety_level = ''strict'', r_created_at = 0, r_updated_at = 0,
     r_user_id = None, r_agent_id = None, r_capture_stack_trace = False, r_stack_trace_ttl = None,
     r_stack_trace_slice = None, r_capture_memory_snapshot = False, r_snapshot_scope = None, r_snapshot_ttl = None,
     r_anchor_symbol = None, r_anchor_symbol_kind = None, r_anchor_symbol_range = None, r_anchor_offset = None,
     r_anchor_fingerprint = None, r_anchor_context_before = None, r_anchor_source_line = None,
     r_anchor_context_after = None, r_anchor_last_verified = None, r_anchor_original_location = None,
     r_anchor_status = Some ''unanchored''\<rparr>"

definition metric_to_row :: "json_codec \<Rightarrow> (string \<Rightarrow> string) \<Rightarrow> i64 \<Rightarrow> i64 \<Rightarrow> metric \<Rightarrow> metric_row" where
  "metric_to_row codec sha256 now i m = (write_columns codec sha256 now m blank_row)\<lparr>
     r_id := i, r_connection_id := m_connection_id m, r_created_at := now,
     r_user_id := Some (case m_user_id m of Some u \<Rightarrow> u | None \<Rightarrow> SYSTEM_USER_ID), r_agent_id := m_agent_id m,
     r_capture_stack_trace := m_capture_stack_trace m, r_stack_trace_ttl := m_stack_trace_ttl m,
     r_stack_trace_slice := map_option (jc_slice codec) (m_stack_trace_slice m),
     r_capture_memory_snapshot := m_capture_memory_snapshot m,
     r_snapshot_scope := map_option scope_text (m_snapshot_scope m), r_snapshot_ttl := m_snapshot_ttl m\<rparr>"

definition row_anchor :: "metric_row \<Rightarrow> metric_anchor option" where
  "row_anchor r =
     (if r_anchor_symbol r \<noteq> None \<or> r_anchor_fingerprint r \<noteq> None \<or> r_anchor_context_before r \<noteq> None \<or>
         r_anchor_source_line r \<noteq> None
      then Some \<lparr>enclosing_symbol = r_anchor_symbol r, symbol_kind = map_option ucast (r_anchor_symbol_kind r),
        symbol_range = Option.bind (r_anchor_symbol_range r) range_of_text,
        offset_in_symbol = map_option ucast (r_anchor_offset r), context_fingerprint = r_anchor_fingerprint r,
        context_before = r_anchor_context_before r, source_line = r_anchor_source_line r,
        context_after = r_anchor_context_after r, last_verified_at = r_anchor_last_verified r,
        original_location = r_anchor_original_location r\<rparr>
      else None)"

definition row_language :: "metric_row \<Rightarrow> source_language result" where
  "row_language r =
     (case lang_from_str (r_language r) of
        Some l \<Rightarrow> Inr l
      | None \<Rightarrow> Inl (InvalidConfig (''Invalid language '' @ quoted (r_language r) @ '' in database for metric '' @
          show_i64 (r_id r) @
          ''. Valid options: python, go, rust, javascript, typescript, java, cpp, c, ruby, php'')))"

definition safety_of_text :: "string \<Rightarrow> safety_level" where
  "safety_of_text s = (if s = ''trusted'' then Trusted else Strict)"

definition owner_of_column :: "string option \<Rightarrow> string option" where
  "owner_of_column u = (if u = Some SYSTEM_USER_ID then None else u)"

definition row_fields ::
  "json_codec \<Rightarrow> metric_row \<Rightarrow> string list \<Rightarrow> location \<Rightarrow> metric_mode \<Rightarrow> source_language \<Rightarrow> metric" where
  "row_fields codec r expressions location mode language =
     \<lparr>m_id = Some (r_id r), m_name = r_name r, m_connection_id = r_connection_id r, m_group = r_group_name r,
       m_location = location, m_expressions = expressions, m_language = language, m_enabled = r_enabled r,
       m_mode = mode, m_condition = r_condition_expr r,
       m_safety_level = safety_of_text (r_safety_level r),
       m_created_at = Some (r_created_at r),
       m_user_id = owner_of_column (r_user_id r), m_agent_id = r_agent_id r,
       m_capture_stack_trace = r_capture_stack_trace r, m_stack_trace_ttl = r_stack_trace_ttl r,
       m_stack_trace_slice = Option.bind (r_stack_trace_slice r) (jc_parse_slice codec),
       m_capture_memory_snapshot = r_capture_memory_snapshot r,
       m_snapshot_scope = Option.bind (r_snapshot_scope r) scope_of_text, m_snapshot_ttl = r_snapshot_ttl r,
       m_anchor = row_anchor r, m_anchor_status = anchor_status_of_text (r_anchor_status r)\<rparr>"

definition row_to_metric :: "json_codec \<Rightarrow> metric_row \<Rightarrow> metric result" where
  "row_to_metric codec r =
     try_bind (case jc_parse_expressions codec (r_expressions_json r) of
         Inr es \<Rightarrow> Inr es
       | Inl e \<Rightarrow> Inl (Database (''Failed to parse expressions_json for metric '' @ r_name r @ '': '' @ e))) (\<lambda>expressions.
     try_bind (location_parse (r_location r)) (\<lambda>location.
     try_bind (string_to_mode codec (r_mode_type r) (r_mode_config r)) (\<lambda>mode.
     try_bind (row_language r) (\<lambda>language. Inr (row_fields codec r expressions location mode language)))))"


section \<open>Statements\<close>

record sql_db =
  db_rows :: "metric_row list"
  db_next_id :: i64
  db_faults :: "string option list"

definition sql_call :: "sql_db \<Rightarrow> string option \<times> sql_db" where
  "sql_call db = (case db_faults db of [] \<Rightarrow> (None, db) | f # fs \<Rightarrow> (f, db\<lparr>db_faults := fs\<rparr>))"

text \<open>The unique index on location, connection and user; NULLs are distinct.\<close>

definition index_conflict :: "metric_row \<Rightarrow> metric_row \<Rightarrow> bool" where
  "index_conflict r r' \<longleftrightarrow> r_location r = r_location r' \<and> r_connection_id r = r_connection_id r' \<and>
     r_user_id r = r_user_id r' \<and> r_user_id r \<noteq> None"

definition sql_save :: "json_codec \<Rightarrow> (string \<Rightarrow> string) \<Rightarrow> i64 \<Rightarrow> metric \<Rightarrow> sql_db \<Rightarrow> u64 result \<times> sql_db" where
  "sql_save codec sha256 now m db =
     (case sql_call db of
        (Some e, db) \<Rightarrow> (Inl (Database e), db)
      | (None, db) \<Rightarrow>
          (let row = metric_to_row codec sha256 now (db_next_id db) m in
           if list_ex (index_conflict row) (db_rows db) then (Inl unique_violation, db)
           else if db_next_id db = ROWID_LIMIT then (Inl (Database ''database or disk is full''), db)
           else (Inr (db_next_id db), db\<lparr>db_rows := db_rows db @ [row], db_next_id := db_next_id db + 1\<rparr>)))"

definition sql_update :: "json_codec \<Rightarrow> (string \<Rightarrow> string) \<Rightarrow> i64 \<Rightarrow> metric \<Rightarrow> sql_db \<Rightarrow> unit result \<times> sql_db" where
  "sql_update codec sha256 now m db =
     (case m_id m of
        None \<Rightarrow> (Inl (InvalidConfig ''Metric must have ID to update''), db)
      | Some i \<Rightarrow>
          (case sql_call db of
             (Some e, db) \<Rightarrow> (Inl (Database e), db)
           | (None, db) \<Rightarrow>
               if \<not> list_ex (\<lambda>r. r_id r = i) (db_rows db) then (Inl (MetricNotFound (show_id i)), db)
               else if list_ex (\<lambda>r. r_id r = i \<and> list_ex (\<lambda>r'. r_id r' \<noteq> i \<and>
                      index_conflict (write_columns codec sha256 now m r) r') (db_rows db)) (db_rows db)
               then (Inl unique_violation, db)
               else (Inr (), db\<lparr>db_rows := map (\<lambda>r. if r_id r = i then write_columns codec sha256 now m r else r) (db_rows db)\<rparr>)))"

definition sql_delete :: "u64 \<Rightarrow> sql_db \<Rightarrow> unit result \<times> sql_db" where
  "sql_delete i db =
     (case sql_call db of
        (Some e, db) \<Rightarrow> (Inl (Database e), db)
      | (None, db) \<Rightarrow>
          if \<not> list_ex (\<lambda>r. r_id r = i) (db_rows db) then (Inl (MetricNotFound (show_id i)), db)
          else (Inr (), db\<lparr>db_rows := filter (\<lambda>r. r_id r \<noteq> i) (db_rows db)\<rparr>))"

primrec collect_rows :: "json_codec \<Rightarrow> metric_row list \<Rightarrow> metric list result" where
  "collect_rows codec [] = Inr []"
| "collect_rows codec (r # rs) =
     try_bind (row_to_metric codec r) (\<lambda>m. try_bind (collect_rows codec rs) (\<lambda>ms. Inr (m # ms)))"

definition sql_select :: "(metric_row list \<Rightarrow> 'a result) \<Rightarrow> sql_db \<Rightarrow> 'a result \<times> sql_db" where
  "sql_select f db =
     (case sql_call db of (Some e, db) \<Rightarrow> (Inl (Database e), db) | (None, db) \<Rightarrow> (f (db_rows db), db))"

definition newest_first :: "metric_row list \<Rightarrow> metric_row list" where
  "newest_first rs = sort_key (\<lambda>r. - sint (r_created_at r)) rs"

definition oldest_first :: "metric_row list \<Rightarrow> metric_row list" where
  "oldest_first rs = sort_key (\<lambda>r. sint (r_created_at r)) rs"

definition optional_row :: "json_codec \<Rightarrow> metric_row option \<Rightarrow> metric option result" where
  "optional_row codec r =
     (case r of None \<Rightarrow> Inr None | Some row \<Rightarrow> try_bind (row_to_metric codec row) (\<lambda>m. Inr (Some m)))"

definition sql_find_by_id :: "json_codec \<Rightarrow> u64 \<Rightarrow> sql_db \<Rightarrow> metric option result \<times> sql_db" where
  "sql_find_by_id codec i = sql_select (\<lambda>rs. optional_row codec (find (\<lambda>r. r_id r = i) rs))"

definition sql_find_by_name :: "json_codec \<Rightarrow> string \<Rightarrow> sql_db \<Rightarrow> metric option result \<times> sql_db" where
  "sql_find_by_name codec n = sql_select (\<lambda>rs. optional_row codec (find (\<lambda>r. r_name r = n) rs))"

definition sql_find_all :: "json_codec \<Rightarrow> sql_db \<Rightarrow> metric list result \<times> sql_db" where
  "sql_find_all codec = sql_select (\<lambda>rs. collect_rows codec (newest_first rs))"

definition sql_find_by_group :: "json_codec \<Rightarrow> string \<Rightarrow> sql_db \<Rightarrow> metric list result \<times> sql_db" where
  "sql_find_by_group codec g =
     sql_select (\<lambda>rs. collect_rows codec (newest_first (filter (\<lambda>r. r_group_name r = Some g) rs)))"

definition sql_find_by_connection_id :: "json_codec \<Rightarrow> string \<Rightarrow> sql_db \<Rightarrow> metric list result \<times> sql_db" where
  "sql_find_by_connection_id codec c =
     sql_select (\<lambda>rs. collect_rows codec (newest_first (filter (\<lambda>r. r_connection_id r = c) rs)))"

definition location_pattern :: "string \<Rightarrow> u32 \<Rightarrow> string" where
  "location_pattern path line = ''@'' @ path @ ''#'' @ show_nat (unat line)"

definition sql_find_by_location ::
  "json_codec \<Rightarrow> string \<Rightarrow> string \<Rightarrow> u32 \<Rightarrow> owner_filter \<Rightarrow> sql_db \<Rightarrow> metric option result \<times> sql_db" where
  "sql_find_by_location codec c path line owner =
     sql_select (\<lambda>rs. optional_row codec (find (\<lambda>r. r_connection_id r = c \<and>
       r_location r = location_pattern path line \<and> r_user_id r = Some (owner_id owner)) rs))"

definition sql_find_all_at_location ::
  "json_codec \<Rightarrow> string \<Rightarrow> string \<Rightarrow> u32 \<Rightarrow> sql_db \<Rightarrow> metric list result \<times> sql_db" where
  "sql_find_all_at_location codec c path line =
     sql_select (\<lambda>rs. collect_rows codec (oldest_first
       (filter (\<lambda>r. r_connection_id r = c \<and> r_location r = location_pattern path line) rs)))"

definition row_matches :: "metric_filter \<Rightarrow> metric_row \<Rightarrow> bool" where
  "row_matches f r \<longleftrightarrow>
     (case mf_connection_id f of None \<Rightarrow> True | Some c \<Rightarrow> r_connection_id r = c) \<and>
     (case mf_enabled f of None \<Rightarrow> True | Some b \<Rightarrow> r_enabled r = b) \<and>
     (case mf_group f of
        None \<Rightarrow> True
      | Some g \<Rightarrow> if g = ''default'' then r_group_name r = None \<or> r_group_name r = Some ''default''
                   else r_group_name r = Some g) \<and>
     (case mf_user_id f of None \<Rightarrow> True | Some u \<Rightarrow> r_user_id r = Some u) \<and>
     (case mf_agent_id f of None \<Rightarrow> True | Some a \<Rightarrow> r_agent_id r = Some a)"

definition sql_find_filtered ::
  "json_codec \<Rightarrow> metric_filter \<Rightarrow> u64 \<Rightarrow> u64 \<Rightarrow> sql_db \<Rightarrow> (metric list \<times> u64) result \<times> sql_db" where
  "sql_find_filtered codec f limit offset =
     sql_select (\<lambda>rs. let found = filter (row_matches f) rs in
       try_bind (collect_rows codec (sql_page limit offset (newest_first found)))
         (\<lambda>ms. Inr (ms, word_of_nat (length found))))"


definition sql_find_paginated :: "json_codec \<Rightarrow> u64 \<Rightarrow> u64 \<Rightarrow> sql_db \<Rightarrow> (metric list \<times> u64) result \<times> sql_db" where
  "sql_find_paginated codec limit offset =
     sql_select (\<lambda>rs. try_bind (collect_rows codec (sql_page limit offset (newest_first rs)))
       (\<lambda>ms. Inr (ms, word_of_nat (length rs))))"

definition sql_count_all :: "sql_db \<Rightarrow> u64 result \<times> sql_db" where
  "sql_count_all = sql_select (\<lambda>rs. Inr (word_of_nat (length rs)))"

definition sql_exists_by_name :: "string \<Rightarrow> sql_db \<Rightarrow> bool result \<times> sql_db" where
  "sql_exists_by_name n = sql_select (\<lambda>rs. Inr (0 < length (filter (\<lambda>r. r_name r = n) rs)))"

definition sql_delete_by_connection_id :: "string \<Rightarrow> sql_db \<Rightarrow> u64 result \<times> sql_db" where
  "sql_delete_by_connection_id c db =
     (case sql_call db of
        (Some e, db) \<Rightarrow> (Inl (Database e), db)
      | (None, db) \<Rightarrow>
          (Inr (word_of_nat (length (filter (\<lambda>r. r_connection_id r = c) (db_rows db)))),
           db\<lparr>db_rows := filter (\<lambda>r. r_connection_id r \<noteq> c) (db_rows db)\<rparr>))"

text \<open>\<open>UPDATE OR IGNORE\<close> goes through the rows one by one and skips a row that would conflict.\<close>

fun migrate_rows :: "string \<Rightarrow> string \<Rightarrow> metric_row list \<Rightarrow> metric_row list \<Rightarrow> metric_row list \<times> nat" where
  "migrate_rows from_id to_id seen [] = (seen, 0)"
| "migrate_rows from_id to_id seen (r # rs) =
     (let moved = r\<lparr>r_connection_id := to_id\<rparr> in
      if r_connection_id r = from_id \<and> \<not> list_ex (index_conflict moved) (seen @ rs)
      then (case migrate_rows from_id to_id (seen @ [moved]) rs of (rows, n) \<Rightarrow> (rows, n + 1))
      else migrate_rows from_id to_id (seen @ [r]) rs)"

definition sql_migrate_connection_id :: "string \<Rightarrow> string \<Rightarrow> sql_db \<Rightarrow> u64 result \<times> sql_db" where
  "sql_migrate_connection_id from_id to_id db =
     (case sql_call db of
        (Some e, db) \<Rightarrow> (Inl (Database e), db)
      | (None, db) \<Rightarrow>
          (case migrate_rows from_id to_id [] (db_rows db) of (rows, n) \<Rightarrow> (Inr (word_of_nat n), db\<lparr>db_rows := rows\<rparr>)))"


section \<open>Reading back what was written\<close>

definition codec_ok :: "json_codec \<Rightarrow> bool" where
  "codec_ok codec \<longleftrightarrow>
     (\<forall>es. jc_parse_expressions codec (jc_expressions codec es) = Inr es) \<and>
     (\<forall>x. jc_parse_slice codec (jc_slice codec x) = Some x) \<and>
     (\<forall>key n. jc_number_field codec (json_number key n) key = Inr (Some (ucast n)))"

lemma scope_text_roundtrip [simp]: "scope_of_text (scope_text s) = Some s"
  by (cases s) (simp_all add: scope_of_text_def)

lemma anchor_status_roundtrip [simp]: "anchor_status_of_text (Some (anchor_status_text s)) = s"
  by (cases s) (simp_all add: anchor_status_of_text_def)

lemma safety_text_roundtrip [simp]: "safety_of_text (safety_as_str s) = s"
  by (cases s) (simp_all add: safety_of_text_def)

lemma owner_column_roundtrip [simp]:
  "owner_of_column (Some (case u of None \<Rightarrow> SYSTEM_USER_ID | Some x \<Rightarrow> x)) = owner_of_column u"
  by (cases u) (simp_all add: owner_of_column_def)

lemma ucast_widen [simp]: "(ucast (ucast (w :: u32) :: 64 word) :: u32) = w"
  by (simp add: unsigned_ucast_eq take_bit_word_eq_self)

lemma mode_roundtrip: "codec_ok codec \<Longrightarrow> string_to_mode codec (mode_as_str m) (mode_config_to_json m) = Inr m"
  by (cases m) (simp_all add: string_to_mode_def mode_config_to_json_def config_number_def codec_ok_def)

lemma split_char_digits: "c \<notin> set s \<Longrightarrow> split_char c s = [s]"
  by (induction s) auto

lemma split_char_at: "c \<notin> set a \<Longrightarrow> split_char c (a @ c # b) = a # split_char c b"
  by (induction a) auto

lemma show_nat_no_colon: "CHR '':'' \<notin> set (show_nat n)"
  using show_nat_digits[of n] by (auto simp: list_all_iff is_digit_def byte_of_def)

lemma range_roundtrip [simp]: "range_of_text (range_text r) = Some r"
  by (cases r) (simp add: range_of_text_def range_text_def split_char_at split_char_digits show_nat_no_colon
    parse_unsigned_show_word)

lemma language_roundtrip [simp]: "lang_from_str (lang_as_str l) = Some l"
  by (cases l; simp only: lang_as_str.simps; code_simp)

lemma map_option_bind_inverse:
  "(\<And>x. g (f x) = Some x) \<Longrightarrow> Option.bind (map_option f y) g = y" "(\<And>x. h (f x) = x) \<Longrightarrow> map_option h (map_option f y) = y"
  by (cases y; simp)+

lemma row_anchor_written [simp]: "row_anchor (write_columns codec sha256 now m r) = stored_anchor (m_anchor m)"
proof (cases "m_anchor m")
  case (Some a)
  then show ?thesis
    by (cases a) (simp add: row_anchor_def write_columns_def stored_anchor_def keep_anchor_def map_option_bind_inverse)
qed (simp add: row_anchor_def write_columns_def stored_anchor_def)

lemma location_written [simp]: "loc_file l \<noteq> [] \<Longrightarrow> location_parse (to_string_format l) = Inr l"
  using location_parse_printed[of "loc_file l" "loc_line l"] by (simp add: to_string_format_def)

lemma codec_okD:
  assumes "codec_ok codec"
  shows "jc_parse_expressions codec (jc_expressions codec es) = Inr es"
    "Option.bind (map_option (jc_slice codec) x) (jc_parse_slice codec) = x"
  using assms by (simp_all add: codec_ok_def map_option_bind_inverse)

text \<open>The columns that are parsed, when they were written from a metric.\<close>

lemma row_to_metric_parsed:
  assumes "codec_ok codec" "loc_file (m_location m) \<noteq> []"
    and "r_expressions_json r = jc_expressions codec (m_expressions m)" "r_location r = to_string_format (m_location m)"
    and "r_mode_type r = mode_as_str (m_mode m)" "r_mode_config r = mode_config_to_json (m_mode m)"
    and "r_language r = lang_as_str (m_language m)"
  shows "row_to_metric codec r = Inr (row_fields codec r (m_expressions m) (m_location m) (m_mode m) (m_language m))"
  using assms(2-) by (simp add: row_to_metric_def row_language_def codec_okD[OF assms(1)] mode_roundtrip[OF assms(1)])

lemma written_columns [simp]:
  "r_expressions_json (write_columns codec sha256 now m r) = jc_expressions codec (m_expressions m)"
  "r_location (write_columns codec sha256 now m r) = to_string_format (m_location m)"
  "r_mode_type (write_columns codec sha256 now m r) = mode_as_str (m_mode m)"
  "r_mode_config (write_columns codec sha256 now m r) = mode_config_to_json (m_mode m)"
  "r_language (write_columns codec sha256 now m r) = lang_as_str (m_language m)"
  "r_id (write_columns codec sha256 now m r) = r_id r"
  "r_connection_id (write_columns codec sha256 now m r) = r_connection_id r"
  "r_created_at (write_columns codec sha256 now m r) = r_created_at r"
  "r_user_id (write_columns codec sha256 now m r) = r_user_id r"
  by (simp_all add: write_columns_def)

lemma row_to_metric_saved:
  assumes "codec_ok codec" "loc_file (m_location m) \<noteq> []"
  shows "row_to_metric codec (metric_to_row codec sha256 now i m) = Inr (saved_row now m i)"
proof -
  let ?r = "metric_to_row codec sha256 now i m"
  have "row_to_metric codec ?r = Inr (row_fields codec ?r (m_expressions m) (m_location m) (m_mode m) (m_language m))"
    by (rule row_to_metric_parsed[OF assms]) (simp_all add: metric_to_row_def)
  also have "row_fields codec ?r (m_expressions m) (m_location m) (m_mode m) (m_language m) = saved_row now m i"
  proof (rule metric.equality)
    show "m_anchor (row_fields codec ?r (m_expressions m) (m_location m) (m_mode m) (m_language m)) = m_anchor (saved_row now m i)"
      using row_anchor_written[of codec sha256 now m blank_row]
      by (simp add: row_fields_def saved_row_def stored_form_def metric_to_row_def row_anchor_def cong: if_cong split del: if_split)
  qed (simp_all add: row_fields_def saved_row_def stored_form_def metric_to_row_def codec_okD[OF assms(1)] owner_of_column_def,
    simp_all add: write_columns_def map_option_bind_inverse split: option.splits)
  finally show ?thesis .
qed

lemma row_to_metric_updated:
  assumes "codec_ok codec" "loc_file (m_location m) \<noteq> []" "row_to_metric codec r = Inr old"
  shows "row_to_metric codec (write_columns codec sha256 now m r) = Inr (updated_fields old m)"
proof -
  let ?r = "write_columns codec sha256 now m r"
  obtain es l mode lang where old: "old = row_fields codec r es l mode lang"
    using assms(3) by (auto simp: row_to_metric_def try_bind_Inr_iff)
  have "row_to_metric codec ?r = Inr (row_fields codec ?r (m_expressions m) (m_location m) (m_mode m) (m_language m))"
    by (rule row_to_metric_parsed[OF assms(1,2)]) simp_all
  also have "row_fields codec ?r (m_expressions m) (m_location m) (m_mode m) (m_language m) = updated_fields old m"
    by (rule metric.equality) (simp_all add: row_fields_def updated_fields_def old, simp_all add: write_columns_def)
  finally show ?thesis .
qed

lemma row_to_metric_fields:
  assumes "row_to_metric codec r = Inr m"
  shows "m_id m = Some (r_id r)" "m_name m = r_name r" "m_connection_id m = r_connection_id r"
    "m_group m = r_group_name r" "m_enabled m = r_enabled r" "m_agent_id m = r_agent_id r"
    "m_created_at m = Some (r_created_at r)"
  using assms by (auto simp: row_to_metric_def try_bind_Inr_iff row_fields_def)


section \<open>The relation between rows and metrics\<close>

definition row_rel :: "json_codec \<Rightarrow> metric_row \<Rightarrow> metric \<Rightarrow> bool" where
  "row_rel codec r m \<longleftrightarrow> row_to_metric codec r = Inr m \<and> r_user_id r = Some (effective_user m) \<and>
     r_location r = to_string_format (m_location m)"

definition ticks :: "metric_row list \<Rightarrow> bool" where
  "ticks rs \<longleftrightarrow> sorted_wrt (\<lambda>r r'. sint (r_created_at r) < sint (r_created_at r')) rs"

definition db_rel :: "json_codec \<Rightarrow> sql_db \<Rightarrow> store \<Rightarrow> bool" where
  "db_rel codec db st \<longleftrightarrow> list_all2 (row_rel codec) (db_rows db) (st_metrics st) \<and> ticks (db_rows db) \<and>
     db_next_id db = st_next_id st \<and> db_faults db = st_faults st"

lemma to_string_format_inj [simp]: "to_string_format l = to_string_format l' \<longleftrightarrow> l = l'"
proof
  assume eq: "to_string_format l = to_string_format l'"
  have split: "rsplit_once CHR ''#'' (f @ CHR ''#'' # show_nat n) = Some (f, show_nat n)" for f n
    by (intro rsplit_once_last digit_not_hash show_nat_digits)
  from eq have "rsplit_once CHR ''#'' (loc_file l @ CHR ''#'' # show_nat (unat (loc_line l))) =
      rsplit_once CHR ''#'' (loc_file l' @ CHR ''#'' # show_nat (unat (loc_line l')))"
    by (simp add: to_string_format_def)
  then show "l = l'" unfolding split by (cases l; cases l') (auto intro: word_unat_eq_iff[THEN iffD2])
qed simp

lemma location_pattern_eq: "to_string_format l = location_pattern path line \<longleftrightarrow> l = \<lparr>loc_file = path, loc_line = line\<rparr>"
  using to_string_format_inj[of l "\<lparr>loc_file = path, loc_line = line\<rparr>"]
  by (simp add: location_pattern_def to_string_format_def)

lemma row_rel_fields:
  assumes "row_rel codec r m"
  shows "m_id m = Some (r_id r)" "r_name r = m_name m" "r_connection_id r = m_connection_id m"
    "r_group_name r = m_group m" "r_enabled r = m_enabled m" "r_agent_id r = m_agent_id m"
    "r_user_id r = Some (effective_user m)" "r_location r = to_string_format (m_location m)"
  using assms row_to_metric_fields[of codec r m] by (simp_all add: row_rel_def)

lemma row_rel_key: "row_rel codec r m \<Longrightarrow> row_rel codec r' m' \<Longrightarrow> index_conflict r r' \<longleftrightarrow> unique_key m = unique_key m'"
  by (auto simp: index_conflict_def unique_key_def row_rel_fields)

lemma row_rel_saved:
  assumes "codec_ok codec" "loc_file (m_location m) \<noteq> []"
  shows "row_rel codec (metric_to_row codec sha256 now i m) (saved_row now m i)"
  using row_to_metric_saved[OF assms]
  by (auto simp: row_rel_def metric_to_row_def saved_row_def stored_form_def effective_user_def split: option.splits)

lemma row_rel_updated:
  assumes "codec_ok codec" "loc_file (m_location m) \<noteq> []" "row_rel codec r old"
  shows "row_rel codec (write_columns codec sha256 now m r) (updated_fields old m)"
  using row_to_metric_updated[OF assms(1,2)] assms(3) by (simp add: row_rel_def) (simp add: updated_fields_def)

lemma list_ex_rel:
  "list_all2 R xs ys \<Longrightarrow> (\<And>x y. x \<in> set xs \<Longrightarrow> y \<in> set ys \<Longrightarrow> R x y \<Longrightarrow> P x = Q y) \<Longrightarrow> list_ex P xs = list_ex Q ys"
  by (induction rule: list_all2_induct) auto

lemma find_rel:
  "list_all2 R xs ys \<Longrightarrow> (\<And>x y. R x y \<Longrightarrow> P x = Q y) \<Longrightarrow> rel_option R (find P xs) (find Q ys)"
  by (induction rule: list_all2_induct) auto

lemma filter_rel:
  "list_all2 R xs ys \<Longrightarrow> (\<And>x y. R x y \<Longrightarrow> P x = Q y) \<Longrightarrow> list_all2 R (filter P xs) (filter Q ys)"
  by (induction rule: list_all2_induct) auto

lemma collect_rows_rel: "list_all2 (row_rel codec) rs ms \<Longrightarrow> collect_rows codec rs = Inr ms"
  by (induction rule: list_all2_induct) (auto simp: row_rel_def)

lemma optional_row_rel: "rel_option (row_rel codec) r m \<Longrightarrow> optional_row codec r = Inr m"
  by (cases r; cases m) (auto simp: optional_row_def row_rel_def)

lemma ticks_filter: "ticks rs \<Longrightarrow> ticks (filter P rs)"
  by (simp add: ticks_def sorted_wrt_filter)

lemma ticks_inj: "ticks rs \<Longrightarrow> inj_on (\<lambda>r. sint (r_created_at r)) (set rs)"
  using strict_sorted_iff[of "map (\<lambda>r. sint (r_created_at r)) rs"] by (simp add: ticks_def sorted_wrt_map distinct_map)

lemma newest_first_ticks: "ticks rs \<Longrightarrow> newest_first rs = rev rs"
  unfolding newest_first_def
  by (rule sort_key_inj_key_eq)
    (auto simp: ticks_def sorted_wrt_map sorted_wrt_rev inj_on_def dest: ticks_inj[unfolded ticks_def, THEN inj_onD]
      elim: sorted_wrt_mono_rel[rotated])

lemma oldest_first_ticks: "ticks rs \<Longrightarrow> oldest_first rs = rs"
  unfolding oldest_first_def
  by (rule sort_key_inj_key_eq)
    (auto simp: ticks_def sorted_wrt_map dest: ticks_inj[unfolded ticks_def] elim: sorted_wrt_mono_rel[rotated])


section \<open>The index after a migration\<close>

definition index_ok :: "metric_row list \<Rightarrow> bool" where
  "index_ok rs \<longleftrightarrow> sorted_wrt (\<lambda>r r'. \<not> index_conflict r r') rs"

lemma index_conflict_sym: "index_conflict r r' = index_conflict r' r"
  by (metis index_conflict_def)

lemma index_ok_replace:
  assumes "index_ok (seen @ r # rs)" "\<not> list_ex (index_conflict r') (seen @ rs)"
  shows "index_ok (seen @ r' # rs)"
  using assms index_conflict_sym by (auto simp: index_ok_def sorted_wrt_append list_ex_iff)

lemma migrate_rows_correct:
  assumes "index_ok (seen @ rs)" "migrate_rows from_id to_id seen rs = (rows, n)"
  shows "index_ok rows \<and> map r_id rows = map r_id (seen @ rs) \<and> n \<le> length rs \<and> set seen \<subseteq> set rows \<and>
    (\<forall>r \<in> set rs. r_connection_id r \<noteq> from_id \<longrightarrow> r \<in> set rows)"
  using assms
proof (induction from_id to_id seen rs arbitrary: rows n rule: migrate_rows.induct)
  case (2 from_id to_id seen r rs)
  let ?m = "r\<lparr>r_connection_id := to_id\<rparr>"
  show ?case
  proof (cases "r_connection_id r = from_id \<and> \<not> list_ex (index_conflict ?m) (seen @ rs)")
    case True
    then obtain k where k: "migrate_rows from_id to_id (seen @ [?m]) rs = (rows, k)" "n = k + 1"
      using "2.prems"(2) by (auto simp: Let_def split: prod.splits)
    have "index_ok ((seen @ [?m]) @ rs)" using index_ok_replace[of seen r rs ?m] "2.prems"(1) True by simp
    from "2.IH"(1)[OF refl True this k(1)] show ?thesis using True k(2) by auto
  next
    case False
    then have "migrate_rows from_id to_id (seen @ [r]) rs = (rows, n)" using "2.prems"(2) by (auto simp: Let_def)
    from "2.IH"(2)[OF refl False _ this] show ?thesis using "2.prems"(1) by auto
  qed
qed auto


section \<open>Simulation\<close>

lemma sql_call_rel:
  assumes "db_rel codec db st"
  obtains f db' st' where "sql_call db = (f, db')" "store_call st = (f, st')" "db_rel codec db' st'"
proof (cases "st_faults st")
  case Nil
  then show ?thesis using assms by (intro that[of None db st]) (simp_all add: sql_call_def store_call_def db_rel_def)
next
  case (Cons f fs)
  then show ?thesis
    using assms by (intro that[of f "db\<lparr>db_faults := fs\<rparr>" "st\<lparr>st_faults := fs\<rparr>"]) (simp_all add: sql_call_def store_call_def db_rel_def)
qed

lemma save_rel:
  assumes ok: "codec_ok codec" "loc_file (m_location m) \<noteq> []" and rel: "db_rel codec db st"
    and now: "\<forall>r \<in> set (db_rows db). sint (r_created_at r) < sint now"
  shows "rel_prod (=) (db_rel codec) (sql_save codec sha256 now m db) (store_save now m st)"
proof -
  obtain f db' st' where c: "sql_call db = (f, db')" "store_call st = (f, st')" and rel': "db_rel codec db' st'"
    by (rule sql_call_rel[OF rel])
  have rows: "db_rows db' = db_rows db" using c(1) by (auto simp: sql_call_def split: list.splits)
  let ?row = "metric_to_row codec sha256 now (db_next_id db') m"
  have row: "row_rel codec ?row (saved_row now m (db_next_id db'))" by (rule row_rel_saved[OF ok])
  have "list_ex (index_conflict ?row) (db_rows db') = list_ex (\<lambda>x. unique_key x = unique_key m) (st_metrics st')"
    using rel' row_rel_key[OF row] by (intro list_ex_rel[of "row_rel codec"]) (auto simp: db_rel_def)
  also have "\<dots> \<longleftrightarrow> unique_key m \<in> unique_key ` set (st_metrics st')" by (auto simp: list_ex_iff image_iff eq_commute)
  finally have clash: "list_ex (index_conflict ?row) (db_rows db') \<longleftrightarrow> unique_key m \<in> unique_key ` set (st_metrics st')" .
  have "ticks (db_rows db' @ [?row])"
    using rel' now rows by (simp add: db_rel_def ticks_def sorted_wrt_append metric_to_row_def)
  then show ?thesis
    using c clash rel' row
    by (auto simp: sql_save_def store_save_def saved_row_def Let_def db_rel_def list_all2_appendI split: option.splits)
qed

lemma find_id_rel:
  assumes "db_rel codec db st"
  shows "rel_option (row_rel codec) (find (\<lambda>r. r_id r = i) (db_rows db)) (store_find i st)"
  using assms unfolding db_rel_def store_find_def
  by (intro find_rel[of "row_rel codec"]) (auto dest: row_rel_fields(1))

lemma list_ex_find: "list_ex P xs \<longleftrightarrow> find P xs \<noteq> None"
  by (induction xs) auto

lemma update_conflict:
  assumes ok: "codec_ok codec" "loc_file (m_location m) \<noteq> []" and rows: "list_all2 (row_rel codec) rs ms"
    and old: "old \<in> set ms" "m_id old = Some i" and one: "\<And>y. y \<in> set ms \<Longrightarrow> m_id y = Some i \<Longrightarrow> y = old"
  shows "list_ex (\<lambda>r. r_id r = i \<and> list_ex (\<lambda>r'. r_id r' \<noteq> i \<and>
      index_conflict (write_columns codec sha256 now m r) r') rs) rs \<longleftrightarrow>
    unique_key (updated_fields old m) \<in> unique_key ` {x \<in> set ms. m_id x \<noteq> Some i}"
proof -
  let ?w = "write_columns codec sha256 now m"
  have inner: "list_ex (\<lambda>r'. r_id r' \<noteq> i \<and> index_conflict (?w r) r') rs =
      list_ex (\<lambda>y'. m_id y' \<noteq> Some i \<and> unique_key (updated_fields y m) = unique_key y') ms"
    if "row_rel codec r y" for r y
  proof (rule list_ex_rel[OF rows])
    fix r' y' assume R: "row_rel codec r' y'"
    show "(r_id r' \<noteq> i \<and> index_conflict (?w r) r') = (m_id y' \<noteq> Some i \<and> unique_key (updated_fields y m) = unique_key y')"
      using row_rel_key[OF row_rel_updated[OF ok that] R] row_rel_fields(1)[OF R] by simp
  qed
  have only: "list_ex (\<lambda>y. m_id y = Some i \<and> Q y) ms \<longleftrightarrow> Q old" for Q
    unfolding list_ex_iff using one old by blast
  have "list_ex (\<lambda>r. r_id r = i \<and> list_ex (\<lambda>r'. r_id r' \<noteq> i \<and> index_conflict (?w r) r') rs) rs \<longleftrightarrow>
      list_ex (\<lambda>y. m_id y = Some i \<and> list_ex (\<lambda>y'. m_id y' \<noteq> Some i \<and> unique_key (updated_fields y m) = unique_key y') ms) ms"
    using inner row_rel_fields(1) by (intro list_ex_rel[OF rows]) simp
  also have "\<dots> \<longleftrightarrow> unique_key (updated_fields old m) \<in> unique_key ` {x \<in> set ms. m_id x \<noteq> Some i}"
    using only[of "\<lambda>y. list_ex (\<lambda>y'. m_id y' \<noteq> Some i \<and> unique_key (updated_fields y m) = unique_key y') ms"]
    by (auto simp only: list_ex_iff image_iff mem_Collect_eq)
  finally show ?thesis .
qed

lemma update_rows:
  assumes ok: "codec_ok codec" "loc_file (m_location m) \<noteq> []" and rows: "list_all2 (row_rel codec) rs ms"
    and one: "\<And>y. y \<in> set ms \<Longrightarrow> m_id y = Some i \<Longrightarrow> y = old"
  shows "list_all2 (row_rel codec) (map (\<lambda>r. if r_id r = i then write_columns codec sha256 now m r else r) rs)
    (map (\<lambda>x. if m_id x = Some i then updated_fields old m else x) ms)"
  unfolding list.rel_map
proof (rule list.rel_mono_strong[OF rows])
  fix r y assume "y \<in> set ms" and R: "row_rel codec r y"
  then show "row_rel codec (if r_id r = i then write_columns codec sha256 now m r else r)
      (if m_id y = Some i then updated_fields old m else y)"
    using one[of y] row_rel_updated[OF ok R, of sha256 now] row_rel_fields(1)[OF R] by (cases "r_id r = i") simp_all
qed

lemma update_rel:
  assumes ok: "codec_ok codec" "loc_file (m_location m) \<noteq> []" and rel: "db_rel codec db st" and wf: "store_wf st"
  shows "rel_prod (=) (db_rel codec) (sql_update codec sha256 now m db) (store_update m st)"
proof (cases "m_id m")
  case None
  then show ?thesis using rel by (simp add: sql_update_def store_update_def)
next
  case i: (Some i)
  obtain f db' st' where c: "sql_call db = (f, db')" "store_call st = (f, st')" and rel': "db_rel codec db' st'"
    by (rule sql_call_rel[OF rel])
  have wf': "store_wf st'" using wf store_wf_call[OF c(2)] by simp
  have rows: "list_all2 (row_rel codec) (db_rows db') (st_metrics st')" using rel' by (simp add: db_rel_def)
  note found = find_id_rel[OF rel', of i]
  show ?thesis
  proof (cases "store_find i st'")
    case None
    then have "\<not> list_ex (\<lambda>r. r_id r = i) (db_rows db')" using found by (simp add: list_ex_find)
    then show ?thesis using c rel' i None by (simp add: sql_update_def store_update_def split: option.split)
  next
    case old: (Some old)
    have one: "y = old" if "y \<in> set (st_metrics st')" "m_id y = Some i" for y
      using find_id_Some[OF wf' that] old by simp
    have ex: "list_ex (\<lambda>r. r_id r = i) (db_rows db')" using found old by (auto simp: list_ex_find option_rel_Some2)
    note at = store_find_SomeD[OF old]
    note clash = update_conflict[OF ok rows conjunct1[OF at] conjunct2[OF at] one]
    have "ticks (map (\<lambda>r. if r_id r = i then write_columns codec sha256 now m r else r) (db_rows db'))"
      using rel' by (simp add: db_rel_def ticks_def sorted_wrt_map if_distrib[of r_created_at] cong: if_cong)
    then have "db_rel codec (db'\<lparr>db_rows := map (\<lambda>r. if r_id r = i then write_columns codec sha256 now m r else r) (db_rows db')\<rparr>)
        (st'\<lparr>st_metrics := map (\<lambda>x. if m_id x = Some i then updated_fields old m else x) (st_metrics st')\<rparr>)"
      using rel' update_rows[OF ok rows one] by (simp add: db_rel_def)
    then show ?thesis
      using c rel' i old ex clash by (simp add: sql_update_def store_update_def Let_def split: option.split)
  qed
qed

lemma delete_rel:
  assumes rel: "db_rel codec db st"
  shows "rel_prod (=) (db_rel codec) (sql_delete i db) (store_delete i st)"
proof -
  obtain f db' st' where c: "sql_call db = (f, db')" "store_call st = (f, st')" and rel': "db_rel codec db' st'"
    by (rule sql_call_rel[OF rel])
  have ex: "list_ex (\<lambda>r. r_id r = i) (db_rows db') \<longleftrightarrow> store_find i st' \<noteq> None"
    using find_id_rel[OF rel', of i] by (auto simp: list_ex_find option.rel_sel)
  have "list_all2 (row_rel codec) (filter (\<lambda>r. r_id r \<noteq> i) (db_rows db')) (filter (\<lambda>m. m_id m \<noteq> Some i) (st_metrics st'))"
    using rel' by (intro filter_rel) (auto simp: db_rel_def row_rel_fields)
  then have "db_rel codec (db'\<lparr>db_rows := filter (\<lambda>r. r_id r \<noteq> i) (db_rows db')\<rparr>)
      (st'\<lparr>st_metrics := filter (\<lambda>m. m_id m \<noteq> Some i) (st_metrics st')\<rparr>)"
    using rel' by (simp add: db_rel_def ticks_filter)
  then show ?thesis using c rel' ex by (simp add: sql_delete_def store_delete_def split: option.split)
qed

lemma select_rel:
  assumes rel: "db_rel codec db st"
    and f: "\<And>rs ms. list_all2 (row_rel codec) rs ms \<Longrightarrow> ticks rs \<Longrightarrow> f rs = Inr (g ms)"
  shows "rel_prod (=) (db_rel codec) (sql_select f db) (store_query g st)"
proof -
  obtain x db' st' where c: "sql_call db = (x, db')" "store_call st = (x, st')" and rel': "db_rel codec db' st'"
    by (rule sql_call_rel[OF rel])
  then show ?thesis using f[of "db_rows db'" "st_metrics st'"]
    by (simp add: sql_select_def store_query_def db_rel_def split: option.split)
qed


section \<open>The repository as an interface\<close>

datatype repo_op =
    OpSave i64 metric
  | OpUpdate i64 metric
  | OpDelete u64
  | OpFindById u64
  | OpFindByName string
  | OpFindAll
  | OpFindByGroup string
  | OpFindByConnection string
  | OpFindByLocation string string u32 owner_filter
  | OpFindAllAtLocation string string u32
  | OpFindFiltered metric_filter u64 u64

datatype repo_answer =
    AnswerId "u64 result"
  | AnswerUnit "unit result"
  | AnswerOne "metric option result"
  | AnswerMany "metric list result"
  | AnswerPage "(metric list \<times> u64) result"

primrec store_op :: "repo_op \<Rightarrow> store \<Rightarrow> repo_answer \<times> store" where
  "store_op (OpSave now m) st = apfst AnswerId (store_save now m st)"
| "store_op (OpUpdate now m) st = apfst AnswerUnit (store_update m st)"
| "store_op (OpDelete i) st = apfst AnswerUnit (store_delete i st)"
| "store_op (OpFindById i) st = apfst AnswerOne (store_find_by_id i st)"
| "store_op (OpFindByName n) st = apfst AnswerOne (store_find_by_name n st)"
| "store_op OpFindAll st = apfst AnswerMany (store_find_all st)"
| "store_op (OpFindByGroup g) st = apfst AnswerMany (store_find_by_group g st)"
| "store_op (OpFindByConnection c) st = apfst AnswerMany (store_find_by_connection_id c st)"
| "store_op (OpFindByLocation c path line owner) st = apfst AnswerOne (store_find_by_location c path line owner st)"
| "store_op (OpFindAllAtLocation c path line) st = apfst AnswerMany (store_find_all_at_location c path line st)"
| "store_op (OpFindFiltered f limit offset) st = apfst AnswerPage (store_find_filtered f limit offset st)"

primrec sql_op :: "json_codec \<Rightarrow> (string \<Rightarrow> string) \<Rightarrow> repo_op \<Rightarrow> sql_db \<Rightarrow> repo_answer \<times> sql_db" where
  "sql_op codec sha256 (OpSave now m) db = apfst AnswerId (sql_save codec sha256 now m db)"
| "sql_op codec sha256 (OpUpdate now m) db = apfst AnswerUnit (sql_update codec sha256 now m db)"
| "sql_op codec sha256 (OpDelete i) db = apfst AnswerUnit (sql_delete i db)"
| "sql_op codec sha256 (OpFindById i) db = apfst AnswerOne (sql_find_by_id codec i db)"
| "sql_op codec sha256 (OpFindByName n) db = apfst AnswerOne (sql_find_by_name codec n db)"
| "sql_op codec sha256 OpFindAll db = apfst AnswerMany (sql_find_all codec db)"
| "sql_op codec sha256 (OpFindByGroup g) db = apfst AnswerMany (sql_find_by_group codec g db)"
| "sql_op codec sha256 (OpFindByConnection c) db = apfst AnswerMany (sql_find_by_connection_id codec c db)"
| "sql_op codec sha256 (OpFindByLocation c path line owner) db =
     apfst AnswerOne (sql_find_by_location codec c path line owner db)"
| "sql_op codec sha256 (OpFindAllAtLocation c path line) db = apfst AnswerMany (sql_find_all_at_location codec c path line db)"
| "sql_op codec sha256 (OpFindFiltered f limit offset) db = apfst AnswerPage (sql_find_filtered codec f limit offset db)"

text \<open>The answers of a sequence of calls.\<close>

primrec run_ops :: "('op \<Rightarrow> 's \<Rightarrow> 'r \<times> 's) \<Rightarrow> 'op list \<Rightarrow> 's \<Rightarrow> 'r list" where
  "run_ops step [] s = []"
| "run_ops step (x # xs) s = fst (step x s) # run_ops step xs (snd (step x s))"

text \<open>The calls of a sequence are made in states where they are admissible.\<close>

primrec admissible_run :: "('op \<Rightarrow> 's \<Rightarrow> 'r \<times> 's) \<Rightarrow> ('op \<Rightarrow> 's \<Rightarrow> bool) \<Rightarrow> 'op list \<Rightarrow> 's \<Rightarrow> bool" where
  "admissible_run step ok [] s \<longleftrightarrow> True"
| "admissible_run step ok (x # xs) s \<longleftrightarrow> ok x s \<and> admissible_run step ok xs (snd (step x s))"

locale metric_repository =
  fixes step :: "repo_op \<Rightarrow> 'db \<Rightarrow> repo_answer \<times> 'db" and R :: "'db \<Rightarrow> store \<Rightarrow> bool"
    and ok :: "repo_op \<Rightarrow> 'db \<Rightarrow> bool"
  assumes simulates: "R db st \<Longrightarrow> ok x db \<Longrightarrow> rel_prod (=) R (step x db) (store_op x st)"
begin

lemma run_simulates: "R db st \<Longrightarrow> admissible_run step ok xs db \<Longrightarrow> run_ops step xs db = run_ops store_op xs st"
proof (induction xs arbitrary: db st)
  case (Cons x xs)
  have "rel_prod (=) R (step x db) (store_op x st)" using Cons.prems by (intro simulates) simp_all
  then have "fst (step x db) = fst (store_op x st)" "R (snd (step x db)) (snd (store_op x st))"
    by (simp_all add: rel_prod_sel)
  with Cons show ?case by simp
qed simp

end

primrec op_storable :: "repo_op \<Rightarrow> sql_db \<Rightarrow> bool" where
  "op_storable (OpSave now m) db \<longleftrightarrow> loc_file (m_location m) \<noteq> [] \<and> list_all (\<lambda>r. sint (r_created_at r) < sint now) (db_rows db)"
| "op_storable (OpUpdate now m) db \<longleftrightarrow> loc_file (m_location m) \<noteq> []"
| "op_storable (OpDelete i) db \<longleftrightarrow> True"
| "op_storable (OpFindById i) db \<longleftrightarrow> True"
| "op_storable (OpFindByName n) db \<longleftrightarrow> True"
| "op_storable OpFindAll db \<longleftrightarrow> True"
| "op_storable (OpFindByGroup g) db \<longleftrightarrow> True"
| "op_storable (OpFindByConnection c) db \<longleftrightarrow> True"
| "op_storable (OpFindByLocation c path line owner) db \<longleftrightarrow> True"
| "op_storable (OpFindAllAtLocation c path line) db \<longleftrightarrow> True"
| "op_storable (OpFindFiltered f limit offset) db \<longleftrightarrow> True"

lemma apfst_rel: "rel_prod (=) R p q \<Longrightarrow> rel_prod (=) R (apfst f p) (apfst f q)"
  by (cases p; cases q) simp

lemma row_matches_rel: "row_rel codec r m \<Longrightarrow> row_matches f r = filter_matches f m"
  by (simp add: row_matches_def filter_matches_def row_rel_fields split: option.splits)

lemma sql_page_rel: "list_all2 R xs ys \<Longrightarrow> list_all2 R (sql_page limit offset xs) (sql_page limit offset ys)"
  by (simp add: sql_page_def Let_def list_all2_takeI list_all2_dropI)

lemma collect_filtered:
  assumes "list_all2 (row_rel codec) rs ms" "ticks rs" "\<And>r m. row_rel codec r m \<Longrightarrow> P r = Q m"
  shows "collect_rows codec (newest_first (filter P rs)) = Inr (rev (filter Q ms))"
    "collect_rows codec (oldest_first (filter P rs)) = Inr (filter Q ms)"
  using filter_rel[OF assms(1,3)] ticks_filter[OF assms(2), of P]
  by (auto simp: newest_first_ticks oldest_first_ticks intro!: collect_rows_rel)

lemma select_rels:
  assumes rel: "db_rel codec db st"
  shows "rel_prod (=) (db_rel codec) (sql_find_by_id codec i db) (store_find_by_id i st)"
    "rel_prod (=) (db_rel codec) (sql_find_by_name codec n db) (store_find_by_name n st)"
    "rel_prod (=) (db_rel codec) (sql_find_by_location codec c path line owner db) (store_find_by_location c path line owner st)"
    "rel_prod (=) (db_rel codec) (sql_find_all codec db) (store_find_all st)"
    "rel_prod (=) (db_rel codec) (sql_find_by_group codec g db) (store_find_by_group g st)"
    "rel_prod (=) (db_rel codec) (sql_find_by_connection_id codec c db) (store_find_by_connection_id c st)"
    "rel_prod (=) (db_rel codec) (sql_find_all_at_location codec c path line db) (store_find_all_at_location c path line st)"
    "rel_prod (=) (db_rel codec) (sql_find_filtered codec f limit offset db) (store_find_filtered f limit offset st)"
  unfolding sql_find_by_id_def sql_find_by_name_def sql_find_by_location_def sql_find_all_def sql_find_by_group_def
    sql_find_by_connection_id_def sql_find_all_at_location_def sql_find_filtered_def store_find_defs
  subgoal by (intro select_rel[OF rel] optional_row_rel find_rel) (auto simp: row_rel_fields)
  subgoal by (intro select_rel[OF rel] optional_row_rel find_rel) (auto simp: row_rel_fields)
  subgoal by (intro select_rel[OF rel] optional_row_rel find_rel) (auto simp: row_rel_fields at_location_def location_pattern_eq)
  subgoal by (intro select_rel[OF rel] collect_rows_rel) (simp add: newest_first_ticks)
  subgoal by (intro select_rel[OF rel] collect_filtered) (auto simp: row_rel_fields)
  subgoal by (intro select_rel[OF rel] collect_filtered) (auto simp: row_rel_fields)
  subgoal by (intro select_rel[OF rel] collect_filtered) (auto simp: row_rel_fields at_location_def location_pattern_eq)
  subgoal
  proof (rule select_rel[OF rel])
    fix rs ms assume "list_all2 (row_rel codec) rs ms" "ticks rs"
    then have r: "list_all2 (row_rel codec) (filter (row_matches f) rs) (filter (filter_matches f) ms)" "ticks (filter (row_matches f) rs)"
      by (auto intro: ticks_filter filter_rel[OF _ row_matches_rel])
    then show "(let found = filter (row_matches f) rs in
       try_bind (collect_rows codec (sql_page limit offset (newest_first found))) (\<lambda>ms. Inr (ms, word_of_nat (length found)))) =
      Inr (let found = rev (filter (filter_matches f) ms) in (sql_page limit offset found, word_of_nat (length found)))"
      using list_all2_lengthD[OF r(1)] collect_rows_rel[OF sql_page_rel[of "row_rel codec" "rev (filter (row_matches f) rs)"
        "rev (filter (filter_matches f) ms)" limit offset]]
      by (simp add: Let_def newest_first_ticks)
  qed
  done

definition sql_rel :: "json_codec \<Rightarrow> sql_db \<Rightarrow> store \<Rightarrow> bool" where
  "sql_rel codec db st \<longleftrightarrow> codec_ok codec \<and> db_rel codec db st \<and> store_wf st"

lemma store_op_wf:
  assumes "store_wf st"
  shows "store_wf (snd (store_op x st))"
proof -
  have q: "store_wf (snd (store_query f st))" for f :: "metric list \<Rightarrow> 'a"
    using assms store_query_table[of f st] by (metis prod.collapse store_wf_cong)
  show ?thesis
    using assms store_wf_save[OF assms] store_wf_update[OF assms] store_wf_delete[OF assms]
    by (cases x) (simp_all add: q store_find_defs, (metis prod.collapse)+)
qed

interpretation sqlite: metric_repository "sql_op codec sha256" "sql_rel codec" op_storable for codec sha256
proof
  fix db st x assume rel: "sql_rel codec db st" and ok: "op_storable x db"
  then have "rel_prod (=) (db_rel codec) (sql_op codec sha256 x db) (store_op x st)"
    by (cases x) (auto simp: sql_rel_def list_all_iff intro!: apfst_rel save_rel update_rel delete_rel select_rels)
  then show "rel_prod (=) (sql_rel codec) (sql_op codec sha256 x db) (store_op x st)"
    using rel store_op_wf[of st x] by (auto simp: sql_rel_def rel_prod_sel)
qed


lemma unreadable_location:
  assumes "loc_file l = []"
  shows "location_parse (to_string_format l) = Inl (InvalidLocation ''File path cannot be empty'')"
proof -
  have "rsplit_once CHR ''#'' ([] @ CHR ''#'' # show_nat (unat (loc_line l))) = Some ([], show_nat (unat (loc_line l)))"
    by (intro rsplit_once_last digit_not_hash show_nat_digits)
  then show ?thesis
    using assms trim_located[of "[]" "unat (loc_line l)"]
    by (simp add: location_parse_def to_string_format_def strip_prefix_def parse_unsigned_show_word)
qed

lemma collect_rows_unreadable:
  "r \<in> set rs \<Longrightarrow> \<exists>e. row_to_metric codec r = Inl e \<Longrightarrow> \<exists>e. collect_rows codec rs = Inl e"
  by (induction rs) (auto simp: try_bind_def split: sum.splits)


section \<open>Properties\<close>

definition db_empty :: "string option list \<Rightarrow> sql_db" where
  "db_empty faults = \<lparr>db_rows = [], db_next_id = 1, db_faults = faults\<rparr>"

text \<open>C2: the SQL repository implements the abstract table: started empty, a sequence of saves, updates,
  deletions and queries gets the same answers from both, call by call and with the same pattern of database
  failures, if the metrics have a file name, the clock advances between saves and the JSON package reads back
  what it writes.\<close>

theorem sqlite_implements_store:
  assumes "codec_ok codec" "admissible_run (sql_op codec sha256) op_storable ops (db_empty faults)"
  shows "run_ops (sql_op codec sha256) ops (db_empty faults) = run_ops store_op ops (store_empty faults)"
proof (rule sqlite.run_simulates[OF _ assms(2)])
  show "sql_rel codec (db_empty faults) (store_empty faults)"
    using assms(1) store_wf_empty[of faults]
    by (simp add: sql_rel_def db_rel_def db_empty_def store_empty_def ticks_def)
qed

text \<open>A sample codec: a letter before every character and one after every text.\<close>

definition sample_text :: "string \<Rightarrow> string" where
  "sample_text s = concat (map (\<lambda>c. [CHR ''c'', c]) s) @ ''e''"

fun sample_texts_of :: "string \<Rightarrow> string \<Rightarrow> string list" where
  "sample_texts_of acc [] = []"
| "sample_texts_of acc [k] = (if k = CHR ''e'' then [rev acc] else [])"
| "sample_texts_of acc (k # c # s) =
     (if k = CHR ''e'' then rev acc # sample_texts_of [] (c # s) else sample_texts_of (c # acc) s)"

definition sample_number :: "string \<Rightarrow> string \<Rightarrow> string + u64 option" where
  "sample_number s key =
     (case strip_prefix (''{'' @ [CHR 0x22] @ key @ [CHR 0x22] @ '':'') s of
        None \<Rightarrow> Inr None
      | Some rest \<Rightarrow> Inr (parse_unsigned (butlast rest)))"

definition sample_codec :: json_codec where
  "sample_codec = \<lparr>jc_expressions = (\<lambda>es. concat (map sample_text es)), jc_parse_expressions = (\<lambda>s. Inr (sample_texts_of [] s)),
     jc_slice = (\<lambda>x. concat (map sample_text [if slice_full x then ''f'' else [],
       (case slice_head x of None \<Rightarrow> [] | Some n \<Rightarrow> show_nat (unat n)),
       (case slice_tail x of None \<Rightarrow> [] | Some n \<Rightarrow> show_nat (unat n))])),
     jc_parse_slice = (\<lambda>s. case sample_texts_of [] s of
        [a, b, c] \<Rightarrow> Some \<lparr>slice_full = (a = ''f''), slice_head = parse_unsigned b, slice_tail = parse_unsigned c\<rparr>
      | _ \<Rightarrow> None),
     jc_number_field = sample_number\<rparr>"

lemma sample_texts_of_text: "sample_texts_of acc (sample_text s @ t) = (rev acc @ s) # sample_texts_of [] t"
  by (induction s arbitrary: acc) (cases t, auto simp: sample_text_def)

lemma sample_texts_of_texts: "sample_texts_of [] (concat (map sample_text es)) = es"
  by (induction es) (simp_all add: sample_texts_of_text)

lemma sample_codec_ok: "codec_ok sample_codec"
proof -
  have no_number: "parse_unsigned [] = None" by (simp add: parse_unsigned_def)
  have slice: "jc_parse_slice sample_codec (jc_slice sample_codec x) = Some x" for x
    unfolding sample_codec_def json_codec.simps sample_texts_of_texts
    by (cases x) (auto simp: parse_unsigned_show_word no_number split: option.splits)
  have number: "sample_number (json_number key n) key = Inr (Some (ucast n))" for key n
  proof -
    have "json_number key n = (''{'' @ [CHR 0x22] @ key @ [CHR 0x22] @ '':'') @ show_nat (unat n) @ ''}''"
      by (simp add: json_number_def)
    moreover have "parse_unsigned (show_nat (unat n)) = Some (ucast n :: u64)"
    proof -
      have "unat n < 2 ^ LENGTH(32)" by (rule unsigned_less)
      then have "unat (ucast n :: u64) = unat n" by (simp add: unsigned_ucast_eq take_bit_nat_eq_self)
      then show ?thesis using parse_unsigned_show_word[of "ucast n :: u64"] by simp
    qed
    ultimately show ?thesis
      by (simp only: sample_number_def strip_prefix_append option.case butlast_append) (simp add: butlast_append)
  qed
  show ?thesis
    unfolding codec_ok_def using slice number by (simp add: sample_codec_def sample_texts_of_texts)
qed

theorem sqlite_implements_store_witness:
  "run_ops (sql_op sample_codec (\<lambda>x. x)) [OpSave 5 sample_metric, OpDelete 7, OpSave 9 sample_metric, OpFindAll] (db_empty []) =
   run_ops store_op [OpSave 5 sample_metric, OpDelete 7, OpSave 9 sample_metric, OpFindAll] (store_empty [])"
  by (rule sqlite_implements_store[OF sample_codec_ok])
    (simp add: sql_save_def sql_delete_def sql_call_def db_empty_def sample_metric_def ROWID_LIMIT_def metric_to_row_def Let_def)

text \<open>C30: a metric with an empty file name can be saved, and its row then makes every listing of all
  metrics fail, of all users, because the row cannot be read back.\<close>

theorem empty_file_breaks_listing:
  assumes "sql_save codec sha256 now m db = (Inr i, db')" "loc_file (m_location m) = []" "db_faults db' = []"
  shows "\<exists>e. sql_find_all codec db' = (Inl e, db')"
proof -
  let ?row = "metric_to_row codec sha256 now i m"
  have "?row \<in> set (db_rows db')"
    using assms(1) by (auto simp: sql_save_def Let_def split: prod.splits option.splits if_splits)
  then have "?row \<in> set (newest_first (db_rows db'))" by (simp add: newest_first_def)
  moreover have "\<exists>e. row_to_metric codec ?row = Inl e"
    using assms(2) unreadable_location[of "m_location m"]
    by (auto simp: row_to_metric_def metric_to_row_def split: sum.splits)
  ultimately have "\<exists>e. collect_rows codec (newest_first (db_rows db')) = Inl e"
    by (rule collect_rows_unreadable)
  then show ?thesis using assms(3) by (auto simp: sql_find_all_def sql_select_def sql_call_def)
qed

theorem empty_file_breaks_listing_witness:
  "\<exists>e db'. sql_save sample_codec (\<lambda>x. x) 5 (sample_metric\<lparr>m_location := \<lparr>loc_file = [], loc_line = 3\<rparr>\<rparr>) (db_empty []) = (Inr 1, db') \<and>
     sql_find_all sample_codec db' = (Inl e, db')"
  using empty_file_breaks_listing[of sample_codec "\<lambda>x. x" 5 "sample_metric\<lparr>m_location := \<lparr>loc_file = [], loc_line = 3\<rparr>\<rparr>" "db_empty []" 1]
  by (simp add: sql_save_def sql_call_def db_empty_def ROWID_LIMIT_def Let_def)

end
