(* ===== verification/Rust_Bytes.thy ===== *)
theory Rust_Bytes
  imports Detrix_Prelude
begin

text \<open>
  Byte sequences: the UTF-8 check of the standard library, texts as bytes, and the little-endian form
  of unsigned integers with its two inverse laws.
\<close>


section \<open>UTF-8\<close>

definition continuation_byte :: "char \<Rightarrow> bool" where
  "continuation_byte c \<longleftrightarrow> 0x80 \<le> byte_of c \<and> byte_of c < 0xC0"

text \<open>The byte sequences that \<open>str::from_utf8\<close> accepts.\<close>

fun valid_utf8 :: "string \<Rightarrow> bool" where
  "valid_utf8 [] = True"
| "valid_utf8 (a # s) =
     (if byte_of a < 0x80 then valid_utf8 s
      else if 0xC2 \<le> byte_of a \<and> byte_of a < 0xE0 then
        (case s of b # t \<Rightarrow> continuation_byte b \<and> valid_utf8 t | _ \<Rightarrow> False)
      else if 0xE0 \<le> byte_of a \<and> byte_of a < 0xF0 then
        (case s of b # c # t \<Rightarrow> continuation_byte b \<and> continuation_byte c \<and>
            (byte_of a = 0xE0 \<longrightarrow> 0xA0 \<le> byte_of b) \<and> (byte_of a = 0xED \<longrightarrow> byte_of b < 0xA0) \<and> valid_utf8 t
         | _ \<Rightarrow> False)
      else if 0xF0 \<le> byte_of a \<and> byte_of a < 0xF5 then
        (case s of b # c # d # t \<Rightarrow> continuation_byte b \<and> continuation_byte c \<and> continuation_byte d \<and>
            (byte_of a = 0xF0 \<longrightarrow> 0x90 \<le> byte_of b) \<and> (byte_of a = 0xF4 \<longrightarrow> byte_of b < 0x90) \<and> valid_utf8 t
         | _ \<Rightarrow> False)
      else False)"


section \<open>Texts as bytes\<close>

definition as_bytes :: "string \<Rightarrow> u8 list" where
  "as_bytes s = map (\<lambda>c. word_of_nat (byte_of c)) s"

definition text_of :: "u8 list \<Rightarrow> string" where
  "text_of bs = map (\<lambda>b. char_of (unat b)) bs"

lemma unat_u8_less: "unat (b :: u8) < 256"
  using unsigned_less[of b, where ?'a = nat] by simp

lemma unat_byte [simp]: "unat (word_of_nat (byte_of c) :: u8) = byte_of c"
  using byte_of_less[of c] by (simp add: unat_of_nat take_bit_nat_eq_self del: byte_of_less)

lemma text_of_as_bytes [simp]: "text_of (as_bytes s) = s"
  by (induction s) (simp_all add: text_of_def as_bytes_def, simp add: byte_of_def)

lemma as_bytes_text_of [simp]: "as_bytes (text_of bs) = bs"
proof -
  have "byte_of (char_of (unat b)) = unat b" for b :: u8
    using unat_u8_less[of b] by (simp add: byte_of_def)
  then show ?thesis by (induction bs) (simp_all add: text_of_def as_bytes_def)
qed

lemma length_as_bytes [simp]: "length (as_bytes s) = length s" "length (text_of bs) = length bs"
  by (simp_all add: as_bytes_def text_of_def)

text \<open>\<open>String::from_utf8\<close>.\<close>

definition from_utf8 :: "u8 list \<Rightarrow> string option" where
  "from_utf8 bs = (if valid_utf8 (text_of bs) then Some (text_of bs) else None)"


section \<open>Little-endian integers\<close>

primrec le_value :: "u8 list \<Rightarrow> nat" where
  "le_value [] = 0"
| "le_value (b # bs) = unat b + 256 * le_value bs"

primrec le_bytes :: "nat \<Rightarrow> nat \<Rightarrow> u8 list" where
  "le_bytes 0 k = []"
| "le_bytes (Suc n) k = word_of_nat (k mod 256) # le_bytes n (k div 256)"

lemma le_bytes_numeral:
  "le_bytes (numeral n) k = word_of_nat (k mod 256) # le_bytes (pred_numeral n) (k div 256)"
  by (simp only: numeral_eq_Suc[of n] le_bytes.simps)

definition from_le_bytes :: "u8 list \<Rightarrow> 'a::len word" where
  "from_le_bytes bs = word_of_nat (le_value bs)"

definition to_le_bytes :: "'a::len word \<Rightarrow> u8 list" where
  "to_le_bytes w = le_bytes (LENGTH('a) div 8) (unat w)"

lemma length_le_bytes [simp]: "length (le_bytes n k) = n"
  by (induction n arbitrary: k) simp_all

lemma length_to_le_bytes [simp]: "length (to_le_bytes (w :: 'a::len word)) = LENGTH('a) div 8"
  by (simp add: to_le_bytes_def)

lemma unat_byte_mod [simp]: "unat (word_of_nat (k mod 256) :: u8) = k mod 256"
  by (simp add: unat_of_nat take_bit_nat_eq_self)

lemma le_value_bytes: "le_value (le_bytes n k) = k mod 256 ^ n"
  by (induction n arbitrary: k) (simp_all add: mod_mult2_eq mult.commute)

lemma le_bytes_value: "le_bytes (length bs) (le_value bs) = bs"
proof (induction bs)
  case (Cons b bs)
  show ?case using Cons unat_u8_less[of b] by simp
qed simp

lemma le_value_less: "le_value bs < 256 ^ length bs"
proof (induction bs)
  case (Cons b bs)
  show ?case using Cons unat_u8_less[of b] by simp
qed simp

lemma power_256: "256 ^ n = (2 :: nat) ^ (8 * n)"
  by (simp add: power_mult)

lemma unat_from_le_bytes:
  assumes "8 * length bs \<le> LENGTH('a)"
  shows "unat (from_le_bytes bs :: 'a::len word) = le_value bs"
proof -
  have "le_value bs < 2 ^ (8 * length bs)" using le_value_less[of bs] by (simp add: power_256)
  also have "\<dots> \<le> 2 ^ LENGTH('a)" using assms by simp
  finally show ?thesis by (simp add: from_le_bytes_def unat_of_nat take_bit_nat_eq_self)
qed

lemma from_to_le_bytes [simp]:
  assumes "8 dvd LENGTH('a)"
  shows "from_le_bytes (to_le_bytes w) = (w :: 'a::len word)"
proof -
  have "unat w mod 256 ^ (LENGTH('a) div 8) = unat w"
    using assms unsigned_less[of w] by (simp add: power_256)
  then show ?thesis by (simp add: from_le_bytes_def to_le_bytes_def le_value_bytes)
qed

lemma to_from_le_bytes [simp]:
  assumes "8 * length bs = LENGTH('a)"
  shows "to_le_bytes (from_le_bytes bs :: 'a::len word) = bs"
proof -
  have "LENGTH('a) div 8 = length bs" using assms by linarith
  then show ?thesis using assms unat_from_le_bytes[of bs, where ?'a = 'a] by (simp add: to_le_bytes_def le_bytes_value)
qed

text \<open>\<open>get\<close> with a range of bytes.\<close>

definition slice_get :: "nat \<Rightarrow> nat \<Rightarrow> 'a list \<Rightarrow> 'a list option" where
  "slice_get i j xs = (if i \<le> j \<and> j \<le> length xs then Some (take (j - i) (drop i xs)) else None)"

lemma length_slice_get: "slice_get i j xs = Some ys \<Longrightarrow> length ys = j - i"
  by (auto simp: slice_get_def split: if_splits)

text \<open>\<open>checked_add\<close> on \<open>usize\<close>; a \<open>usize\<close> is a natural number below \<open>2 ^ 64\<close>.\<close>

definition checked_add :: "nat \<Rightarrow> nat \<Rightarrow> nat option" where
  "checked_add a b = (if a + b < 2 ^ 64 then Some (a + b) else None)"

lemma checked_add_Some [simp]: "checked_add a b = Some c \<longleftrightarrow> c = a + b \<and> c < 2 ^ 64"
  by (auto simp: checked_add_def)

end
