(* ===== verification/Safety_Analysis.thy ===== *)
theory Safety_Analysis
  imports App_Error Rust_Bytes "HOL-Library.AList" "HOL-Library.List_Lexorder" "HOL-Library.Char_ord"
begin

text \<open>
  The syntactic analysis of expressions (detrix-application, safety/treesitter): the walk over the
  syntax tree, the node handlers of Python, Go and Rust, the strict-mode check, and the cache of
  analysis results. The tree-sitter library is third-party: a parser is a function from the
  text to a tree and whether the tree has a syntax error, and a node is its kind, its byte range
  and its children with their field names. A hash set is the list of its elements without
  repetition, in the order an iteration visits them. SHA-256 is a parameter.
\<close>


section \<open>Syntax trees\<close>

datatype ts_node = TsNode (nd_kind: string) (nd_start: nat) (nd_end: nat)
  (nd_children: "(string option \<times> ts_node) list")

text \<open>The parent of a node and the node's position among the parent's children, which stands for
  the node's identity; the root has none.\<close>

type_synonym node_context = "(ts_node \<times> nat) option"

type_synonym ts_parser = "string \<Rightarrow> (ts_node \<times> bool) option"

primrec first_field :: "string \<Rightarrow> nat \<Rightarrow> (string option \<times> ts_node) list \<Rightarrow> (nat \<times> ts_node) option" where
  "first_field f i [] = None"
| "first_field f i (c # cs) = (if fst c = Some f then Some (i, snd c) else first_field f (Suc i) cs)"

definition child_by_field_name :: "ts_node \<Rightarrow> string \<Rightarrow> ts_node option" where
  "child_by_field_name n f = map_option snd (first_field f 0 (nd_children n))"

definition parent_kind :: "node_context \<Rightarrow> string \<Rightarrow> bool" where
  "parent_kind ctx k = (case ctx of None \<Rightarrow> False | Some (p, _) \<Rightarrow> nd_kind p = k)"

text \<open>The node of the context is the child its parent has under a field name.\<close>

definition is_field_child :: "node_context \<Rightarrow> string \<Rightarrow> bool" where
  "is_field_child ctx f =
     (case ctx of None \<Rightarrow> False | Some (p, i) \<Rightarrow> map_option fst (first_field f 0 (nd_children p)) = Some i)"

text \<open>The byte ranges of a tree lie inside the text it was parsed from, so the slice exists.\<close>

definition node_text :: "string \<Rightarrow> ts_node \<Rightarrow> string" where
  "node_text source n =
     (let t = take (nd_end n - nd_start n) (drop (nd_start n) source) in if valid_utf8 t then t else [])"

fun traverse_tree :: "(node_context \<Rightarrow> ts_node \<Rightarrow> 'r \<Rightarrow> 'r) \<Rightarrow> node_context \<Rightarrow> ts_node \<Rightarrow> 'r \<Rightarrow> 'r"
  and traverse_children ::
    "(node_context \<Rightarrow> ts_node \<Rightarrow> 'r \<Rightarrow> 'r) \<Rightarrow> ts_node \<Rightarrow> nat \<Rightarrow> (string option \<times> ts_node) list \<Rightarrow> 'r \<Rightarrow> 'r" where
  "traverse_tree callback ctx (TsNode k s e cs) r =
     traverse_children callback (TsNode k s e cs) 0 cs (callback ctx (TsNode k s e cs) r)"
| "traverse_children callback p i [] r = r"
| "traverse_children callback p i ((f, c) # cs) r =
     traverse_children callback p (Suc i) cs (traverse_tree callback (Some (p, i)) c r)"


section \<open>Analysis results\<close>

record tree_sitter_result =
  tr_is_safe :: bool
  tr_violations :: "string list"
  tr_function_calls :: "string list"
  tr_variable_accesses :: "string list"
  tr_has_unsafe :: bool

definition tr_safe :: tree_sitter_result where
  "tr_safe = \<lparr>tr_is_safe = True, tr_violations = [], tr_function_calls = [], tr_variable_accesses = [],
     tr_has_unsafe = False\<rparr>"

definition unsafe_with_violations :: "string list \<Rightarrow> tree_sitter_result" where
  "unsafe_with_violations vs = \<lparr>tr_is_safe = False, tr_violations = vs, tr_function_calls = [],
     tr_variable_accesses = [], tr_has_unsafe = False\<rparr>"

definition add_violation :: "string \<Rightarrow> tree_sitter_result \<Rightarrow> tree_sitter_result" where
  "add_violation v r = r\<lparr>tr_is_safe := False, tr_violations := tr_violations r @ [v]\<rparr>"

definition add_function_call :: "string \<Rightarrow> tree_sitter_result \<Rightarrow> tree_sitter_result" where
  "add_function_call f r = r\<lparr>tr_function_calls := List.insert f (tr_function_calls r)\<rparr>"

definition add_variable_access :: "string \<Rightarrow> tree_sitter_result \<Rightarrow> tree_sitter_result" where
  "add_variable_access x r = r\<lparr>tr_variable_accesses := List.insert x (tr_variable_accesses r)\<rparr>"

definition check_strict_mode_violations ::
  "string list \<Rightarrow> (string \<Rightarrow> string list) \<Rightarrow> tree_sitter_result \<Rightarrow> tree_sitter_result" where
  "check_strict_mode_violations allowed extract_base_name r =
     (let non_whitelisted = filter (\<lambda>f. f \<notin> set allowed \<and>
            \<not> list_ex (\<lambda>n. n \<in> set allowed) (extract_base_name f)) (tr_function_calls r) in
      fold (\<lambda>f. add_violation (''Non-whitelisted function call '' @ quoted f @ '' in strict mode''))
        non_whitelisted r)"

definition extract_simple_base_name :: "string \<Rightarrow> string list" where
  "extract_simple_base_name f = [last (split_char (CHR ''.'') f)]"

text \<open>The part after the last occurrence of a separator, the first piece of \<open>rsplit\<close>.\<close>

definition after_last_str :: "string \<Rightarrow> string \<Rightarrow> string" where
  "after_last_str sep s =
     (case split_once_str (rev sep) (rev s) of None \<Rightarrow> s | Some (a, _) \<Rightarrow> rev a)"

definition before_first_str :: "string \<Rightarrow> string \<Rightarrow> string" where
  "before_first_str sep s = (case split_once_str sep s of None \<Rightarrow> s | Some (a, _) \<Rightarrow> a)"

definition extract_rust_base_name :: "string \<Rightarrow> string list" where
  "extract_rust_base_name f =
     (let without_turbofish = before_first_str ''::<'' f;
          after_path = after_last_str ''::'' without_turbofish;
          base_name = last (split_char (CHR ''.'') after_path);
          base_name = before_first_str ''('' base_name in
      if base_name \<noteq> [] \<and> last base_name = CHR 0x21 then [base_name, butlast base_name] else [base_name])"


section \<open>Node handlers\<close>

definition extract_function_name :: "string \<Rightarrow> ts_node \<Rightarrow> string" where
  "extract_function_name source n = node_text source n"

definition analyze_python_node ::
  "string \<Rightarrow> node_context \<Rightarrow> ts_node \<Rightarrow> tree_sitter_result \<Rightarrow> tree_sitter_result" where
  "analyze_python_node source ctx n r =
     (let text = node_text source n in
      if nd_kind n \<in> {''assignment'', ''augmented_assignment'', ''annotated_assignment''} then
        add_violation (''Assignment detected: '' @ quoted text) r
      else if nd_kind n = ''delete_statement'' then
        add_violation (''Delete statement detected: '' @ quoted text) r
      else if nd_kind n \<in> {''import_statement'', ''import_from_statement''} then
        add_violation (''Import statement detected: '' @ quoted text) r
      else if nd_kind n \<in> {''global_statement'', ''nonlocal_statement''} then
        add_violation (''Global/nonlocal statement detected: '' @ quoted text) r
      else if nd_kind n = ''call'' then
        (case child_by_field_name n ''function'' of
           Some func_node \<Rightarrow> add_function_call (extract_function_name source func_node) r
         | None \<Rightarrow> r)
      else if nd_kind n = ''identifier'' then
        (if parent_kind ctx ''call'' \<and> is_field_child ctx ''function'' then r
         else if parent_kind ctx ''attribute'' then r
         else if text \<noteq> [] then add_variable_access text r else r)
      else if nd_kind n = ''attribute'' then
        (if parent_kind ctx ''call'' \<and> is_field_child ctx ''function'' then r
         else add_variable_access text r)
      else r)"

definition extract_go_function_name :: "string \<Rightarrow> ts_node \<Rightarrow> string" where
  "extract_go_function_name source n = node_text source n"

definition analyze_go_node ::
  "string \<Rightarrow> node_context \<Rightarrow> ts_node \<Rightarrow> tree_sitter_result \<Rightarrow> tree_sitter_result" where
  "analyze_go_node source ctx n r =
     (let text = node_text source n in
      if nd_kind n = ''assignment_statement'' then
        (if prefix ''_ ='' text then r else add_violation (''Assignment detected: '' @ quoted text) r)
      else if nd_kind n = ''short_var_declaration'' then
        add_violation (''Short variable declaration detected: '' @ quoted text) r
      else if nd_kind n \<in> {''inc_statement'', ''dec_statement''} then
        add_violation (''Increment/decrement detected: '' @ quoted text) r
      else if nd_kind n = ''go_statement'' then
        add_violation (''Goroutine detected: '' @ quoted text) r
      else if nd_kind n = ''defer_statement'' then
        add_violation (''Defer statement detected: '' @ quoted text) r
      else if nd_kind n = ''send_statement'' then
        add_violation (''Channel send detected: '' @ quoted text) r
      else if nd_kind n = ''call_expression'' then
        (case child_by_field_name n ''function'' of
           Some func_node \<Rightarrow> add_function_call (extract_go_function_name source func_node) r
         | None \<Rightarrow> r)
      else if nd_kind n = ''identifier'' then
        (if parent_kind ctx ''call_expression'' \<and> is_field_child ctx ''function'' then r
         else if parent_kind ctx ''selector_expression'' then r
         else if parent_kind ctx ''package_clause'' \<or> parent_kind ctx ''function_declaration'' then r
         else if text \<noteq> ''_'' \<and> text \<noteq> ''main'' then add_variable_access text r else r)
      else if nd_kind n = ''selector_expression'' then
        (if parent_kind ctx ''call_expression'' \<and> is_field_child ctx ''function'' then r
         else add_variable_access text r)
      else r)"

definition extract_rust_function_name :: "string \<Rightarrow> ts_node \<Rightarrow> string" where
  "extract_rust_function_name source n = node_text source n"

definition analyze_rust_node ::
  "string \<Rightarrow> node_context \<Rightarrow> ts_node \<Rightarrow> tree_sitter_result \<Rightarrow> tree_sitter_result" where
  "analyze_rust_node source ctx n r =
     (let text = node_text source n in
      if nd_kind n = ''assignment_expression'' then
        add_violation (''Assignment detected: '' @ quoted text) r
      else if nd_kind n = ''compound_assignment_expr'' then
        add_violation (''Compound assignment detected: '' @ quoted text) r
      else if nd_kind n = ''unsafe_block'' then
        add_violation (''Unsafe block detected: '' @ quoted text) (r\<lparr>tr_has_unsafe := True\<rparr>)
      else if nd_kind n = ''call_expression'' then
        (case child_by_field_name n ''function'' of
           Some func_node \<Rightarrow> add_function_call (extract_rust_function_name source func_node) r
         | None \<Rightarrow> r)
      else if nd_kind n = ''method_call_expression'' then
        (case child_by_field_name n ''name'' of
           Some method_node \<Rightarrow>
             (case child_by_field_name n ''receiver'' of
                Some receiver \<Rightarrow>
                  add_function_call (node_text source receiver @ ''.'' @ node_text source method_node) r
              | None \<Rightarrow> add_function_call (node_text source method_node) r)
         | None \<Rightarrow> r)
      else if nd_kind n = ''macro_invocation'' then
        (case child_by_field_name n ''macro'' of
           Some macro_node \<Rightarrow> add_function_call (node_text source macro_node @ ''!'') r
         | None \<Rightarrow> r)
      else if nd_kind n = ''identifier'' then
        (if parent_kind ctx ''call_expression'' \<and> is_field_child ctx ''function'' then r
         else if parent_kind ctx ''scoped_identifier'' \<or> parent_kind ctx ''field_expression'' \<or>
           parent_kind ctx ''method_call_expression'' then r
         else if (parent_kind ctx ''function_item'' \<or> parent_kind ctx ''let_declaration'') \<and>
           (text = ''main'' \<or> text = ''_'') then r
         else if text \<noteq> [] \<and> text \<noteq> ''_'' \<and> text \<noteq> ''main'' then add_variable_access text r else r)
      else if nd_kind n = ''field_expression'' then
        (if parent_kind ctx ''method_call_expression'' \<and> is_field_child ctx ''receiver'' then r
         else add_variable_access text r)
      else if nd_kind n = ''scoped_identifier'' then
        (if parent_kind ctx ''call_expression'' \<and> is_field_child ctx ''function'' then r
         else add_variable_access text r)
      else r)"


section \<open>Analysis of one expression\<close>

definition parse_and_analyze ::
  "string \<Rightarrow> string \<Rightarrow> string \<Rightarrow> safety_level \<Rightarrow> string list \<Rightarrow>
   (string \<Rightarrow> node_context \<Rightarrow> ts_node \<Rightarrow> tree_sitter_result \<Rightarrow> tree_sitter_result) \<Rightarrow>
   (string \<Rightarrow> string list) \<Rightarrow> ts_parser \<Rightarrow> tree_sitter_result" where
  "parse_and_analyze source parse_fail_msg syntax_err_msg safety_level allowed analyze_node extract_base parser =
     (case parser source of
        None \<Rightarrow> unsafe_with_violations [parse_fail_msg]
      | Some (root, has_error) \<Rightarrow>
          if has_error then unsafe_with_violations [syntax_err_msg]
          else
            (let result = traverse_tree (analyze_node source) None root tr_safe in
             if safety_level = Strict then check_strict_mode_violations allowed extract_base result
             else result))"

definition analyze_python_uncached :: "ts_parser \<Rightarrow> string \<Rightarrow> safety_level \<Rightarrow> string list \<Rightarrow> tree_sitter_result" where
  "analyze_python_uncached parser e lvl allowed =
     parse_and_analyze e ''Failed to parse Python expression'' ''Syntax error in Python expression''
       lvl allowed analyze_python_node extract_simple_base_name parser"

definition analyze_go_uncached :: "ts_parser \<Rightarrow> string \<Rightarrow> safety_level \<Rightarrow> string list \<Rightarrow> tree_sitter_result" where
  "analyze_go_uncached parser e lvl allowed =
     parse_and_analyze (''package main'' @ [CHR 0x0A] @ ''func main() { _ = '' @ e @ '' }'')
       ''Failed to parse Go expression'' ''Syntax error in Go expression''
       lvl allowed analyze_go_node extract_simple_base_name parser"

definition analyze_rust_uncached :: "ts_parser \<Rightarrow> string \<Rightarrow> safety_level \<Rightarrow> string list \<Rightarrow> tree_sitter_result" where
  "analyze_rust_uncached parser e lvl allowed =
     parse_and_analyze (''fn main() { let _ = '' @ e @ ''; }'')
       ''Failed to parse Rust expression'' ''Syntax error in Rust expression''
       lvl allowed analyze_rust_node extract_rust_base_name parser"


section \<open>Cache of analysis results\<close>

record ast_cache_entry =
  ae_result :: tree_sitter_result
  ae_last_access :: u64

record tree_sitter_cache =
  ac_cache :: "(string \<times> ast_cache_entry) list"
  ac_max_entries :: nat
  ac_hits :: u64
  ac_misses :: u64

definition ast_cache_new :: "nat \<Rightarrow> tree_sitter_cache" where
  "ast_cache_new max_entries =
     \<lparr>ac_cache = [], ac_max_entries = max_entries, ac_hits = 0, ac_misses = 0\<rparr>"

primrec safety_level_byte :: "safety_level \<Rightarrow> char" where
  "safety_level_byte Strict = CHR 0x00"
| "safety_level_byte Trusted = CHR 0x01"

text \<open>The bytes that the hasher is given, in the order of the updates.\<close>

definition key_text :: "string \<Rightarrow> string \<Rightarrow> safety_level \<Rightarrow> string list \<Rightarrow> string" where
  "key_text e lang lvl allowed =
     e @ lang @ [safety_level_byte lvl] @ (if lvl = Strict then concat (sort allowed) else [])"

definition make_key :: "(string \<Rightarrow> string) \<Rightarrow> string \<Rightarrow> string \<Rightarrow> safety_level \<Rightarrow> string list \<Rightarrow> string" where
  "make_key sha256 e lang lvl allowed = hex_string (take 16 (sha256 (key_text e lang lvl allowed)))"

definition access_counter :: "tree_sitter_cache \<Rightarrow> u64" where
  "access_counter c = ac_hits c + ac_misses c"

definition evict_oldest :: "tree_sitter_cache \<Rightarrow> tree_sitter_cache" where
  "evict_oldest c =
     (let evict_count = ac_max_entries c div 10 in
      if evict_count = 0 then c
      else
        (let entries = sort_key snd (map (\<lambda>(k, e). (k, ae_last_access e)) (ac_cache c)) in
         fold (\<lambda>(k, _) c. c\<lparr>ac_cache := AList.delete k (ac_cache c)\<rparr>) (take evict_count entries) c))"

definition get_or_insert ::
  "string \<Rightarrow> tree_sitter_result \<Rightarrow> tree_sitter_cache \<Rightarrow> tree_sitter_result \<times> tree_sitter_cache" where
  "get_or_insert key computed c =
     (case map_of (ac_cache c) key of
        Some entry \<Rightarrow>
          (let c = c\<lparr>ac_hits := ac_hits c + 1\<rparr> in
           (ae_result entry,
            c\<lparr>ac_cache := AList.update key (entry\<lparr>ae_last_access := access_counter c\<rparr>) (ac_cache c)\<rparr>))
      | None \<Rightarrow>
          (let c = c\<lparr>ac_misses := ac_misses c + 1\<rparr>;
               c = (if ac_max_entries c \<le> length (ac_cache c) then evict_oldest c else c) in
           (computed,
            c\<lparr>ac_cache := AList.update key \<lparr>ae_result = computed, ae_last_access = access_counter c\<rparr>
               (ac_cache c)\<rparr>)))"

definition ast_cache_clear :: "tree_sitter_cache \<Rightarrow> tree_sitter_cache" where
  "ast_cache_clear c = c\<lparr>ac_cache := [], ac_hits := 0, ac_misses := 0\<rparr>"

definition cached_analysis ::
  "(string \<Rightarrow> string) \<Rightarrow> string \<Rightarrow> safety_level \<Rightarrow> string list \<Rightarrow> string \<Rightarrow> tree_sitter_result \<Rightarrow>
   tree_sitter_cache \<Rightarrow> tree_sitter_result \<times> tree_sitter_cache" where
  "cached_analysis sha256 e lvl allowed lang_key uncached c =
     get_or_insert (make_key sha256 e lang_key lvl allowed) uncached c"

text \<open>The parsers of the three grammars and the hash function, all third-party code.\<close>

record analysis_env =
  py_parser :: ts_parser
  go_parser :: ts_parser
  rs_parser :: ts_parser
  sha256_of :: "string \<Rightarrow> string"

definition analyze_python ::
  "analysis_env \<Rightarrow> string \<Rightarrow> safety_level \<Rightarrow> string list \<Rightarrow> tree_sitter_cache \<Rightarrow>
   tree_sitter_result \<times> tree_sitter_cache" where
  "analyze_python env e lvl allowed =
     cached_analysis (sha256_of env) e lvl allowed ''python'' (analyze_python_uncached (py_parser env) e lvl allowed)"

definition analyze_go ::
  "analysis_env \<Rightarrow> string \<Rightarrow> safety_level \<Rightarrow> string list \<Rightarrow> tree_sitter_cache \<Rightarrow>
   tree_sitter_result \<times> tree_sitter_cache" where
  "analyze_go env e lvl allowed =
     cached_analysis (sha256_of env) e lvl allowed ''go'' (analyze_go_uncached (go_parser env) e lvl allowed)"

definition analyze_rust ::
  "analysis_env \<Rightarrow> string \<Rightarrow> safety_level \<Rightarrow> string list \<Rightarrow> tree_sitter_cache \<Rightarrow>
   tree_sitter_result \<times> tree_sitter_cache" where
  "analyze_rust env e lvl allowed =
     cached_analysis (sha256_of env) e lvl allowed ''rust'' (analyze_rust_uncached (rs_parser env) e lvl allowed)"


section \<open>The walk visits every node\<close>

fun subnodes :: "node_context \<Rightarrow> ts_node \<Rightarrow> (node_context \<times> ts_node) list"
  and subnodes_children :: "ts_node \<Rightarrow> nat \<Rightarrow> (string option \<times> ts_node) list \<Rightarrow> (node_context \<times> ts_node) list" where
  "subnodes ctx (TsNode k s e cs) = (ctx, TsNode k s e cs) # subnodes_children (TsNode k s e cs) 0 cs"
| "subnodes_children p i [] = []"
| "subnodes_children p i ((f, c) # cs) = subnodes (Some (p, i)) c @ subnodes_children p (Suc i) cs"

lemma traverse_fold:
  "traverse_tree callback ctx n r = fold (\<lambda>(ctx, n). callback ctx n) (subnodes ctx n) r"
  "traverse_children callback p i cs r = fold (\<lambda>(ctx, n). callback ctx n) (subnodes_children p i cs) r"
  by (induction callback ctx n r and callback p i cs r rule: traverse_tree_traverse_children.induct) simp_all

text \<open>What one result adds to another.\<close>

definition tr_merge :: "tree_sitter_result \<Rightarrow> tree_sitter_result \<Rightarrow> tree_sitter_result" where
  "tr_merge r d = r\<lparr>tr_is_safe := tr_is_safe r \<and> tr_is_safe d, tr_violations := tr_violations r @ tr_violations d,
     tr_function_calls := fold List.insert (tr_function_calls d) (tr_function_calls r),
     tr_variable_accesses := fold List.insert (tr_variable_accesses d) (tr_variable_accesses r),
     tr_has_unsafe := tr_has_unsafe r \<or> tr_has_unsafe d\<rparr>"

lemmas tr_defs = tr_safe_def unsafe_with_violations_def add_violation_def add_function_call_def
  add_variable_access_def tr_merge_def

text \<open>A result is marked safe exactly when it reports no violation.\<close>

definition tr_ok :: "tree_sitter_result \<Rightarrow> bool" where
  "tr_ok r \<longleftrightarrow> (tr_is_safe r \<longleftrightarrow> tr_violations r = [])"

lemma tr_merge_add:
  "tr_merge r tr_safe = r"
  "tr_merge r (add_violation v tr_safe) = add_violation v r"
  "tr_merge r (add_violation v (tr_safe\<lparr>tr_has_unsafe := True\<rparr>)) = add_violation v (r\<lparr>tr_has_unsafe := True\<rparr>)"
  "tr_merge r (add_function_call f tr_safe) = add_function_call f r"
  "tr_merge r (add_variable_access x tr_safe) = add_variable_access x r"
  by (simp_all add: tr_defs)

lemma tr_ok_add:
  "tr_ok tr_safe"
  "tr_ok (add_violation v tr_safe)"
  "tr_ok (add_violation v (tr_safe\<lparr>tr_has_unsafe := True\<rparr>))"
  "tr_ok (add_function_call f tr_safe)"
  "tr_ok (add_variable_access x tr_safe)"
  by (simp_all add: tr_defs tr_ok_def)

lemma set_fold_insert [simp]: "set (fold List.insert ys zs) = set ys \<union> set zs"
  by (induction ys arbitrary: zs) auto

lemmas push_merge = if_distrib[where f = "tr_merge r" for r] option.case_distrib[where h = "tr_merge r" for r]
  tr_merge_add

lemmas push_ok = if_distrib[where f = tr_ok] option.case_distrib[where h = tr_ok] tr_ok_add if_cancel
  option.case_eq_if

text \<open>
  The contract of a node handler: what it adds depends on the node alone, and a result is safe
  exactly when nothing was reported. Everything the walk collects follows from it.
\<close>

locale node_handler =
  fixes handle :: "node_context \<Rightarrow> ts_node \<Rightarrow> tree_sitter_result \<Rightarrow> tree_sitter_result"
  assumes additive: "handle ctx n r = tr_merge r (handle ctx n tr_safe)"
    and safe_iff: "tr_ok (handle ctx n tr_safe)"
begin

lemma handle_adds:
  "set (tr_function_calls (handle ctx n r)) =
     set (tr_function_calls r) \<union> set (tr_function_calls (handle ctx n tr_safe))"
  "set (tr_variable_accesses (handle ctx n r)) =
     set (tr_variable_accesses r) \<union> set (tr_variable_accesses (handle ctx n tr_safe))"
  "tr_violations (handle ctx n r) = tr_violations r @ tr_violations (handle ctx n tr_safe)"
  "tr_is_safe (handle ctx n r) \<longleftrightarrow> tr_is_safe r \<and> tr_violations (handle ctx n tr_safe) = []"
  using additive[of ctx n r] safe_iff[of ctx n]
  by (simp_all add: tr_merge_def tr_ok_def Un_commute)

lemma walk_calls:
  "set (tr_function_calls (traverse_tree handle ctx n r)) = set (tr_function_calls r) \<union>
     (\<Union>(ctx, n) \<in> set (subnodes ctx n). set (tr_function_calls (handle ctx n tr_safe)))"
proof -
  have "set (tr_function_calls (fold (\<lambda>(ctx, n). handle ctx n) xs r)) = set (tr_function_calls r) \<union>
     (\<Union>(ctx, n) \<in> set xs. set (tr_function_calls (handle ctx n tr_safe)))" for xs
  proof (induction xs arbitrary: r)
    case (Cons x xs)
    show ?case by (cases x) (auto simp: Cons.IH handle_adds(1)[of _ _ r])
  qed simp
  then show ?thesis by (simp add: traverse_fold)
qed

lemma walk_variables:
  "set (tr_variable_accesses (traverse_tree handle ctx n r)) = set (tr_variable_accesses r) \<union>
     (\<Union>(ctx, n) \<in> set (subnodes ctx n). set (tr_variable_accesses (handle ctx n tr_safe)))"
proof -
  have "set (tr_variable_accesses (fold (\<lambda>(ctx, n). handle ctx n) xs r)) = set (tr_variable_accesses r) \<union>
     (\<Union>(ctx, n) \<in> set xs. set (tr_variable_accesses (handle ctx n tr_safe)))" for xs
  proof (induction xs arbitrary: r)
    case (Cons x xs)
    show ?case by (cases x) (auto simp: Cons.IH handle_adds(2)[of _ _ r])
  qed simp
  then show ?thesis by (simp add: traverse_fold)
qed

lemma walk_safe:
  "tr_is_safe (traverse_tree handle ctx n r) \<longleftrightarrow> tr_is_safe r \<and>
     (\<forall>(ctx, n) \<in> set (subnodes ctx n). tr_violations (handle ctx n tr_safe) = [])"
proof -
  have "tr_is_safe (fold (\<lambda>(ctx, n). handle ctx n) xs r) \<longleftrightarrow> tr_is_safe r \<and>
     (\<forall>(ctx, n) \<in> set xs. tr_violations (handle ctx n tr_safe) = [])" for xs
  proof (induction xs arbitrary: r)
    case (Cons x xs)
    show ?case by (cases x) (auto simp: Cons.IH handle_adds(4)[of _ _ r])
  qed simp
  then show ?thesis by (simp add: traverse_fold)
qed

end

interpretation py: node_handler "analyze_python_node source" for source
  by unfold_locales (simp_all only: analyze_python_node_def Let_def push_merge push_ok)

interpretation golang: node_handler "analyze_go_node source" for source
  by unfold_locales (simp_all only: analyze_go_node_def Let_def push_merge push_ok)

interpretation rs: node_handler "analyze_rust_node source" for source
  by unfold_locales (simp_all only: analyze_rust_node_def Let_def push_merge push_ok)


section \<open>What the analysis finds\<close>

text \<open>
  The reading of a tree that the analysis is meant to compute, for the languages it has: the
  statements that no expression may contain, the name a node calls, and the name a node observes.
\<close>

definition prohibited_node :: "source_language \<Rightarrow> string \<Rightarrow> ts_node \<Rightarrow> bool" where
  "prohibited_node lang source n \<longleftrightarrow>
     (case lang of
        Python \<Rightarrow> nd_kind n \<in> {''assignment'', ''augmented_assignment'', ''annotated_assignment'', ''delete_statement'',
          ''import_statement'', ''import_from_statement'', ''global_statement'', ''nonlocal_statement''}
      | Go \<Rightarrow> nd_kind n = ''assignment_statement'' \<and> \<not> prefix ''_ ='' (node_text source n) \<or>
          nd_kind n \<in> {''short_var_declaration'', ''inc_statement'', ''dec_statement'', ''go_statement'',
            ''defer_statement'', ''send_statement''}
      | _ \<Rightarrow> nd_kind n \<in> {''assignment_expression'', ''compound_assignment_expr'', ''unsafe_block''})"

definition called_name :: "source_language \<Rightarrow> string \<Rightarrow> ts_node \<Rightarrow> string option" where
  "called_name lang source n =
     (if nd_kind n = (if lang = Python then ''call'' else ''call_expression'') then
        map_option (node_text source) (child_by_field_name n ''function'')
      else if lang = Rust \<and> nd_kind n = ''method_call_expression'' then
        map_option (\<lambda>m. (case child_by_field_name n ''receiver'' of
          Some v \<Rightarrow> node_text source v @ ''.'' | None \<Rightarrow> []) @ node_text source m) (child_by_field_name n ''name'')
      else if lang = Rust \<and> nd_kind n = ''macro_invocation'' then
        map_option (\<lambda>m. node_text source m @ ''!'') (child_by_field_name n ''macro'')
      else None)"

text \<open>The node is the function position of a call.\<close>

definition callee :: "source_language \<Rightarrow> node_context \<Rightarrow> bool" where
  "callee lang ctx \<longleftrightarrow>
     parent_kind ctx (if lang = Python then ''call'' else ''call_expression'') \<and> is_field_child ctx ''function''"

text \<open>An access path such as \<open>user.name\<close> that is not called.\<close>

definition observed_path :: "source_language \<Rightarrow> node_context \<Rightarrow> ts_node \<Rightarrow> bool" where
  "observed_path lang ctx n \<longleftrightarrow>
     (case lang of
        Python \<Rightarrow> nd_kind n = ''attribute'' \<and> \<not> callee lang ctx
      | Go \<Rightarrow> nd_kind n = ''selector_expression'' \<and> \<not> callee lang ctx
      | _ \<Rightarrow> nd_kind n = ''scoped_identifier'' \<and> \<not> callee lang ctx \<or>
          nd_kind n = ''field_expression'' \<and>
            \<not> (parent_kind ctx ''method_call_expression'' \<and> is_field_child ctx ''receiver''))"

text \<open>A plain name that is neither called nor part of an access path nor of the wrapper the
  expression was put in.\<close>

definition observed_identifier :: "source_language \<Rightarrow> string \<Rightarrow> node_context \<Rightarrow> ts_node \<Rightarrow> bool" where
  "observed_identifier lang source ctx n \<longleftrightarrow>
     nd_kind n = ''identifier'' \<and> node_text source n \<noteq> [] \<and> \<not> callee lang ctx \<and>
     (case lang of
        Python \<Rightarrow> \<not> parent_kind ctx ''attribute''
      | Go \<Rightarrow> node_text source n \<notin> {''_'', ''main''} \<and> \<not> parent_kind ctx ''selector_expression'' \<and>
          \<not> parent_kind ctx ''package_clause'' \<and> \<not> parent_kind ctx ''function_declaration''
      | _ \<Rightarrow> node_text source n \<notin> {''_'', ''main''} \<and> \<not> parent_kind ctx ''scoped_identifier'' \<and>
          \<not> parent_kind ctx ''field_expression'' \<and> \<not> parent_kind ctx ''method_call_expression'')"

definition node_analyzer ::
  "source_language \<Rightarrow> string \<Rightarrow> node_context \<Rightarrow> ts_node \<Rightarrow> tree_sitter_result \<Rightarrow> tree_sitter_result" where
  "node_analyzer lang = (case lang of Python \<Rightarrow> analyze_python_node | Go \<Rightarrow> analyze_go_node | _ \<Rightarrow> analyze_rust_node)"

interpretation handler: node_handler "node_analyzer lang source" for lang source
  by (cases lang)
    (simp_all add: node_analyzer_def py.node_handler_axioms golang.node_handler_axioms rs.node_handler_axioms)

lemmas reading_defs = prohibited_node_def called_name_def callee_def observed_path_def observed_identifier_def

lemmas handler_defs = node_analyzer_def analyze_python_node_def analyze_go_node_def analyze_rust_node_def Let_def
  extract_function_name_def extract_go_function_name_def extract_rust_function_name_def

lemma handler_finds_call:
  assumes "lang \<in> {Python, Go, Rust}" "called_name lang source n = Some f"
  shows "f \<in> set (tr_function_calls (node_analyzer lang source ctx n tr_safe))"
  using assms unfolding called_name_def
  by (elim insertE emptyE; simp split: if_splits)
    (auto simp: handler_defs add_function_call_def split: option.splits)

lemma handler_finds_prohibited:
  assumes "lang \<in> {Python, Go, Rust}" "prohibited_node lang source n"
  shows "tr_violations (node_analyzer lang source ctx n tr_safe) \<noteq> []"
  using assms unfolding prohibited_node_def
  by (elim insertE emptyE; simp only: source_language.case; elim disjE insertE emptyE conjE)
    (simp_all add: handler_defs add_violation_def)

lemma handler_finds_path:
  assumes "lang \<in> {Python, Go, Rust}" "observed_path lang ctx n"
  shows "node_text source n \<in> set (tr_variable_accesses (node_analyzer lang source ctx n tr_safe))"
  using assms unfolding observed_path_def callee_def
  by (elim insertE emptyE; simp only: source_language.case; elim disjE conjE)
    (auto simp: handler_defs add_variable_access_def)

lemma handler_finds_identifier:
  assumes "lang \<in> {Python, Go, Rust}" "observed_identifier lang source ctx n"
  shows "node_text source n \<in> set (tr_variable_accesses (node_analyzer lang source ctx n tr_safe))"
  using assms unfolding observed_identifier_def callee_def
  by (elim insertE emptyE; simp only: source_language.case; elim conjE)
    (auto simp: handler_defs add_variable_access_def)


section \<open>The analysis of a language, with and without the cache\<close>

definition language_parser :: "analysis_env \<Rightarrow> source_language \<Rightarrow> ts_parser" where
  "language_parser env lang = (case lang of Python \<Rightarrow> py_parser env | Go \<Rightarrow> go_parser env | _ \<Rightarrow> rs_parser env)"

definition wrapped_source :: "source_language \<Rightarrow> string \<Rightarrow> string" where
  "wrapped_source lang e =
     (case lang of Python \<Rightarrow> e
      | Go \<Rightarrow> ''package main'' @ [CHR 0x0A] @ ''func main() { _ = '' @ e @ '' }''
      | _ \<Rightarrow> ''fn main() { let _ = '' @ e @ ''; }'')"

definition strict_names :: "source_language \<Rightarrow> string \<Rightarrow> string list" where
  "strict_names lang = (if lang = Rust then extract_rust_base_name else extract_simple_base_name)"

definition uncached_analysis ::
  "analysis_env \<Rightarrow> source_language \<Rightarrow> string \<Rightarrow> safety_level \<Rightarrow> string list \<Rightarrow> tree_sitter_result" where
  "uncached_analysis env lang e lvl allowed =
     (case lang of Python \<Rightarrow> analyze_python_uncached (py_parser env) e lvl allowed
      | Go \<Rightarrow> analyze_go_uncached (go_parser env) e lvl allowed
      | _ \<Rightarrow> analyze_rust_uncached (rs_parser env) e lvl allowed)"

definition analyze ::
  "analysis_env \<Rightarrow> source_language \<Rightarrow> string \<Rightarrow> safety_level \<Rightarrow> string list \<Rightarrow> tree_sitter_cache \<Rightarrow>
   tree_sitter_result \<times> tree_sitter_cache" where
  "analyze env lang = (case lang of Python \<Rightarrow> analyze_python env | Go \<Rightarrow> analyze_go env | _ \<Rightarrow> analyze_rust env)"

abbreviation "analysed_languages \<equiv> {Python, Go, Rust}"

lemma fold_add_violation:
  "tr_is_safe (fold (\<lambda>f. add_violation (g f)) fs r) \<longleftrightarrow> tr_is_safe r \<and> fs = []"
  "tr_function_calls (fold (\<lambda>f. add_violation (g f)) fs r) = tr_function_calls r"
  "tr_variable_accesses (fold (\<lambda>f. add_violation (g f)) fs r) = tr_variable_accesses r"
  by (induction fs arbitrary: r) (auto simp: add_violation_def)

lemma strict_check_keeps [simp]:
  "tr_function_calls (check_strict_mode_violations allowed names r) = tr_function_calls r"
  "tr_variable_accesses (check_strict_mode_violations allowed names r) = tr_variable_accesses r"
  by (simp_all only: check_strict_mode_violations_def Let_def fold_add_violation)

lemma strict_check_safe:
  "tr_is_safe (check_strict_mode_violations allowed names r) \<longleftrightarrow> tr_is_safe r \<and>
     (\<forall>f \<in> set (tr_function_calls r). f \<in> set allowed \<or> (\<exists>n \<in> set (names f). n \<in> set allowed))"
  by (simp only: check_strict_mode_violations_def Let_def fold_add_violation filter_empty_conv list_ex_iff) blast

lemma uncached_analysis_unfold:
  assumes "lang \<in> analysed_languages"
  shows "\<exists>m\<^sub>1 m\<^sub>2. uncached_analysis env lang e lvl allowed =
    parse_and_analyze (wrapped_source lang e) m\<^sub>1 m\<^sub>2 lvl allowed (node_analyzer lang) (strict_names lang)
      (language_parser env lang)"
  using assms unfolding uncached_analysis_def analyze_python_uncached_def analyze_go_uncached_def
    analyze_rust_uncached_def language_parser_def wrapped_source_def strict_names_def node_analyzer_def
  by (elim insertE emptyE; simp only: source_language.case source_language.distinct if_True if_False refl) blast+

lemma parse_and_analyze_safe:
  assumes "tr_is_safe (parse_and_analyze src m\<^sub>1 m\<^sub>2 lvl allowed h names parser)"
  obtains root where "parser src = Some (root, False)" "tr_is_safe (traverse_tree (h src) None root tr_safe)"
    and "lvl = Strict \<Longrightarrow> tr_is_safe (check_strict_mode_violations allowed names (traverse_tree (h src) None root tr_safe))"
    and "tr_function_calls (parse_and_analyze src m\<^sub>1 m\<^sub>2 lvl allowed h names parser) =
      tr_function_calls (traverse_tree (h src) None root tr_safe)"
    and "tr_variable_accesses (parse_and_analyze src m\<^sub>1 m\<^sub>2 lvl allowed h names parser) =
      tr_variable_accesses (traverse_tree (h src) None root tr_safe)"
  using assms
  by (auto simp: parse_and_analyze_def unsafe_with_violations_def Let_def strict_check_safe
      split: option.splits if_splits)

text \<open>The expression, the language and the level that analyses are asked for; each language has its own
  list of allowed functions.\<close>

type_synonym analysis_request = "source_language \<times> string \<times> safety_level"

primrec analyze_run ::
  "analysis_env \<Rightarrow> (source_language \<Rightarrow> string list) \<Rightarrow> analysis_request list \<Rightarrow> tree_sitter_cache \<Rightarrow>
   tree_sitter_result list \<times> tree_sitter_cache" where
  "analyze_run env allowed_of [] c = ([], c)"
| "analyze_run env allowed_of (q # qs) c =
     (let (r, c) = (case q of (lang, e, lvl) \<Rightarrow> analyze env lang e lvl (allowed_of lang) c);
          (rs, c) = analyze_run env allowed_of qs c in (r # rs, c))"

definition request_text :: "(source_language \<Rightarrow> string list) \<Rightarrow> analysis_request \<Rightarrow> string" where
  "request_text allowed_of q = (case q of (lang, e, lvl) \<Rightarrow> key_text e (lang_as_str lang) lvl (allowed_of lang))"

definition request_answer ::
  "analysis_env \<Rightarrow> (source_language \<Rightarrow> string list) \<Rightarrow> analysis_request \<Rightarrow> tree_sitter_result" where
  "request_answer env allowed_of q = (case q of (lang, e, lvl) \<Rightarrow> uncached_analysis env lang e lvl (allowed_of lang))"

lemma analyze_get_or_insert:
  assumes "lang \<in> analysed_languages"
  shows "analyze env lang e lvl (allowed_of lang) c =
    get_or_insert (hex_string (take 16 (sha256_of env (request_text allowed_of (lang, e, lvl)))))
      (request_answer env allowed_of (lang, e, lvl)) c"
  using assms
  by (auto simp: analyze_def analyze_python_def analyze_go_def analyze_rust_def cached_analysis_def make_key_def
      request_text_def request_answer_def uncached_analysis_def)

lemma last_lang: "lang \<in> analysed_languages \<Longrightarrow> lang' \<in> analysed_languages \<Longrightarrow>
    e @ lang_as_str lang = e' @ lang_as_str lang' \<longleftrightarrow> e = e' \<and> lang = lang'"
proof -
  assume l: "lang \<in> analysed_languages" "lang' \<in> analysed_languages"
  have "last (e @ lang_as_str lang) = last (lang_as_str lang)" "last (e' @ lang_as_str lang') = last (lang_as_str lang')"
    using l by auto
  moreover have "last (lang_as_str lang) = last (lang_as_str lang') \<Longrightarrow> lang = lang'"
    using l by auto
  ultimately show ?thesis by (metis append_same_eq)
qed

lemma request_text_inj:
  assumes "lang \<in> analysed_languages" "lang' \<in> analysed_languages"
    and "CHR 0x00 \<notin> set e" "CHR 0x00 \<notin> set e'"
    and "request_text allowed_of (lang, e, lvl) = request_text allowed_of (lang', e', lvl')"
  shows "lang = lang' \<and> e = e' \<and> lvl = lvl'"
proof -
  have nul: "CHR 0x00 \<notin> set (e @ lang_as_str lang)" "CHR 0x00 \<notin> set (e' @ lang_as_str lang')"
    using assms(1-4) by auto
  have cut: "takeWhile (\<lambda>c. c \<noteq> CHR 0x00) (a @ CHR 0x00 # b) = a" if "CHR 0x00 \<notin> set a" for a b :: string
    using that by (induction a) auto
  have "lvl = lvl'"
    using arg_cong[OF assms(5), of "\<lambda>t. CHR 0x00 \<in> set t"] nul
    by (cases lvl; cases lvl') (auto simp: request_text_def key_text_def)
  moreover have "e @ lang_as_str lang = e' @ lang_as_str lang'"
  proof (cases lvl)
    case Strict
    then show ?thesis
      using arg_cong[OF assms(5), of "takeWhile (\<lambda>c. c \<noteq> CHR 0x00)"] calculation cut[OF nul(1)] cut[OF nul(2)]
      by (simp add: request_text_def key_text_def)
  next
    case Trusted
    then show ?thesis using assms(5) calculation
      by (simp add: request_text_def key_text_def flip: append_assoc)
  qed
  ultimately show ?thesis using last_lang[OF assms(1,2)] by blast
qed


section \<open>The cache is transparent and bounded\<close>

lemma fold_cache_delete:
  "fold (\<lambda>(k, _) c. c\<lparr>ac_cache := AList.delete k (ac_cache c)\<rparr>) es c =
     c\<lparr>ac_cache := filter (\<lambda>e. fst e \<notin> fst ` set es) (ac_cache c)\<rparr>"
proof (induction es arbitrary: c)
  case (Cons x es)
  then show ?case
    by (cases x) (auto simp: AList.delete_eq filter_filter intro!: arg_cong[where f = "\<lambda>xs. c\<lparr>ac_cache := xs\<rparr>"] filter_cong)
qed simp

lemma evict_oldest_cache: "\<exists>P. ac_cache (evict_oldest c) = filter P (ac_cache c)"
  "ac_max_entries (evict_oldest c) = ac_max_entries c"
proof -
  show "\<exists>P. ac_cache (evict_oldest c) = filter P (ac_cache c)"
    by (cases "ac_max_entries c div 10 = 0")
      (auto simp: evict_oldest_def Let_def fold_cache_delete intro: exI[where x = "\<lambda>_. True"])
  show "ac_max_entries (evict_oldest c) = ac_max_entries c"
    by (simp add: evict_oldest_def Let_def fold_cache_delete)
qed

lemma filter_taken_less:
  assumes "fst ` set es = fst ` set cs" "cs \<noteq> []" "0 < n"
  shows "length (filter (\<lambda>e. fst e \<notin> fst ` set (take n es)) cs) < length cs"
proof -
  obtain x xs where es: "es = x # xs" using assms(1,2) by (cases es) auto
  have "fst x \<in> fst ` set cs" using assms(1) by (simp add: es flip: assms(1))
  then obtain y where "y \<in> set cs" "fst y = fst x" by (metis imageE)
  moreover have "x \<in> set (take n es)" using assms(3) by (cases n) (simp_all add: es)
  ultimately show ?thesis by (intro length_filter_less[of y]) auto
qed

lemma evict_oldest_less:
  assumes "10 \<le> ac_max_entries c" "ac_cache c \<noteq> []"
  shows "length (ac_cache (evict_oldest c)) < length (ac_cache c)"
proof -
  have pos: "0 < ac_max_entries c div 10" using assms(1) by (simp add: div_greater_zero_iff)
  have keys: "fst ` set (sort_key snd (map (\<lambda>(k, e). (k, ae_last_access e)) (ac_cache c))) = fst ` set (ac_cache c)"
    by (simp add: image_image case_prod_beta)
  show ?thesis
    using filter_taken_less[OF keys assms(2) pos] pos by (simp add: evict_oldest_def Let_def fold_cache_delete)
qed

lemma get_or_insert_cases:
  obtains (hit) entry where "map_of (ac_cache c) key = Some entry" "fst (get_or_insert key computed c) = ae_result entry"
      "ac_max_entries (snd (get_or_insert key computed c)) = ac_max_entries c"
      "\<exists>t. ac_cache (snd (get_or_insert key computed c)) = AList.update key (entry\<lparr>ae_last_access := t\<rparr>) (ac_cache c)"
  | (miss) cs t where "map_of (ac_cache c) key = None" "fst (get_or_insert key computed c) = computed"
      "ac_max_entries (snd (get_or_insert key computed c)) = ac_max_entries c"
      "cs = (if ac_max_entries c \<le> length (ac_cache c)
         then ac_cache (evict_oldest (c\<lparr>ac_misses := ac_misses c + 1\<rparr>)) else ac_cache c)"
      "ac_cache (snd (get_or_insert key computed c)) =
         AList.update key \<lparr>ae_result = computed, ae_last_access = t\<rparr> cs"
proof (cases "map_of (ac_cache c) key")
  case None
  then show thesis
    by (intro miss) (auto simp: get_or_insert_def Let_def evict_oldest_cache(2))
next
  case (Some entry)
  then show thesis
    by (intro hit) (auto simp: get_or_insert_def Let_def)
qed

text \<open>Every cached result answers one of the requests that were made, under the key of that request.\<close>

definition cache_answers :: "(analysis_request \<Rightarrow> string) \<Rightarrow> (analysis_request \<Rightarrow> tree_sitter_result) \<Rightarrow>
    analysis_request set \<Rightarrow> tree_sitter_cache \<Rightarrow> bool" where
  "cache_answers key ans qs c \<longleftrightarrow>
     (\<forall>(k, e) \<in> set (ac_cache c). \<exists>q \<in> qs. k = key q \<and> ae_result e = ans q)"

lemma cache_answers_step:
  assumes "cache_answers key ans qs c" "q \<in> qs"
  shows "cache_answers key ans qs (snd (get_or_insert (key q) (ans q) c)) \<and>
    (\<exists>q' \<in> qs. key q' = key q \<and> fst (get_or_insert (key q) (ans q) c) = ans q')"
proof -
  have upd: "set (AList.update k v xs) \<subseteq> insert (k, v) (set xs)" for k v and xs :: "(string \<times> ast_cache_entry) list"
    by (induction xs) auto
  have cached: "\<exists>q' \<in> qs. k = key q' \<and> ae_result e = ans q'" if "map_of (ac_cache c) k = Some e" for k e
    using assms(1) map_of_SomeD[OF that] by (auto simp: cache_answers_def)
  show ?thesis
  proof (cases rule: get_or_insert_cases[of c "key q" "ans q"])
    case (hit entry)
    then show ?thesis
      using assms(1) cached[OF hit(1)] upd unfolding cache_answers_def by fastforce
  next
    case (miss cs t)
    have "set cs \<subseteq> set (ac_cache c)"
      using evict_oldest_cache(1)[of "c\<lparr>ac_misses := ac_misses c + 1\<rparr>"] miss(4) by auto
    then show ?thesis
      using assms miss(2,5) upd unfolding cache_answers_def by fastforce
  qed
qed

lemma analyze_run_transparent:
  assumes "\<forall>(lang, e, lvl) \<in> set qs. lang \<in> analysed_languages \<and> CHR 0x00 \<notin> set e"
    and "inj_on (\<lambda>t. hex_string (take 16 (sha256_of env t))) (request_text allowed_of ` set qs)"
  shows "fst (analyze_run env allowed_of qs (ast_cache_new max_entries)) = map (request_answer env allowed_of) qs"
proof -
  let ?key = "\<lambda>q. hex_string (take 16 (sha256_of env (request_text allowed_of q)))"
  have ok: "fst q \<in> analysed_languages" "CHR 0x00 \<notin> set (fst (snd q))" if "q \<in> set qs" for q
    using bspec[OF assms(1) that] by (cases q, simp)+
  have same: "q' = q" if "q \<in> set qs" "q' \<in> set qs" "?key q' = ?key q" for q q'
  proof -
    have "request_text allowed_of q' = request_text allowed_of q"
      using inj_onD[OF assms(2) that(3)] that(1,2) by blast
    then show ?thesis
      using request_text_inj[OF ok(1)[OF that(2)] ok(1)[OF that(1)] ok(2)[OF that(2)] ok(2)[OF that(1)],
          of allowed_of "snd (snd q')" "snd (snd q)"]
      by (simp add: prod_eq_iff)
  qed
  have "cache_answers ?key (request_answer env allowed_of) (set qs) c \<Longrightarrow> set rs \<subseteq> set qs \<Longrightarrow>
      fst (analyze_run env allowed_of rs c) = map (request_answer env allowed_of) rs" for rs c
  proof (induction rs arbitrary: c)
    case (Cons q rs)
    obtain lang e lvl where q: "q = (lang, e, lvl)" by (cases q)
    have step: "analyze env lang e lvl (allowed_of lang) c = get_or_insert (?key q) (request_answer env allowed_of q) c"
      using analyze_get_or_insert[of lang env e lvl allowed_of c] assms(1) Cons.prems(2) by (auto simp: q)
    have qin: "q \<in> set qs" using Cons.prems(2) by simp
    obtain q' where q': "q' \<in> set qs" "?key q' = ?key q"
        "fst (get_or_insert (?key q) (request_answer env allowed_of q) c) = request_answer env allowed_of q'"
      using cache_answers_step[OF Cons.prems(1) qin] by blast
    have IH: "fst (analyze_run env allowed_of rs (snd (get_or_insert (?key q) (request_answer env allowed_of q) c))) =
        map (request_answer env allowed_of) rs"
      using Cons.IH cache_answers_step[OF Cons.prems(1) qin] Cons.prems(2) by simp
    have "fst (analyze_run env allowed_of (q # rs) c) =
        fst (get_or_insert (?key q) (request_answer env allowed_of q) c) #
        fst (analyze_run env allowed_of rs (snd (get_or_insert (?key q) (request_answer env allowed_of q) c)))"
      by (simp only: analyze_run.simps q prod.case step[unfolded q] Let_def case_prod_beta fst_conv snd_conv)
    then show ?case by (simp only: IH q'(3) same[OF qin q'(1,2)] list.map)
  qed simp
  then show ?thesis by (simp add: cache_answers_def ast_cache_new_def)
qed


lemma analyze_run_append:
  "fst (analyze_run env allowed_of (qs @ [(lang, e, lvl)]) c) =
     fst (analyze_run env allowed_of qs c) @
       [fst (analyze env lang e lvl (allowed_of lang) (snd (analyze_run env allowed_of qs c)))]"
  by (induction qs arbitrary: c) (simp_all add: case_prod_beta Let_def)

lemma analyze_after_run:
  assumes "\<forall>(lang, e, lvl) \<in> set (qs @ [(lang, e, lvl)]). lang \<in> analysed_languages \<and> CHR 0x00 \<notin> set e"
    and "inj_on (\<lambda>t. hex_string (take 16 (sha256_of env t))) (request_text allowed_of ` set (qs @ [(lang, e, lvl)]))"
  shows "fst (analyze env lang e lvl (allowed_of lang) (snd (analyze_run env allowed_of qs (ast_cache_new k)))) =
    uncached_analysis env lang e lvl (allowed_of lang)"
  using analyze_run_transparent[OF assms, of k]
  by (simp only: analyze_run_append map_append list.map append1_eq_conv request_answer_def prod.case)


text \<open>A sample world: a hash that keeps short texts apart, and parsers that know a few texts.\<close>

definition sample_sha :: "string \<Rightarrow> string" where
  "sample_sha t = take 16 (rev t)"

definition sample_call_tree :: ts_node where
  "sample_call_tree = TsNode ''module'' 0 6 [(None, TsNode ''call'' 0 6
     [(Some ''function'', TsNode ''identifier'' 0 3 []),
      (Some ''arguments'', TsNode ''argument_list'' 3 6 [(None, TsNode ''identifier'' 4 5 [])])])]"

definition sample_env :: analysis_env where
  "sample_env = \<lparr>py_parser = (\<lambda>t. if t = ''len(x)'' then Some (sample_call_tree, False) else None),
     go_parser = (\<lambda>_. None), rs_parser = (\<lambda>_. None), sha256_of = sample_sha\<rparr>"


lemma length_update_le: "length (AList.update k v xs) \<le> Suc (length xs)"
  by (induction xs) auto

lemma length_update_hit: "map_of xs k = Some e \<Longrightarrow> length (AList.update k v xs) = length xs"
  by (induction xs) (auto split: if_splits)

lemma get_or_insert_bounded:
  assumes "10 \<le> ac_max_entries c" "length (ac_cache c) \<le> ac_max_entries c"
  shows "length (ac_cache (snd (get_or_insert key computed c))) \<le> ac_max_entries c"
proof (cases rule: get_or_insert_cases[of c key computed])
  case (hit entry)
  then show ?thesis using length_update_hit[OF hit(1)] assms(2) by auto
next
  case (miss cs t)
  have "Suc (length cs) \<le> ac_max_entries c"
    using evict_oldest_less[of "c\<lparr>ac_misses := ac_misses c + 1\<rparr>"] assms miss(4) by (cases "ac_cache c = []") auto
  then show ?thesis
    unfolding miss(5) by (rule le_trans[OF length_update_le])
qed


lemma small_cache_keys:
  assumes "ac_max_entries c < 10" "distinct (map fst (ac_cache c))"
  shows "distinct (map fst (ac_cache (snd (get_or_insert key computed c)))) \<and>
    fst ` set (ac_cache (snd (get_or_insert key computed c))) = insert key (fst ` set (ac_cache c))"
proof -
  have upd: "distinct (map fst (AList.update key v (ac_cache c))) \<and>
      fst ` set (AList.update key v (ac_cache c)) = insert key (fst ` set (ac_cache c))" for v
    using assms(2) by (simp add: distinct_update flip: set_map) (auto simp: update_keys)
  have same: "ac_cache (evict_oldest (c\<lparr>ac_misses := n\<rparr>)) = ac_cache c" for n
    using assms(1) by (simp add: evict_oldest_def)
  show ?thesis
  proof (cases rule: get_or_insert_cases[of c key computed])
    case (hit entry)
    then obtain t where t: "ac_cache (snd (get_or_insert key computed c)) =
        AList.update key (entry\<lparr>ae_last_access := t\<rparr>) (ac_cache c)" by blast
    show ?thesis unfolding t by (rule upd)
  next
    case (miss cs t)
    have cs: "cs = ac_cache c" by (simp add: miss(4) same)
    show ?thesis unfolding miss(5) cs by (rule upd)
  qed
qed

text \<open>C33: with room for ten results or more the cache never holds more than its maximum; with less, the tenth
  part that eviction removes is nothing, and the cache keeps every result it was ever given.\<close>

theorem ast_cache_bound:
  "(let c = fold (\<lambda>(key, computed) c. snd (get_or_insert key computed c)) krs (ast_cache_new max_entries) in
    if 10 \<le> max_entries then length (ac_cache c) \<le> max_entries else length (ac_cache c) = card (fst ` set krs))"
proof -
  let ?step = "\<lambda>(key, computed) c. snd (get_or_insert key computed c)"
  have large: "length (ac_cache (fold ?step krs c)) \<le> ac_max_entries c"
    if "10 \<le> ac_max_entries c" "length (ac_cache c) \<le> ac_max_entries c" for c
    using that
  proof (induction krs arbitrary: c)
    case (Cons x krs)
    have "ac_max_entries (?step x c) = ac_max_entries c"
      by (cases x) (simp, metis get_or_insert_cases)
    then show ?case
      using Cons.IH[of "?step x c"] Cons.prems get_or_insert_bounded[OF Cons.prems, of "fst x" "snd x"]
      by (simp add: case_prod_beta)
  qed simp
  have small: "distinct (map fst (ac_cache (fold ?step krs c))) \<and>
      fst ` set (ac_cache (fold ?step krs c)) = fst ` set krs \<union> fst ` set (ac_cache c)"
    if "ac_max_entries c < 10" "distinct (map fst (ac_cache c))" for c
    using that
  proof (induction krs arbitrary: c)
    case (Cons x krs)
    have "ac_max_entries (?step x c) = ac_max_entries c"
      by (cases x) (simp, metis get_or_insert_cases)
    then show ?case
      using Cons.IH[of "?step x c"] Cons.prems small_cache_keys[OF Cons.prems, of "fst x" "snd x"]
      by (simp add: case_prod_beta insert_commute)
  qed simp
  show ?thesis
  proof (cases "10 \<le> max_entries")
    case True
    then show ?thesis using large[of "ast_cache_new max_entries"] by (simp add: Let_def ast_cache_new_def)
  next
    case False
    then show ?thesis
      using small[of "ast_cache_new max_entries"] distinct_card[of "map fst (ac_cache (fold ?step krs (ast_cache_new max_entries)))"]
      by (simp add: Let_def ast_cache_new_def)
  qed
qed

end
