(* ===== verification/Anchor_Text.thy ===== *)
theory Anchor_Text
  imports Safety_Analysis
begin

text \<open>
  The text functions of the anchor service: the lines and characters of a source text, truncation at a
  character boundary, the removal of comments (\<open>safety/treesitter/comment_stripper.rs\<close>), the
  normalisation before a fingerprint is taken, and the edit distance between two texts
  (\<open>services/anchor_service.rs\<close>). The tree-sitter parsers are parameters, as in the expression analysis.
\<close>


section \<open>Lines and characters\<close>

definition newline :: char where
  "newline = CHR 0x0A"

text \<open>\<open>str::lines\<close>: cuts at every line feed, drops a carriage return in front of it, and has no empty
  line behind a final line feed.\<close>

definition strip_cr :: "string \<Rightarrow> string" where
  "strip_cr l = (if l \<noteq> [] \<and> last l = CHR 0x0D then butlast l else l)"

function lines :: "string \<Rightarrow> string list" where
  "lines s =
     (if s = [] then []
      else case dropWhile (\<lambda>c. c \<noteq> newline) s of
        [] \<Rightarrow> [s]
      | _ # rest \<Rightarrow> strip_cr (takeWhile (\<lambda>c. c \<noteq> newline) s) # lines rest)"
  by pat_completeness auto
termination
proof (relation "measure length")
  fix s x rest
  assume "dropWhile (\<lambda>c. c \<noteq> newline) s = x # rest"
  then have "length rest < length (dropWhile (\<lambda>c. c \<noteq> newline) s)" by simp
  also have "\<dots> \<le> length s" by (rule length_dropWhile_le)
  finally show "(rest, s) \<in> measure length" by simp
qed simp

declare lines.simps [simp del]

text \<open>\<open>str::chars\<close>: the characters of a text, each as its bytes.\<close>

function chars :: "string \<Rightarrow> string list" where
  "chars [] = []"
| "chars (c # s) = (c # takeWhile continuation_byte s) # chars (dropWhile continuation_byte s)"
  by pat_completeness auto
termination
  by (relation "measure length") (simp_all add: le_imp_less_Suc length_dropWhile_le)

definition is_whitespace :: "string \<Rightarrow> bool" where
  "is_whitespace c \<longleftrightarrow> c \<in> set white_space"

text \<open>\<open>str::split_whitespace\<close> on the characters of a text.\<close>

function split_whitespace :: "string list \<Rightarrow> string list" where
  "split_whitespace cs =
     (case dropWhile is_whitespace cs of
        [] \<Rightarrow> []
      | d # ds \<Rightarrow> concat (takeWhile (\<lambda>c. \<not> is_whitespace c) (d # ds))
                  # split_whitespace (dropWhile (\<lambda>c. \<not> is_whitespace c) ds))"
  by pat_completeness auto
termination
proof (relation "measure length")
  fix cs d ds
  assume "dropWhile is_whitespace cs = d # ds"
  then have "length (d # ds) \<le> length cs" by (metis length_dropWhile_le)
  then show "(dropWhile (\<lambda>c. \<not> is_whitespace c) ds, cs) \<in> measure length"
    using length_dropWhile_le[of "\<lambda>c. \<not> is_whitespace c" ds] by simp
qed simp

declare split_whitespace.simps [simp del]

primrec join :: "string \<Rightarrow> string list \<Rightarrow> string" where
  "join sep [] = []"
| "join sep (x # xs) = (if xs = [] then x else x @ sep @ join sep xs)"

text \<open>The longest run of whole characters that fits.\<close>

fun take_chars :: "string \<Rightarrow> nat \<Rightarrow> string list \<Rightarrow> string" where
  "take_chars truncated max_bytes [] = truncated"
| "take_chars truncated max_bytes (c # cs) =
     (if length truncated + length c > max_bytes then truncated
      else take_chars (truncated @ c) max_bytes cs)"

definition truncate_to_bytes :: "string \<Rightarrow> nat \<Rightarrow> string" where
  "truncate_to_bytes s max_bytes =
     (if length s \<le> max_bytes then s else take_chars [] max_bytes (chars s))"


section \<open>Comments\<close>

fun collect_comments :: "(string \<Rightarrow> bool) \<Rightarrow> ts_node \<Rightarrow> (nat \<times> nat) list" where
  "collect_comments is_comment (TsNode k s e cs) =
     (if is_comment k then [(s, e)] else [])
     @ concat (map (\<lambda>(_, c). collect_comments is_comment c) cs)"

text \<open>A statement that consists of one triple-quoted string.\<close>

definition is_docstring :: "string \<Rightarrow> ts_node \<Rightarrow> bool" where
  "is_docstring source n =
     (case nd_children n of
        [(_, child)] \<Rightarrow>
          nd_kind n = ''expression_statement'' \<and> nd_kind child = ''string''
          \<and> nd_end child > nd_start child \<and> nd_end child \<le> length source
          \<and> (let text = take (nd_end child - nd_start child) (drop (nd_start child) source)
             in prefix (replicate 3 (CHR 0x27)) text \<or> prefix (replicate 3 (CHR 0x22)) text)
      | _ \<Rightarrow> False)"

fun collect_python_comments :: "string \<Rightarrow> ts_node \<Rightarrow> (nat \<times> nat) list" where
  "collect_python_comments source (TsNode k s e cs) =
     (if k = ''comment'' then [(s, e)]
      else if is_docstring source (TsNode k s e cs) then [(s, e)] else [])
     @ concat (map (\<lambda>(_, c). collect_python_comments source c) cs)"

fun remove_ranges_from :: "string \<Rightarrow> nat \<Rightarrow> (nat \<times> nat) list \<Rightarrow> string" where
  "remove_ranges_from source last_end [] =
     (if last_end < length source then drop last_end source else [])"
| "remove_ranges_from source last_end ((s, e) # ranges) =
     (if s > last_end \<and> s \<le> length source then take (s - last_end) (drop last_end source) else [])
     @ remove_ranges_from source (min e (length source)) ranges"

definition remove_ranges :: "string \<Rightarrow> (nat \<times> nat) list \<Rightarrow> string" where
  "remove_ranges source ranges = remove_ranges_from source 0 (sort_key fst ranges)"

definition strip_comments :: "analysis_env \<Rightarrow> string \<Rightarrow> source_language \<Rightarrow> string result" where
  "strip_comments env source lang =
     (if source = [] then Inr []
      else case lang of
        Python \<Rightarrow>
          (case py_parser env source of
             None \<Rightarrow> Inl (AstAnalysisFailed ''Failed to parse Python source'')
           | Some (root, _) \<Rightarrow> Inr (remove_ranges source (collect_python_comments source root)))
      | Go \<Rightarrow>
          (case go_parser env source of
             None \<Rightarrow> Inl (AstAnalysisFailed ''Failed to parse source'')
           | Some (root, _) \<Rightarrow> Inr (remove_ranges source (collect_comments (\<lambda>k. k = ''comment'') root)))
      | Rust \<Rightarrow>
          (case rs_parser env source of
             None \<Rightarrow> Inl (AstAnalysisFailed ''Failed to parse source'')
           | Some (root, _) \<Rightarrow>
               Inr (remove_ranges source
                      (collect_comments (\<lambda>k. k = ''line_comment'' \<or> k = ''block_comment'') root)))
      | _ \<Rightarrow> Inr source)"


section \<open>Normalisation\<close>

record normalization_config =
  strip_blank_lines :: bool
  strip_trailing_whitespace :: bool
  normalize_internal_whitespace :: bool
  nc_strip_comments :: bool

definition default_normalization :: normalization_config where
  "default_normalization =
     \<lparr>strip_blank_lines = True, strip_trailing_whitespace = True,
      normalize_internal_whitespace = False, nc_strip_comments = False\<rparr>"

definition normalize_line :: "normalization_config \<Rightarrow> string \<Rightarrow> string" where
  "normalize_line config line =
     (let processed = (if strip_trailing_whitespace config then trim_end line else line)
      in if normalize_internal_whitespace config
         then let rest = trim_start processed;
                  leading_ws = take (length processed - length rest) processed
              in leading_ws @ join '' '' (split_whitespace (chars rest))
         else processed)"

definition normalize_for_fingerprint ::
  "analysis_env \<Rightarrow> normalization_config \<Rightarrow> string \<Rightarrow> source_language option \<Rightarrow> string" where
  "normalize_for_fingerprint env config content lang =
     (let content =
        (if nc_strip_comments config then
           (case lang of
              None \<Rightarrow> content
            | Some l \<Rightarrow> (case strip_comments env content l of Inr stripped \<Rightarrow> stripped | Inl _ \<Rightarrow> content))
         else content)
      in join [newline] (map (normalize_line config)
           (filter (\<lambda>line. \<not> (strip_blank_lines config \<and> trim line = [])) (lines content))))"


section \<open>Edit distance\<close>

text \<open>One step of the inner loop, on the row in progress.\<close>

definition lev_cell :: "'c \<Rightarrow> 'c list \<Rightarrow> nat list \<Rightarrow> nat \<Rightarrow> nat list \<Rightarrow> nat list" where
  "lev_cell a_char b_chars prev_row j curr_row =
     (let cost = (if a_char = b_chars ! j then 0 else 1)
      in curr_row[j + 1 := min (min (prev_row ! (j + 1) + 1) (curr_row ! j + 1)) (prev_row ! j + cost)])"

text \<open>One step of the outer loop, which ends with the swap of the two rows.\<close>

definition lev_row :: "'c list \<Rightarrow> nat \<times> 'c \<Rightarrow> nat list \<times> nat list \<Rightarrow> nat list \<times> nat list" where
  "lev_row b_chars ia rows =
     (case (ia, rows) of ((i, a_char), (prev_row, curr_row)) \<Rightarrow>
        let curr_row = curr_row[0 := i + 1];
            curr_row = fold (lev_cell a_char b_chars prev_row) [0 ..< length b_chars] curr_row
        in (curr_row, prev_row))"

definition levenshtein_distance :: "'c list \<Rightarrow> 'c list \<Rightarrow> nat" where
  "levenshtein_distance a_chars b_chars =
     (if length a_chars = 0 then length b_chars
      else if length b_chars = 0 then length a_chars
      else let rows = fold (lev_row b_chars) (enumerate 0 a_chars)
                        ([0 ..< length b_chars + 1], replicate (length b_chars + 1) 0)
           in fst rows ! length b_chars)"



section \<open>The edit distance is the least number of edits\<close>

text \<open>Alignments of two lists, with the number of insertions, deletions and substitutions.\<close>

inductive edits :: "nat \<Rightarrow> 'c list \<Rightarrow> 'c list \<Rightarrow> bool" where
  edits_Nil: "edits 0 [] []"
| edits_keep: "edits n xs ys \<Longrightarrow> edits n (x # xs) (x # ys)"
| edits_delete: "edits n xs ys \<Longrightarrow> edits (Suc n) (x # xs) ys"
| edits_insert: "edits n xs ys \<Longrightarrow> edits (Suc n) xs (y # ys)"
| edits_replace: "edits n xs ys \<Longrightarrow> edits (Suc n) (x # xs) (y # ys)"

inductive_cases edits_NilE: "edits n [] ys"
inductive_cases edits_Nil2E: "edits n xs []"
inductive_cases edits_ConsE: "edits n (x # xs) (y # ys)"

lemma edits_append: "edits n xs ys \<Longrightarrow> edits m us vs \<Longrightarrow> edits (n + m) (xs @ us) (ys @ vs)"
  by (induction rule: edits.induct) (auto intro: edits.intros)

lemma edits_single:
  "edits 0 [x] [x]" "edits 1 [x] []" "edits 1 [] [y]" "edits 1 [x] [y]"
  using edits_keep[OF edits_Nil] edits_delete[OF edits_Nil] edits_insert[OF edits_Nil]
    edits_replace[OF edits_Nil] by simp_all

lemma edits_rev: "edits n xs ys \<Longrightarrow> edits n (rev xs) (rev ys)"
proof (induction rule: edits.induct)
  case (edits_keep n xs ys x)
  show ?case using edits_append[OF edits_keep.IH edits_single(1)] by simp
next
  case (edits_delete n xs ys x)
  show ?case using edits_append[OF edits_delete.IH edits_single(2)] by simp
next
  case (edits_insert n xs ys y)
  show ?case using edits_append[OF edits_insert.IH edits_single(3)] by simp
next
  case (edits_replace n xs ys x y)
  show ?case using edits_append[OF edits_replace.IH edits_single(4)] by simp
qed (simp add: edits_Nil)

lemma edits_to_Nil: "edits (length xs) xs []"
  by (induction xs) (auto intro: edits.intros)

lemma edits_from_Nil: "edits (length ys) [] ys"
  by (induction ys) (auto intro: edits.intros)

lemma edits_from_Nil_least: "edits n [] ys \<Longrightarrow> length ys \<le> n"
proof (induction ys arbitrary: n)
  case (Cons y ys)
  from Cons.prems obtain m where "n = Suc m" "edits m [] ys" by (auto elim: edits_NilE)
  then show ?case using Cons.IH by simp
qed simp

lemma edits_to_Nil_least: "edits n xs [] \<Longrightarrow> length xs \<le> n"
proof (induction xs arbitrary: n)
  case (Cons x xs)
  from Cons.prems obtain m where "n = Suc m" "edits m xs []" by (auto elim: edits_Nil2E)
  then show ?case using Cons.IH by simp
qed simp

text \<open>The recursion behind the table: the distance of the first \<open>i\<close> from the first \<open>j\<close> characters.\<close>

fun prefix_distance :: "'c list \<Rightarrow> 'c list \<Rightarrow> nat \<Rightarrow> nat \<Rightarrow> nat" where
  "prefix_distance a b 0 j = j"
| "prefix_distance a b (Suc i) 0 = Suc i"
| "prefix_distance a b (Suc i) (Suc j) =
     min (min (prefix_distance a b i (Suc j) + 1) (prefix_distance a b (Suc i) j + 1))
       (prefix_distance a b i j + (if a ! i = b ! j then 0 else 1))"

lemma rev_take_Suc: "i < length a \<Longrightarrow> rev (take (Suc i) a) = a ! i # rev (take i a)"
  by (simp add: take_Suc_conv_app_nth)

lemma prefix_distance_edits:
  "i \<le> length a \<Longrightarrow> j \<le> length b \<Longrightarrow> edits (prefix_distance a b i j) (rev (take i a)) (rev (take j b))"
proof (induction a b i j rule: prefix_distance.induct)
  case (1 a b j)
  then show ?case using edits_from_Nil[of "rev (take j b)"] by simp
next
  case (2 a b i)
  then show ?case using edits_to_Nil[of "rev (take (Suc i) a)"] by (simp add: min_absorb2)
next
  case (3 a b i j)
  let ?d = "prefix_distance a b"
  have ends: "rev (take (Suc i) a) = a ! i # rev (take i a)" "rev (take (Suc j) b) = b ! j # rev (take j b)"
    using 3(4,5) by (simp_all add: rev_take_Suc)
  have "edits (Suc (?d i (Suc j))) (a ! i # rev (take i a)) (b ! j # rev (take j b))"
    using edits_delete[OF 3(1)] 3(4,5) by (simp add: ends)
  moreover have "edits (Suc (?d (Suc i) j)) (a ! i # rev (take i a)) (b ! j # rev (take j b))"
    using edits_insert[OF 3(2)] 3(4,5) by (simp add: ends)
  moreover have "edits (?d i j + (if a ! i = b ! j then 0 else 1)) (a ! i # rev (take i a)) (b ! j # rev (take j b))"
    using edits_keep[OF 3(3)] edits_replace[OF 3(3)] 3(4,5) by auto
  ultimately show ?case unfolding ends by (simp add: min_def)
qed

lemma prefix_distance_least:
  "i \<le> length a \<Longrightarrow> j \<le> length b \<Longrightarrow> edits n (rev (take i a)) (rev (take j b)) \<Longrightarrow> prefix_distance a b i j \<le> n"
proof (induction a b i j arbitrary: n rule: prefix_distance.induct)
  case (1 a b j)
  then show ?case using edits_from_Nil_least[of n "rev (take j b)"] by simp
next
  case (2 a b i)
  then show ?case using edits_to_Nil_least[of n "rev (take (Suc i) a)"] by (simp add: min_absorb2)
next
  case (3 a b i j)
  have ends: "rev (take (Suc i) a) = a ! i # rev (take i a)" "rev (take (Suc j) b) = b ! j # rev (take j b)"
    using 3(4,5) by (simp_all add: rev_take_Suc)
  note IH = 3(1,2,3) and bounds = 3(4,5)
  from 3(6) have "edits n (a ! i # rev (take i a)) (b ! j # rev (take j b))" unfolding ends .
  then consider (keep) "a ! i = b ! j" "edits n (rev (take i a)) (rev (take j b))"
    | (delete) m where "n = Suc m" "edits m (rev (take i a)) (b ! j # rev (take j b))"
    | (insert) m where "n = Suc m" "edits m (a ! i # rev (take i a)) (rev (take j b))"
    | (replace) m where "n = Suc m" "edits m (rev (take i a)) (rev (take j b))"
    by (elim edits_ConsE) metis+
  then show ?case
  proof cases
    case keep
    then show ?thesis using IH(3)[of n] bounds by (simp add: min.coboundedI2)
  next
    case delete
    then show ?thesis using IH(1)[of m] bounds ends by (simp add: min.coboundedI1)
  next
    case insert
    then show ?thesis using IH(2)[of m] bounds ends by (simp add: min.coboundedI1 min.coboundedI2)
  next
    case replace
    then show ?thesis using IH(3)[of m] bounds by (auto simp: min_def)
  qed
qed


text \<open>The two rows of the table hold the distances of the prefixes.\<close>

definition row_of :: "'c list \<Rightarrow> 'c list \<Rightarrow> nat \<Rightarrow> nat list \<Rightarrow> bool" where
  "row_of a b i row \<longleftrightarrow>
     length row = Suc (length b) \<and> (\<forall>k \<le> length b. row ! k = prefix_distance a b i k)"

lemma length_lev_cell [simp]: "length (lev_cell x b prev j row) = length row"
  by (simp add: lev_cell_def Let_def)

lemma lev_cells:
  assumes "row_of a b i prev" and "length cur = Suc (length b)" and "cur ! 0 = Suc i" and "j \<le> length b"
  shows "length (fold (lev_cell (a ! i) b prev) [0 ..< j] cur) = Suc (length b)
    \<and> (\<forall>k \<le> j. fold (lev_cell (a ! i) b prev) [0 ..< j] cur ! k = prefix_distance a b (Suc i) k)"
  using assms(4)
proof (induction j)
  case (Suc j)
  let ?row = "fold (lev_cell (a ! i) b prev) [0 ..< j] cur"
  have IH: "length ?row = Suc (length b)" "\<forall>k \<le> j. ?row ! k = prefix_distance a b (Suc i) k"
    using Suc by simp_all
  have "lev_cell (a ! i) b prev j ?row ! k = prefix_distance a b (Suc i) k" if "k \<le> Suc j" for k
    using that IH Suc.prems assms(1)
    by (cases "k = Suc j") (simp_all add: lev_cell_def row_of_def Let_def)
  then show ?case using IH by simp
qed (use assms in simp)

lemma lev_row_step:
  assumes "row_of a b i prev" and "length cur = Suc (length b)" and "lev_row b (i, a ! i) (prev, cur) = (prev', cur')"
  shows "row_of a b (Suc i) prev' \<and> length cur' = Suc (length b)"
proof -
  have "length (cur[0 := i + 1]) = Suc (length b)" "cur[0 := i + 1] ! 0 = Suc i"
    using assms(2) by simp_all
  from lev_cells[OF assms(1) this order_refl] assms(1,3) show ?thesis
    by (auto simp: lev_row_def row_of_def Let_def)
qed

lemma lev_rows:
  assumes "i \<le> length a" and "row_of a b 0 prev" and "length cur = Suc (length b)"
  shows "row_of a b i (fst (fold (lev_row b) (take i (enumerate 0 a)) (prev, cur)))
    \<and> length (snd (fold (lev_row b) (take i (enumerate 0 a)) (prev, cur))) = Suc (length b)"
  using assms(1)
proof (induction i)
  case (Suc i)
  let ?rows = "fold (lev_row b) (take i (enumerate 0 a)) (prev, cur)"
  have next_row: "take (Suc i) (enumerate 0 a) = take i (enumerate 0 a) @ [(i, a ! i)]"
    using Suc.prems by (simp add: take_Suc_conv_app_nth nth_enumerate_eq)
  obtain prev' cur' where "lev_row b (i, a ! i) (fst ?rows, snd ?rows) = (prev', cur')" by fastforce
  then show ?case
    using Suc lev_row_step[of a b i "fst ?rows" "snd ?rows" prev' cur'] by (simp add: next_row)
qed (use assms in simp)

lemma levenshtein_table: "levenshtein_distance a b = prefix_distance a b (length a) (length b)"
proof (cases "a = [] \<or> b = []")
  case True
  then show ?thesis by (cases a) (auto simp: levenshtein_distance_def)
next
  case False
  have "row_of a b 0 [0 ..< length b + 1]" by (auto simp: row_of_def nth_append)
  from lev_rows[OF order_refl this, of "replicate (length b + 1) 0"] False
  show ?thesis by (simp add: levenshtein_distance_def Let_def row_of_def)
qed

text \<open>C16: The two-row table computes the edit distance: there is an alignment of the two texts with that
  many single-character insertions, deletions and substitutions, and none with fewer. So the similarity of
  two source contexts measures the edits between them.\<close>

theorem levenshtein_minimal:
  "edits (levenshtein_distance a b) a b \<and> (\<forall>n. edits n a b \<longrightarrow> levenshtein_distance a b \<le> n)"
proof (intro conjI allI impI)
  show "edits (levenshtein_distance a b) a b"
    using edits_rev[OF prefix_distance_edits[of "length a" a "length b" b]] by (simp add: levenshtein_table)
  fix n
  assume "edits n a b"
  then show "levenshtein_distance a b \<le> n"
    using prefix_distance_least[of "length a" a "length b" b n] edits_rev[of n a b]
    by (simp add: levenshtein_table)
qed

theorem levenshtein_minimal_witness: "levenshtein_distance ''kitten'' ''sitting'' \<le> 3"
proof -
  have "edits (Suc (Suc (Suc 0))) ''kitten'' ''sitting''"
    by (rule edits_replace, rule edits_keep, rule edits_keep, rule edits_keep, rule edits_replace,
        rule edits_keep, rule edits_insert, rule edits_Nil)
  then show ?thesis using levenshtein_minimal[of "''kitten''" "''sitting''"] by (simp add: numeral_3_eq_3)
qed



lemma levenshtein_self [simp]: "levenshtein_distance a a = 0"
proof -
  have "edits 0 a a" by (induction a) (auto intro: edits.intros)
  then show ?thesis
    using prefix_distance_least[of "length a" a "length a" a 0] edits_rev[of 0 a a] by (simp add: levenshtein_table)
qed

lemma edits_max: "\<exists>n \<le> max (length a) (length b). edits n a b"
proof (induction a arbitrary: b)
  case Nil
  then show ?case using edits_from_Nil by fastforce
next
  case (Cons x a)
  show ?case
  proof (cases b)
    case Nil
    then show ?thesis using edits_to_Nil[of "x # a"] by fastforce
  next
    case (Cons y b')
    obtain n where "n \<le> max (length a) (length b')" "edits n a b'" using Cons.IH by blast
    then show ?thesis using Cons edits_replace[of n a b' x y] by fastforce
  qed
qed

lemma levenshtein_le_max: "levenshtein_distance a b \<le> max (length a) (length b)"
proof -
  obtain n where "n \<le> max (length a) (length b)" "edits n a b" using edits_max by blast
  then show ?thesis
    using prefix_distance_least[of "length a" a "length b" b n] edits_rev[of n a b] by (simp add: levenshtein_table)
qed


section \<open>Characters, truncation and removed comments\<close>

lemma length_chars: "length (chars s) \<le> length s"
proof (induction s rule: chars.induct)
  case (2 c s)
  then show ?case using length_dropWhile_le[of continuation_byte s] by simp
qed simp

lemma concat_chars [simp]: "concat (chars s) = s"
  by (induction s rule: chars.induct) simp_all

lemma take_chars_fits:
  "length truncated \<le> max_bytes \<Longrightarrow> \<exists>k. take_chars truncated max_bytes cs = truncated @ concat (take k cs)
     \<and> length (truncated @ concat (take k cs)) \<le> max_bytes
     \<and> (k < length cs \<longrightarrow> length (truncated @ concat (take (Suc k) cs)) > max_bytes)"
proof (induction cs arbitrary: truncated)
  case (Cons c cs)
  show ?case
  proof (cases "length truncated + length c > max_bytes")
    case True
    then show ?thesis using Cons.prems by (intro exI[of _ 0]) simp
  next
    case False
    with Cons.IH[of "truncated @ c"] obtain k where
      "take_chars (truncated @ c) max_bytes cs = (truncated @ c) @ concat (take k cs)"
      "length ((truncated @ c) @ concat (take k cs)) \<le> max_bytes"
      "k < length cs \<longrightarrow> length ((truncated @ c) @ concat (take (Suc k) cs)) > max_bytes" by auto
    then show ?thesis using False by (intro exI[of _ "Suc k"]) auto
  qed
qed simp

text \<open>A truncated text is the longest run of whole characters that fits.\<close>

lemma truncate_to_bytes_longest:
  "\<exists>k. truncate_to_bytes s m = concat (take k (chars s)) \<and> length (truncate_to_bytes s m) \<le> m
     \<and> (k < length (chars s) \<longrightarrow> length (concat (take (Suc k) (chars s))) > m)"
proof (cases "length s \<le> m")
  case True
  then show ?thesis by (intro exI[of _ "length (chars s)"]) (simp add: truncate_to_bytes_def)
next
  case False
  then show ?thesis using take_chars_fits[of "[]" m "chars s"] by (auto simp: truncate_to_bytes_def)
qed

text \<open>Ranges that follow each other without overlap are removed, and nothing else.\<close>

definition apart :: "nat \<Rightarrow> (nat \<times> nat) list \<Rightarrow> bool" where
  "apart n ranges \<longleftrightarrow>
     sorted_wrt (\<lambda>(s, e) (s', e'). e \<le> s') ranges \<and> list_all (\<lambda>(s, e). s \<le> e \<and> e \<le> n) ranges"

definition outside :: "(nat \<times> nat) list \<Rightarrow> nat \<Rightarrow> bool" where
  "outside ranges i \<longleftrightarrow> list_all (\<lambda>(s, e). \<not> (s \<le> i \<and> i < e)) ranges"

lemma apart_Cons [simp]:
  "apart n ((s, e) # ranges) \<longleftrightarrow>
     s \<le> e \<and> e \<le> n \<and> list_all (\<lambda>(s', _). e \<le> s') ranges \<and> apart n ranges"
  by (auto simp: apart_def list_all_iff)

lemma filter_upt_none: "(\<And>i. a \<le> i \<Longrightarrow> i < b \<Longrightarrow> \<not> P i) \<Longrightarrow> filter P [a ..< b] = []"
  by (simp add: filter_empty_conv)

lemma filter_upt_all: "(\<And>i. a \<le> i \<Longrightarrow> i < b \<Longrightarrow> P i) \<Longrightarrow> filter P [a ..< b] = [a ..< b]"
  by simp

lemma map_nth_upt: "a \<le> b \<Longrightarrow> b \<le> length xs \<Longrightarrow> map ((!) xs) [a ..< b] = take (b - a) (drop a xs)"
  by (rule nth_equalityI) simp_all

lemma remove_ranges_from_exact:
  assumes "apart (length source) ranges" and "last_end \<le> length source"
    and "list_all (\<lambda>(s, _). last_end \<le> s) ranges"
  shows "remove_ranges_from source last_end ranges
    = map ((!) source) (filter (outside ranges) [last_end ..< length source])"
  using assms
proof (induction ranges arbitrary: last_end)
  case Nil
  then show ?case by (simp add: outside_def map_nth_upt)
next
  case (Cons r ranges)
  obtain s e where r: "r = (s, e)" by fastforce
  have range: "last_end \<le> s" "s \<le> e" "e \<le> length source" "apart (length source) ranges"
    "list_all (\<lambda>(s', _). e \<le> s') ranges" using Cons.prems by (simp_all add: r)
  let ?P = "outside ((s, e) # ranges)"
  have later: "outside ranges i" if "i < e" for i
    using that range(5) by (fastforce simp: outside_def list_all_iff)
  have "[last_end ..< length source] = [last_end ..< s] @ [s ..< e] @ [e ..< length source]"
    using range by (metis upt_add_eq_append le_add_diff_inverse le_trans append_assoc)
  moreover have "filter ?P [last_end ..< s] = [last_end ..< s]"
    by (rule filter_upt_all) (use range later in \<open>simp add: outside_def\<close>)
  moreover have "filter ?P [s ..< e] = []" by (rule filter_upt_none) (simp add: outside_def)
  moreover have "filter ?P [e ..< length source] = filter (outside ranges) [e ..< length source]"
    by (rule filter_cong) (auto simp: outside_def)
  ultimately have "map ((!) source) (filter ?P [last_end ..< length source])
      = take (s - last_end) (drop last_end source)
        @ map ((!) source) (filter (outside ranges) [e ..< length source])"
    using range by (simp add: map_nth_upt)
  then show ?case using Cons.IH[of e] range by (simp add: r min_absorb1)
qed

lemma outside_sort_key [simp]: "outside (sort_key f ranges) = outside ranges"
  by (simp add: outside_def list_all_iff fun_eq_iff)

text \<open>C26: Comment removal is exact. When the comment ranges of a source text do not overlap, the stripped
  text consists of precisely the bytes outside all comments, in their order: no code is lost and no part of a
  comment stays.\<close>

theorem remove_ranges_exact:
  assumes "apart (length source) (sort_key fst ranges)"
  shows "remove_ranges source ranges = map ((!) source) (filter (outside ranges) [0 ..< length source])"
  unfolding remove_ranges_def
  using remove_ranges_from_exact[OF assms, of 0] by (simp add: list_all_iff split_beta)

theorem remove_ranges_exact_witness:
  "remove_ranges ''x=1 #a;y#b'' [(8, 10), (4, 6)] = ''x=1 ;y''"
proof -
  have "apart (length ''x=1 #a;y#b'') (sort_key fst [(8, 10), (4, 6)])" by (simp add: apart_def)
  from remove_ranges_exact[OF this] show ?thesis by (simp add: outside_def upt_conv_Cons)
qed

end
