(* ===== verification/Safety_Validator.thy ===== *)
theory Safety_Validator
  imports Safety_Analysis Safety_Config
begin

text \<open>
  Expression validators (detrix-application, src/safety): the classification of functions and
  variables, the validation result, the validators of Python, Go and Rust, the registry, and the
  resolution of unknown functions by a purity analyzer. Unicode lower-casing is a parameter
  \<open>lower\<close>; a purity analyzer talks to a language server and is a parameter too.
\<close>


section \<open>Validator data and classification\<close>

record validator_data =
  allowed_functions :: "string list"
  prohibited_functions :: "string list"
  vd_sensitive_patterns :: "string list"
  vd_variable_whitelist :: "string list"

definition is_function_allowed_base :: "validator_data \<Rightarrow> string \<Rightarrow> safety_level \<Rightarrow> bool" where
  "is_function_allowed_base d f lvl =
     (if f \<in> set (allowed_functions d) then True
      else if f \<in> set (prohibited_functions d) then False
      else (case lvl of Strict \<Rightarrow> False | Trusted \<Rightarrow> True))"

definition matches_sensitive_pattern_base :: "(string \<Rightarrow> string) \<Rightarrow> validator_data \<Rightarrow> string \<Rightarrow> string option" where
  "matches_sensitive_pattern_base lower d var =
     find (\<lambda>pattern. contains_str (lower var) (lower pattern)) (vd_sensitive_patterns d)"

definition classify_function :: "validator_data \<Rightarrow> string \<Rightarrow> purity_level" where
  "classify_function d f =
     (if f \<in> set (allowed_functions d) then Pure
      else if f \<in> set (prohibited_functions d) then Impure
      else PurityUnknown)"

definition classify_function_with_suffix :: "validator_data \<Rightarrow> string \<Rightarrow> purity_level" where
  "classify_function_with_suffix d f =
     (if f \<in> set (allowed_functions d) then Pure
      else if f \<in> set (prohibited_functions d) then Impure
      else if list_ex (\<lambda>a. suffix a f) (allowed_functions d) then Pure
      else if list_ex (\<lambda>p. suffix p f) (prohibited_functions d) then Impure
      else PurityUnknown)"

definition extract_base_name :: "string \<Rightarrow> string" where
  "extract_base_name f = last (split_char (CHR ''.'') f)"

definition rust_extract_base_name :: "string \<Rightarrow> string" where
  "rust_extract_base_name f = last (split_char (CHR ''.'') (after_last_str ''::'' f))"

definition go_check_sensitive_pattern :: "(string \<Rightarrow> string) \<Rightarrow> validator_data \<Rightarrow> string \<Rightarrow> string option" where
  "go_check_sensitive_pattern lower d var =
     (case matches_sensitive_pattern_base lower d var of
        Some pattern \<Rightarrow> Some pattern
      | None \<Rightarrow> find (\<lambda>pattern. contains_str (lower var) (lower (filter (\<lambda>c. c \<noteq> CHR ''_'') pattern)))
          (vd_sensitive_patterns d))"

definition rust_check_sensitive_pattern :: "(string \<Rightarrow> string) \<Rightarrow> validator_data \<Rightarrow> string \<Rightarrow> string option" where
  "rust_check_sensitive_pattern lower d var =
     (case matches_sensitive_pattern_base lower d var of
        Some pattern \<Rightarrow> Some pattern
      | None \<Rightarrow> find (\<lambda>pattern. contains_str (lower var) (lower (map (\<lambda>c. if c = CHR ''-'' then CHR ''_'' else c) pattern)))
          (vd_sensitive_patterns d))"


section \<open>Validation results\<close>

record resolved_function =
  rf_name :: string
  rf_resolution :: string
  rf_source :: string

record validation_result =
  vr_is_safe :: bool
  vr_purity :: purity_level
  vr_errors :: "string list"
  vr_warnings :: "string list"
  vr_function_calls :: "string list"
  unknown_functions :: "string list"
  impure_functions :: "string list"
  resolved_functions :: "resolved_function list"

definition vr_safe :: validation_result where
  "vr_safe = \<lparr>vr_is_safe = True, vr_purity = Pure, vr_errors = [], vr_warnings = [], vr_function_calls = [],
     unknown_functions = [], impure_functions = [], resolved_functions = []\<rparr>"

definition vr_safe_with_calls :: "string list \<Rightarrow> validation_result" where
  "vr_safe_with_calls calls = \<lparr>vr_is_safe = True, vr_purity = Pure, vr_errors = [], vr_warnings = [],
     vr_function_calls = calls, unknown_functions = [], impure_functions = [], resolved_functions = []\<rparr>"

definition vr_unsafe_with_errors :: "string list \<Rightarrow> validation_result" where
  "vr_unsafe_with_errors es = \<lparr>vr_is_safe = False, vr_purity = Impure, vr_errors = es, vr_warnings = [],
     vr_function_calls = [], unknown_functions = [], impure_functions = [], resolved_functions = []\<rparr>"

definition vr_unsafe_with_details :: "string list \<Rightarrow> string list \<Rightarrow> string list \<Rightarrow> validation_result" where
  "vr_unsafe_with_details es ws calls = \<lparr>vr_is_safe = False, vr_purity = Impure, vr_errors = es, vr_warnings = ws,
     vr_function_calls = calls, unknown_functions = [], impure_functions = [], resolved_functions = []\<rparr>"

definition vr_with_purity :: "bool \<Rightarrow> purity_level \<Rightarrow> string list \<Rightarrow> string list \<Rightarrow> string list \<Rightarrow> string list \<Rightarrow>
    string list \<Rightarrow> validation_result" where
  "vr_with_purity safe p es ws calls unknown impure = \<lparr>vr_is_safe = safe, vr_purity = p, vr_errors = es, vr_warnings = ws,
     vr_function_calls = calls, unknown_functions = unknown, impure_functions = impure, resolved_functions = []\<rparr>"

definition vr_add_error :: "string \<Rightarrow> validation_result \<Rightarrow> validation_result" where
  "vr_add_error e r = r\<lparr>vr_errors := vr_errors r @ [e], vr_is_safe := False\<rparr>"

definition vr_add_warning :: "string \<Rightarrow> validation_result \<Rightarrow> validation_result" where
  "vr_add_warning w r = r\<lparr>vr_warnings := vr_warnings r @ [w]\<rparr>"

definition vr_add_function_call :: "string \<Rightarrow> validation_result \<Rightarrow> validation_result" where
  "vr_add_function_call f r = r\<lparr>vr_function_calls := List.insert f (vr_function_calls r)\<rparr>"

definition vr_add_unknown_function :: "string \<Rightarrow> validation_result \<Rightarrow> validation_result" where
  "vr_add_unknown_function f r = r\<lparr>unknown_functions := List.insert f (unknown_functions r),
     vr_purity := purity_combine (vr_purity r) PurityUnknown\<rparr>"

definition vr_add_impure_function :: "string \<Rightarrow> validation_result \<Rightarrow> validation_result" where
  "vr_add_impure_function f r = r\<lparr>impure_functions := List.insert f (impure_functions r),
     vr_purity := purity_combine (vr_purity r) Impure\<rparr>"

definition vr_set_purity :: "purity_level \<Rightarrow> validation_result \<Rightarrow> validation_result" where
  "vr_set_purity p r = r\<lparr>vr_purity := purity_combine (vr_purity r) p\<rparr>"


section \<open>Validation of an analysis\<close>

text \<open>One round of the loop over the function calls, on the result under construction.\<close>

definition classify_call ::
  "validator_data \<Rightarrow> (string \<Rightarrow> string) \<Rightarrow> string \<Rightarrow> validation_result \<Rightarrow> validation_result" where
  "classify_call d base_of f r =
     (let base_name = base_of f in
      if f \<in> set (allowed_functions d) \<or> base_name \<in> set (allowed_functions d) then r
      else if f \<in> set (prohibited_functions d) then
        r\<lparr>vr_errors := vr_errors r @ [''Prohibited function '' @ quoted f @ '' detected (blacklisted)''],
          impure_functions := List.insert f (impure_functions r),
          vr_purity := purity_combine (vr_purity r) Impure\<rparr>
      else if base_name \<in> set (prohibited_functions d) \<and> \<not> list_ex (\<lambda>e. contains_str e f) (vr_errors r) then
        r\<lparr>vr_errors := vr_errors r @ [''Prohibited function '' @ quoted base_name @ '' detected (blacklisted)''],
          impure_functions := List.insert f (impure_functions r),
          vr_purity := purity_combine (vr_purity r) Impure\<rparr>
      else
        r\<lparr>unknown_functions := List.insert f (unknown_functions r),
          vr_purity := purity_combine (vr_purity r) PurityUnknown,
          vr_warnings := vr_warnings r @ [''Unknown function '' @ quoted f @
            '' - purity cannot be determined without LSP analysis'']\<rparr>)"

text \<open>One round of the loop over the variable accesses.\<close>

definition check_variable ::
  "(string \<Rightarrow> string) \<Rightarrow> validator_data \<Rightarrow> (string \<Rightarrow> string option) \<Rightarrow> string \<Rightarrow> validation_result \<Rightarrow> validation_result" where
  "check_variable lower d sensitive var r =
     (if vd_variable_whitelist d \<noteq> [] then
        (if \<not> list_ex (\<lambda>w. lower w = lower var) (vd_variable_whitelist d) then
           vr_add_warning (''Variable '' @ quoted var @ '' is not in the allowed variable whitelist'') r
         else r)
      else (case sensitive var of
          Some pattern \<Rightarrow> vr_add_warning (''Sensitive variable '' @ quoted var @ '' detected (matches pattern '' @
            quoted pattern @ '')'') r
        | None \<Rightarrow> r))"

definition validate_ast_result ::
  "(string \<Rightarrow> string) \<Rightarrow> validator_data \<Rightarrow> (string \<Rightarrow> string) \<Rightarrow> (string \<Rightarrow> string option) \<Rightarrow> tree_sitter_result \<Rightarrow>
   purity_level \<Rightarrow> validation_result" where
  "validate_ast_result lower d base_of sensitive ast initial_purity =
     (let r = \<lparr>vr_is_safe = True, vr_purity = initial_purity, vr_errors = tr_violations ast, vr_warnings = [],
            vr_function_calls = tr_function_calls ast, unknown_functions = [], impure_functions = [],
            resolved_functions = []\<rparr>;
          r = fold (classify_call d base_of) (tr_function_calls ast) r;
          r = fold (check_variable lower d sensitive) (tr_variable_accesses ast) r;
          has_sensitive_vars = list_ex (\<lambda>w. contains_str w ''Sensitive variable'' \<or>
            contains_str w ''not in the allowed variable whitelist'') (vr_warnings r) in
      r\<lparr>vr_is_safe := vr_errors r = [] \<and> tr_is_safe ast \<and> \<not> has_sensitive_vars\<rparr>)"

definition python_validate ::
  "(string \<Rightarrow> string) \<Rightarrow> analysis_env \<Rightarrow> validator_data \<Rightarrow> string \<Rightarrow> safety_level \<Rightarrow> tree_sitter_cache \<Rightarrow>
   validation_result \<times> tree_sitter_cache" where
  "python_validate lower env d e lvl c =
     (let (ast, c) = analyze_python env e lvl (allowed_functions d) c in
      (validate_ast_result lower d extract_base_name (matches_sensitive_pattern_base lower d) ast Pure, c))"

definition go_validate ::
  "(string \<Rightarrow> string) \<Rightarrow> analysis_env \<Rightarrow> validator_data \<Rightarrow> string \<Rightarrow> safety_level \<Rightarrow> tree_sitter_cache \<Rightarrow>
   validation_result \<times> tree_sitter_cache" where
  "go_validate lower env d e lvl c =
     (let (ast, c) = analyze_go env e lvl (allowed_functions d) c in
      (validate_ast_result lower d extract_base_name (go_check_sensitive_pattern lower d) ast Pure, c))"

definition rust_validate ::
  "(string \<Rightarrow> string) \<Rightarrow> analysis_env \<Rightarrow> validator_data \<Rightarrow> string \<Rightarrow> safety_level \<Rightarrow> tree_sitter_cache \<Rightarrow>
   validation_result \<times> tree_sitter_cache" where
  "rust_validate lower env d e lvl c =
     (let (ast, c) = analyze_rust env e lvl (allowed_functions d) c;
          initial_purity = (if tr_has_unsafe ast then Impure else Pure) in
      (validate_ast_result lower d rust_extract_base_name (rust_check_sensitive_pattern lower d) ast initial_purity, c))"


section \<open>Registry\<close>

type_synonym validator_registry = "(source_language \<times> validator_data) list"

definition validator_of_config :: "string list \<Rightarrow> string list \<Rightarrow> language_safety_config \<Rightarrow> validator_data" where
  "validator_of_config allowed prohibited cfg =
     \<lparr>allowed_functions = allowed, prohibited_functions = prohibited,
      vd_sensitive_patterns = sensitive_patterns cfg, vd_variable_whitelist = variable_whitelist cfg\<rparr>"

definition python_validator :: "language_safety_config \<Rightarrow> validator_data" where
  "python_validator cfg = validator_of_config (python_allowed_set cfg) (python_prohibited_set cfg) cfg"

definition go_validator :: "language_safety_config \<Rightarrow> validator_data" where
  "go_validator cfg = validator_of_config (go_allowed_set cfg) (go_prohibited_set cfg) cfg"

definition rust_validator :: "language_safety_config \<Rightarrow> validator_data" where
  "rust_validator cfg = validator_of_config (rust_allowed_set cfg) (rust_prohibited_set cfg) cfg"

definition registry_new ::
  "language_safety_config \<Rightarrow> language_safety_config \<Rightarrow> language_safety_config \<Rightarrow> validator_registry" where
  "registry_new py gocfg rscfg =
     AList.update Rust (rust_validator rscfg) (AList.update Go (go_validator gocfg)
       (AList.update Python (python_validator py) []))"

definition parse_language_error :: "string \<Rightarrow> string" where
  "parse_language_error s = ''Invalid language '' @ quoted s @ ''. Valid options: python, go, rust, javascript, '' @
     ''typescript, java, cpp, c, ruby, php''"

definition registry_validate ::
  "(string \<Rightarrow> string) \<Rightarrow> analysis_env \<Rightarrow> validator_registry \<Rightarrow> string \<Rightarrow> string \<Rightarrow> safety_level \<Rightarrow> tree_sitter_cache \<Rightarrow>
   validation_result app_result \<times> tree_sitter_cache" where
  "registry_validate lower env reg language e lvl c =
     (case lang_from_str language of
        None \<Rightarrow> (Inl (CoreError (InvalidConfig (parse_language_error language))), c)
      | Some lang \<Rightarrow>
          (case map_of reg lang of
             None \<Rightarrow> (Inl (SafetyTyped (UnsupportedLanguage lang)), c)
           | Some d \<Rightarrow>
               (let (r, c) = (case lang of Python \<Rightarrow> python_validate lower env d e lvl c
                              | Go \<Rightarrow> go_validate lower env d e lvl c
                              | _ \<Rightarrow> rust_validate lower env d e lvl c) in (Inr r, c))))"

definition registry_is_function_allowed ::
  "validator_registry \<Rightarrow> string \<Rightarrow> string \<Rightarrow> safety_level \<Rightarrow> bool app_result" where
  "registry_is_function_allowed reg language f lvl =
     (case lang_from_str language of
        None \<Rightarrow> Inl (CoreError (InvalidConfig (parse_language_error language)))
      | Some lang \<Rightarrow>
          (case map_of reg lang of
             None \<Rightarrow> Inl (SafetyTyped (UnsupportedLanguage lang))
           | Some d \<Rightarrow> Inr (is_function_allowed_base d f lvl)))"

definition supports_language :: "validator_registry \<Rightarrow> string \<Rightarrow> bool" where
  "supports_language reg language =
     (case lang_from_str language of None \<Rightarrow> False | Some lang \<Rightarrow> map_of reg lang \<noteq> None)"


section \<open>Resolution of unknown functions\<close>

record purity_analyzer =
  pa_ensure_ready :: "unit result"
  pa_analyze_function :: "string \<Rightarrow> string \<Rightarrow> purity_analysis result"

definition resolve_function :: "purity_analyzer \<Rightarrow> string \<Rightarrow> string \<Rightarrow> validation_result \<Rightarrow> validation_result" where
  "resolve_function analyzer path f r =
     (case pa_analyze_function analyzer f path of
        Inl _ \<Rightarrow> r
      | Inr analysis \<Rightarrow>
          (case level analysis of
             Pure \<Rightarrow>
               r\<lparr>unknown_functions := removeAll f (unknown_functions r),
                 vr_warnings := filter (\<lambda>w. \<not> contains_str w (quoted f)) (vr_warnings r),
                 resolved_functions := resolved_functions r @
                   [\<lparr>rf_name = f, rf_resolution = ''pure'', rf_source = ''LSP call hierarchy analysis''\<rparr>]\<rparr>
           | Impure \<Rightarrow>
               (let reasons = map (\<lambda>c. function_name c @ '': '' @ call_reason c) (impure_calls analysis);
                    r = r\<lparr>unknown_functions := removeAll f (unknown_functions r),
                          impure_functions := List.insert f (impure_functions r)\<rparr>;
                    r = vr_add_error (''Function '' @ quoted f @ '' is impure (LSP analysis): '' @ join_str '', '' reasons) r in
                r\<lparr>resolved_functions := resolved_functions r @
                   [\<lparr>rf_name = f, rf_resolution = ''impure'', rf_source = ''LSP call hierarchy analysis''\<rparr>]\<rparr>)
           | PurityUnknown \<Rightarrow> r))"

definition resolve_purity ::
  "(source_language \<Rightarrow> purity_analyzer option) \<Rightarrow> source_language \<Rightarrow> string \<Rightarrow> validation_result \<Rightarrow> validation_result" where
  "resolve_purity analyzers lang path r =
     (case analyzers lang of
        None \<Rightarrow> r
      | Some analyzer \<Rightarrow>
          (case pa_ensure_ready analyzer of
             Inl _ \<Rightarrow> r
           | Inr _ \<Rightarrow>
               (let r = fold (resolve_function analyzer path) (unknown_functions r) r in
                if unknown_functions r = [] \<and> impure_functions r = [] then
                  r\<lparr>vr_purity := Pure, vr_is_safe := purity_is_safe Pure\<rparr>
                else if impure_functions r \<noteq> [] then
                  r\<lparr>vr_purity := Impure, vr_is_safe := purity_is_safe Impure\<rparr>
                else r)))"


section \<open>What a safe result means\<close>

definition base_name_of :: "source_language \<Rightarrow> string \<Rightarrow> string" where
  "base_name_of lang = (if lang = Rust then rust_extract_base_name else extract_base_name)"

definition sensitive_match :: "source_language \<Rightarrow> (string \<Rightarrow> string) \<Rightarrow> validator_data \<Rightarrow> string \<Rightarrow> string option" where
  "sensitive_match lang = (case lang of Python \<Rightarrow> matches_sensitive_pattern_base
     | Go \<Rightarrow> go_check_sensitive_pattern | _ \<Rightarrow> rust_check_sensitive_pattern)"

text \<open>A function may be called: it is whitelisted, by its own name or by its base name, or it is not
  prohibited under either; in strict mode only whitelisted ones are left.\<close>

definition call_permitted :: "validator_data \<Rightarrow> source_language \<Rightarrow> safety_level \<Rightarrow> string \<Rightarrow> bool" where
  "call_permitted d lang lvl f \<longleftrightarrow>
     (f \<in> set (allowed_functions d) \<or> base_name_of lang f \<in> set (allowed_functions d) \<or>
      f \<notin> set (prohibited_functions d) \<and> base_name_of lang f \<notin> set (prohibited_functions d)) \<and>
     (lvl = Strict \<longrightarrow> f \<in> set (allowed_functions d) \<or> (\<exists>n \<in> set (strict_names lang f). n \<in> set (allowed_functions d)))"

text \<open>A name may be observed: with a whitelist it is on it, without one it matches no sensitive pattern.\<close>

definition variable_permitted ::
  "(string \<Rightarrow> string) \<Rightarrow> validator_data \<Rightarrow> source_language \<Rightarrow> string \<Rightarrow> bool" where
  "variable_permitted lower d lang x \<longleftrightarrow>
     (if vd_variable_whitelist d \<noteq> [] then \<exists>w \<in> set (vd_variable_whitelist d). lower w = lower x
      else sensitive_match lang lower d x = None)"

lemma classify_fold_ok:
  assumes "vr_errors (fold (classify_call d base_of) fs r) = []"
  shows "vr_errors r = [] \<and> (\<forall>f \<in> set fs. f \<in> set (allowed_functions d) \<or> base_of f \<in> set (allowed_functions d) \<or>
    f \<notin> set (prohibited_functions d) \<and> base_of f \<notin> set (prohibited_functions d))"
  using assms
proof (induction fs arbitrary: r)
  case (Cons f fs)
  have IH: "vr_errors (classify_call d base_of f r) = []" and rest: "\<forall>f \<in> set fs. f \<in> set (allowed_functions d) \<or>
      base_of f \<in> set (allowed_functions d) \<or> f \<notin> set (prohibited_functions d) \<and> base_of f \<notin> set (prohibited_functions d)"
    using Cons.IH[of "classify_call d base_of f r"] Cons.prems by simp_all
  then show ?case by (auto simp: classify_call_def Let_def split: if_splits)
qed simp

lemma check_variable_keeps:
  "vr_errors (check_variable lower d sensitive x r) = vr_errors r"
  "set (vr_warnings r) \<subseteq> set (vr_warnings (check_variable lower d sensitive x r))"
  by (auto simp: check_variable_def vr_add_warning_def split: option.splits)

lemma check_variable_fold:
  "vr_errors (fold (check_variable lower d sensitive) xs r) = vr_errors r"
  "set (vr_warnings r) \<subseteq> set (vr_warnings (fold (check_variable lower d sensitive) xs r))"
  by (induction xs arbitrary: r) (simp_all add: check_variable_keeps, meson check_variable_keeps(2) subset_trans)

lemma warning_texts:
  "contains_str (''Sensitive variable '' @ s) ''Sensitive variable''"
  "contains_str (t @ '' is not in the allowed variable whitelist'') ''not in the allowed variable whitelist''"
proof -
  have "prefix ''Sensitive variable'' (''Sensitive variable '' @ s)" by simp
  then show "contains_str (''Sensitive variable '' @ s) ''Sensitive variable''"
    unfolding contains_str_def by (rule prefix_imp_sublist)
  have "suffix ''not in the allowed variable whitelist'' '' is not in the allowed variable whitelist''"
    by (simp add: suffix_def exI[of _ "'' is ''"])
  then show "contains_str (t @ '' is not in the allowed variable whitelist'') ''not in the allowed variable whitelist''"
    unfolding contains_str_def by (intro suffix_imp_sublist suffix_appendI)
qed

definition sensitive_warning :: "string \<Rightarrow> bool" where
  "sensitive_warning w \<longleftrightarrow> contains_str w ''Sensitive variable'' \<or> contains_str w ''not in the allowed variable whitelist''"

lemma check_variable_warns:
  assumes "\<not> (if vd_variable_whitelist d \<noteq> [] then \<exists>w \<in> set (vd_variable_whitelist d). lower w = lower x else sensitive x = None)"
  shows "\<exists>w \<in> set (vr_warnings (check_variable lower d sensitive x r)). sensitive_warning w"
proof (cases "vd_variable_whitelist d = []")
  case True
  then show ?thesis
    using assms warning_texts(1) unfolding check_variable_def vr_add_warning_def sensitive_warning_def
    by (auto simp del: append_Cons append.simps)
next
  case False
  then show ?thesis
    using assms warning_texts(2)[of "''Variable '' @ quoted x"]
    unfolding check_variable_def vr_add_warning_def sensitive_warning_def
    by (auto simp: list_ex_iff simp del: append_Cons append.simps)
qed

lemma check_variable_fold_ok:
  assumes "\<not> list_ex sensitive_warning (vr_warnings (fold (check_variable lower d sensitive) xs r))" "x \<in> set xs"
  shows "if vd_variable_whitelist d \<noteq> [] then \<exists>w \<in> set (vd_variable_whitelist d). lower w = lower x else sensitive x = None"
proof (rule ccontr)
  assume bad: "\<not> ?thesis"
  obtain as bs where xs: "xs = as @ x # bs" using assms(2) by (metis split_list)
  let ?r = "check_variable lower d sensitive x (fold (check_variable lower d sensitive) as r)"
  obtain w where "w \<in> set (vr_warnings ?r)" "sensitive_warning w"
    using check_variable_warns[of d lower x sensitive] bad by blast
  then have "w \<in> set (vr_warnings (fold (check_variable lower d sensitive) xs r))"
    using check_variable_fold(2)[of ?r lower d sensitive bs] by (auto simp: xs)
  then show False using assms(1) \<open>sensitive_warning w\<close> by (auto simp: list_ex_iff)
qed

lemma validate_ast_result_safe:
  assumes "vr_is_safe (validate_ast_result lower d base_of sensitive ast p)"
  shows "tr_is_safe ast"
    and "\<forall>f \<in> set (tr_function_calls ast). f \<in> set (allowed_functions d) \<or> base_of f \<in> set (allowed_functions d) \<or>
      f \<notin> set (prohibited_functions d) \<and> base_of f \<notin> set (prohibited_functions d)"
    and "\<forall>x \<in> set (tr_variable_accesses ast). if vd_variable_whitelist d \<noteq> []
      then \<exists>w \<in> set (vd_variable_whitelist d). lower w = lower x else sensitive x = None"
proof -
  define r where "r = fold (classify_call d base_of) (tr_function_calls ast)
    \<lparr>vr_is_safe = True, vr_purity = p, vr_errors = tr_violations ast, vr_warnings = [], vr_function_calls = tr_function_calls ast,
     unknown_functions = [], impure_functions = [], resolved_functions = []\<rparr>"
  have all: "vr_errors r = []" "tr_is_safe ast"
      "\<not> list_ex sensitive_warning (vr_warnings (fold (check_variable lower d sensitive) (tr_variable_accesses ast) r))"
    using assms
    by (simp_all only: validate_ast_result_def Let_def r_def[symmetric] check_variable_fold(1) sensitive_warning_def[abs_def]
        validation_result.simps validation_result.update_convs) simp_all
  show "tr_is_safe ast" by (rule all(2))
  show "\<forall>f \<in> set (tr_function_calls ast). f \<in> set (allowed_functions d) \<or> base_of f \<in> set (allowed_functions d) \<or>
      f \<notin> set (prohibited_functions d) \<and> base_of f \<notin> set (prohibited_functions d)"
    using classify_fold_ok[OF all(1)[unfolded r_def]] by blast
  show "\<forall>x \<in> set (tr_variable_accesses ast). if vd_variable_whitelist d \<noteq> []
      then \<exists>w \<in> set (vd_variable_whitelist d). lower w = lower x else sensitive x = None"
    using check_variable_fold_ok[OF all(3)] by blast
qed


lemma registry_validate_analysis:
  assumes "lang \<in> analysed_languages" "map_of reg lang = Some d"
  shows "\<exists>p. fst (registry_validate lower env reg (lang_as_str lang) e lvl c) =
    Inr (validate_ast_result lower d (base_name_of lang) (sensitive_match lang lower d)
      (fst (analyze env lang e lvl (allowed_functions d) c)) p)"
proof -
  have "lang_from_str (lang_as_str lang) = Some lang"
    using assms(1) by (elim insertE emptyE) (simp_all add: lang_from_str_def to_ascii_lowercase_char_def byte_of_def)
  then show ?thesis
    using assms
    by (elim insertE emptyE)
      (auto simp: registry_validate_def python_validate_def go_validate_def rust_validate_def base_name_of_def
        sensitive_match_def analyze_def Let_def case_prod_beta)
qed



definition sample_validator :: validator_data where
  "sample_validator = \<lparr>allowed_functions = [''len''], prohibited_functions = [''eval''],
     vd_sensitive_patterns = [''password''], vd_variable_whitelist = []\<rparr>"


text \<open>The tree of a call of method \<open>m\<close> on a plain name, as the Python grammar has it.\<close>

definition method_call_tree :: "string \<Rightarrow> string \<Rightarrow> ts_node" where
  "method_call_tree recv m =
     (let r = length recv; t = r + 1 + length m in
      TsNode ''module'' 0 (t + 2) [(None, TsNode ''expression_statement'' 0 (t + 2) [(None, TsNode ''call'' 0 (t + 2)
        [(Some ''function'', TsNode ''attribute'' 0 t
           [(Some ''object'', TsNode ''identifier'' 0 r []), (None, TsNode ''.'' r (r + 1) []),
            (Some ''attribute'', TsNode ''identifier'' (r + 1) t [])]),
         (Some ''arguments'', TsNode ''argument_list'' t (t + 2)
           [(None, TsNode ''('' t (t + 1) []), (None, TsNode '')'' (t + 1) (t + 2) [])])])])])"

lemma split_char_dot: "split_char c (s @ c # m) \<noteq> [x]"
  by (induction s arbitrary: x) (auto split: list.splits)

lemma last_split_char: "c \<notin> set m \<Longrightarrow> last (split_char c (s @ c # m)) = m"
  by (induction s) (auto simp: split_char_absent split_char_dot split: list.splits)



text \<open>The resolution of unknown functions forgets why an expression was rejected: when the analyzer
  finds every unknown function pure and none was impure, the result is marked safe, whatever errors
  and sensitive variables it holds.\<close>

theorem resolve_purity_overrides_errors:
  assumes "analyzers lang = Some a" "pa_ensure_ready a = Inr ()" "impure_functions r = []"
    and "\<forall>f \<in> set (unknown_functions r). \<exists>an. pa_analyze_function a f path = Inr an \<and> level an = Pure"
  shows "vr_is_safe (resolve_purity analyzers lang path r) \<and>
    vr_errors (resolve_purity analyzers lang path r) = vr_errors r"
proof -
  have "unknown_functions (fold (resolve_function a path) fs r) = filter (\<lambda>f. f \<notin> set fs) (unknown_functions r) \<and>
      impure_functions (fold (resolve_function a path) fs r) = impure_functions r \<and>
      vr_errors (fold (resolve_function a path) fs r) = vr_errors r"
    if "\<forall>f \<in> set fs. \<exists>an. pa_analyze_function a f path = Inr an \<and> level an = Pure" for fs
    using that
  proof (induction fs arbitrary: r)
    case (Cons f fs)
    have "unknown_functions (resolve_function a path f r) = removeAll f (unknown_functions r)"
      "impure_functions (resolve_function a path f r) = impure_functions r"
      "vr_errors (resolve_function a path f r) = vr_errors r"
      using Cons.prems by (auto simp: resolve_function_def)
    then show ?case
      using Cons.IH[of "resolve_function a path f r"] Cons.prems
      by (auto simp: removeAll_filter_not_eq intro!: filter_cong)
  qed simp
  from this[OF assms(4)] show ?thesis
    using assms(1-3) by (simp add: resolve_purity_def Let_def purity_is_safe_def)
qed

theorem resolve_purity_overrides_errors_witness:
  "vr_is_safe (resolve_purity
     (\<lambda>_. Some \<lparr>pa_ensure_ready = Inr (), pa_analyze_function = (\<lambda>_ _. Inr analysis_pure)\<rparr>) Python ''a.py''
     ((vr_unsafe_with_errors [''Import statement detected''])\<lparr>unknown_functions := [''f'']\<rparr>)) \<and>
   vr_errors (resolve_purity
     (\<lambda>_. Some \<lparr>pa_ensure_ready = Inr (), pa_analyze_function = (\<lambda>_ _. Inr analysis_pure)\<rparr>) Python ''a.py''
     ((vr_unsafe_with_errors [''Import statement detected''])\<lparr>unknown_functions := [''f'']\<rparr>)) =
   vr_errors ((vr_unsafe_with_errors [''Import statement detected''])\<lparr>unknown_functions := [''f'']\<rparr>)"
  by (rule resolve_purity_overrides_errors[where
        a = "\<lparr>pa_ensure_ready = Inr (), pa_analyze_function = (\<lambda>_ _. Inr analysis_pure)\<rparr>"])
    (simp_all add: vr_unsafe_with_errors_def analysis_pure_def)

end
