(* ===== verification/Service_State.thy ===== *)
theory Service_State
  imports Complex_Main Metric_Store Dap_Logpoints Vfs Safety_Validator
begin

text \<open>
  The state of the metric service (detrix-application, services/metric_service) and the parts its
  operations share: calls of the repository and of the debug adapters, the checks before a metric
  is stored, and the merged logpoint of a location. An operation is a function of the state that
  returns a result and the next state. The replies of the debuggers are a list in the state,
  consumed one by one, so that a statement for all states covers every pattern of failures. The
  file inspection and the anchor service are parameters. Where the source puts the text of an error
  into a warning, the model keeps the error.
\<close>


section \<open>State and results\<close>

record connected_adapter =
  ca_kind :: adapter_kind
  ca_safe_mode :: bool
  ca_dap :: dap_adapter

datatype service_event =
    MetricAdded u64 string string
  | MetricRemoved u64 string string
  | MetricToggled u64 string bool string
  | MetricRelocated u64 string u32 u32 "string option" string
  | MetricOrphaned u64 string string string string

record service_state =
  sv_store :: store
  sv_adapters :: "(string \<times> connected_adapter) list"
  sv_replies :: "dap_reply list"
  sv_vfs :: cached_file_system
  sv_ast_cache :: tree_sitter_cache
  sv_events :: "service_event list"
  sv_now :: nat

text \<open>The confidence of a relocation is the exact value of the single-precision number.\<close>

datatype relocation_result =
    ExactMatch
  | RelocatedInSymbol u32 u32 string
  | RelocatedByContext u32 u32 rat
  | RelocationOrphaned string string

record limits_config =
  max_expressions_per_metric :: nat
  max_expression_length :: nat

record service_env =
  se_lower :: "string \<Rightarrow> string"
  se_analysis :: analysis_env
  se_validators :: validator_registry
  se_purity_analyzers :: "source_language \<Rightarrow> purity_analyzer option"
  se_limits :: limits_config
  se_content_hash :: "string \<Rightarrow> string"
  se_inspect :: "cached_file_system \<Rightarrow> string \<Rightarrow> u32 \<Rightarrow> string list option app_result"
  se_capture_anchor :: "cached_file_system \<Rightarrow> location \<Rightarrow> source_language \<Rightarrow> metric_anchor result"
  se_verify_anchor :: "cached_file_system \<Rightarrow> location \<Rightarrow> metric_anchor \<Rightarrow> source_language \<Rightarrow> bool result"
  se_relocate :: "cached_file_system \<Rightarrow> string \<Rightarrow> metric_anchor \<Rightarrow> source_language \<Rightarrow> relocation_result result"

datatype operation_warning =
    RollbackFailed string app_error
  | MetricRollbackFailed "u64 option" string app_error
  | NoSafetyValidator string string
  | BroadcastChannelClosed string
  | AdapterStopFailed app_error
  | AdapterSyncFailed string app_error
  | BreakpointNotVerified string u32 "string option"
  | MetricReplaced string u64 string
  | FetchFailed string app_error
  | SerializationFailed string string
  | DeserializationFailed string string
  | ExpressionsMerged string u64 "string list" string
  | AnchorCaptureFailed string string error
  | PurityResolution string string string

record 'a operation_outcome =
  oo_value :: 'a
  oo_warnings :: "operation_warning list"

definition with_warnings :: "'a \<Rightarrow> operation_warning list \<Rightarrow> 'a operation_outcome" where
  "with_warnings v ws = \<lparr>oo_value = v, oo_warnings = ws\<rparr>"

record group_operation_result =
  gr_succeeded :: nat
  gr_failed :: "(string \<times> app_error) list"
  gr_skipped :: nat

definition is_complete :: "group_operation_result \<Rightarrow> bool" where
  "is_complete g \<longleftrightarrow> gr_failed g = []"

definition group_total :: "group_operation_result \<Rightarrow> nat" where
  "group_total g = gr_succeeded g + length (gr_failed g) + gr_skipped g"

record toggle_metric_result =
  tg_storage_updated :: bool
  tg_dap_confirmed :: bool
  tg_actual_line :: "u32 option"
  tg_dap_message :: "string option"

definition toggle_no_change :: toggle_metric_result where
  "toggle_no_change = \<lparr>tg_storage_updated = False, tg_dap_confirmed = True, tg_actual_line = None,
     tg_dap_message = Some ''No change needed''\<rparr>"


section \<open>Operations on the state\<close>

type_synonym 'a service = "service_state \<Rightarrow> 'a app_result \<times> service_state"

definition svc_return :: "'a \<Rightarrow> 'a service" where
  "svc_return a s = (Inr a, s)"

definition svc_lift :: "'a app_result \<Rightarrow> 'a service" where
  "svc_lift r s = (r, s)"

text \<open>The operator \<open>?\<close>.\<close>

definition svc_bind :: "'a service \<Rightarrow> ('a \<Rightarrow> 'b service) \<Rightarrow> 'b service" where
  "svc_bind m f s = (case m s of (Inl e, s) \<Rightarrow> (Inl e, s) | (Inr a, s) \<Rightarrow> f a s)"

text \<open>Matching on the result instead of passing an error on.\<close>

definition svc_try :: "'a service \<Rightarrow> 'a app_result service" where
  "svc_try m s = (case m s of (r, s) \<Rightarrow> (Inr r, s))"

definition svc_get :: "(service_state \<Rightarrow> 'a) \<Rightarrow> 'a service" where
  "svc_get f s = (Inr (f s), s)"

definition svc_store :: "(store \<Rightarrow> 'a result \<times> store) \<Rightarrow> 'a service" where
  "svc_store f s = (case f (sv_store s) of (r, st) \<Rightarrow> (lift_core r, s\<lparr>sv_store := st\<rparr>))"

definition svc_send :: "service_event \<Rightarrow> unit service" where
  "svc_send e s = (Inr (), s\<lparr>sv_events := sv_events s @ [e]\<rparr>)"

definition next_reply :: "service_state \<Rightarrow> dap_reply \<times> service_state" where
  "next_reply s = (case sv_replies s of [] \<Rightarrow> (Reply True None None, s) | r # rs \<Rightarrow> (r, s\<lparr>sv_replies := rs\<rparr>))"

definition no_adapter :: "string \<Rightarrow> app_error" where
  "no_adapter c = ConnectionNotFound (''No adapter found for connection '' @ quoted c)"

definition get_adapter_for_connection :: "string \<Rightarrow> connected_adapter service" where
  "get_adapter_for_connection c s =
     ((case map_of (sv_adapters s) c of Some a \<Rightarrow> Inr a | None \<Rightarrow> Inl (no_adapter c)), s)"

text \<open>A call of the adapter of a connection, with the debugger's next reply.\<close>

definition adapter_call ::
  "(adapter_kind \<Rightarrow> metric \<Rightarrow> dap_reply \<Rightarrow> dap_adapter \<Rightarrow> 'r result \<times> dap_adapter) \<Rightarrow> string \<Rightarrow> metric \<Rightarrow> 'r service" where
  "adapter_call operation c m s =
     (case map_of (sv_adapters s) c of
        None \<Rightarrow> (Inl (no_adapter c), s)
      | Some a \<Rightarrow>
          (case next_reply s of (reply, s) \<Rightarrow>
             (case operation (ca_kind a) m reply (ca_dap a) of (r, d) \<Rightarrow>
                (lift_core r, s\<lparr>sv_adapters := AList.update c (a\<lparr>ca_dap := d\<rparr>) (sv_adapters s)\<rparr>))))"

definition adapter_set :: "string \<Rightarrow> metric \<Rightarrow> set_metric_result service" where
  "adapter_set = adapter_call dap_set_metric"

definition adapter_remove :: "string \<Rightarrow> metric \<Rightarrow> remove_metric_result service" where
  "adapter_remove = adapter_call dap_remove_metric"

text \<open>Union of the expressions, in the order of a \<open>BTreeSet\<close>.\<close>

definition merged_expressions :: "metric list \<Rightarrow> string list" where
  "merged_expressions ms = sort (remdups (concat (map m_expressions ms)))"

definition sync_logpoint :: "string \<Rightarrow> string \<Rightarrow> u32 \<Rightarrow> metric option \<Rightarrow> unit service" where
  "sync_logpoint c path line fallback_metric =
     svc_bind (svc_store (store_find_all_at_location c path line)) (\<lambda>all_metrics.
       let enabled = filter m_enabled all_metrics;
           merged_exprs = merged_expressions enabled in
       svc_bind (svc_try (get_adapter_for_connection c)) (\<lambda>adapter.
         if \<not> is_ok adapter then svc_return ()
         else if merged_exprs = [] then
           (case (case fallback_metric of Some m \<Rightarrow> Some m
                  | None \<Rightarrow> (case all_metrics of [] \<Rightarrow> None | m # _ \<Rightarrow> Some m)) of
              Some m \<Rightarrow> svc_bind (svc_try (adapter_remove c m)) (\<lambda>_. svc_return ())
            | None \<Rightarrow> svc_return ())
         else
           svc_bind (svc_try (adapter_set c ((hd enabled)\<lparr>m_expressions := merged_exprs\<rparr>)))
             (\<lambda>_. svc_return ())))"


section \<open>Checks before a metric is stored\<close>

definition is_safe_mode :: "service_state \<Rightarrow> string \<Rightarrow> bool option" where
  "is_safe_mode s c = map_option ca_safe_mode (map_of (sv_adapters s) c)"

definition validate_safe_mode :: "metric \<Rightarrow> unit service" where
  "validate_safe_mode m s =
     ((if \<not> (needs_introspection m \<or> is_go_function_call m) then Inr ()
       else
         (case is_safe_mode s (m_connection_id m) of
            Some True \<Rightarrow>
              (let operation =
                     (if is_go_function_call m \<and> \<not> needs_introspection m then ''Go function call (requires breakpoint)''
                      else join_str '' and ''
                        ((if m_capture_stack_trace m then [''capture_stack_trace''] else []) @
                         (if m_capture_memory_snapshot m then [''capture_memory_snapshot''] else []) @
                         (if is_go_function_call m then [''Go function call''] else []))) in
               Inl (CoreError (SafeModeViolation operation (m_connection_id m))))
          | Some False \<Rightarrow> Inr ()
          | None \<Rightarrow>
              (let feature =
                     (if is_go_function_call m \<and> \<not> needs_introspection m then ''Go function calls (they require breakpoints)''
                      else ''capture_stack_trace or capture_memory_snapshot'') in
               Inl (ConnectionNotFound (''Connection '' @ quoted (m_connection_id m) @
                 '' not active. Start the connection before adding metrics with '' @ feature @ ''.''))))), s)"

definition check_expression :: "service_env \<Rightarrow> metric \<Rightarrow> string \<Rightarrow> operation_warning list service" where
  "check_expression env m e s =
     (case registry_validate (se_lower env) (se_analysis env) (se_validators env) (lang_as_str (m_language m)) e
             (m_safety_level m) (sv_ast_cache s) of
        (Inl err, c) \<Rightarrow> (Inl err, s\<lparr>sv_ast_cache := c\<rparr>)
      | (Inr r, c) \<Rightarrow>
          (let s = s\<lparr>sv_ast_cache := c\<rparr> in
           if \<not> vr_is_safe r then (Inl (CoreError (SafetyViolation (vr_errors r))), s)
           else if m_safety_level m = Trusted \<and> unknown_functions r \<noteq> [] then
             (let r = resolve_purity (se_purity_analyzers env) (m_language m) (loc_file (m_location m)) r in
              if \<not> vr_is_safe r then (Inl (CoreError (SafetyViolation (vr_errors r))), s)
              else (Inr (map (\<lambda>f. PurityResolution (rf_name f) (rf_resolution f) (rf_source f)) (resolved_functions r)), s))
           else (Inr [], s)))"

primrec check_expressions :: "service_env \<Rightarrow> metric \<Rightarrow> string list \<Rightarrow> operation_warning list service" where
  "check_expressions env m [] = svc_return []"
| "check_expressions env m (e # es) =
     svc_bind (check_expression env m e) (\<lambda>ws. svc_bind (check_expressions env m es) (\<lambda>ws'. svc_return (ws @ ws')))"

definition validate_metric_fields :: "service_env \<Rightarrow> metric \<Rightarrow> operation_warning list service" where
  "validate_metric_fields env m =
     svc_bind (svc_lift (lift_core (validate_name (m_name m)))) (\<lambda>_.
       if m_expressions m = [] \<or> list_all (\<lambda>e. trim e = []) (m_expressions m) then
         svc_lift (Inl (CoreError (InvalidExpression ''Expression cannot be empty'')))
       else if length (m_expressions m) > max_expressions_per_metric (se_limits env) then
         svc_lift (Inl (CoreError (InvalidExpression (''Too many expressions: '' @ show_nat (length (m_expressions m)) @
           '' (max '' @ show_nat (max_expressions_per_metric (se_limits env)) @ '')''))))
       else
         svc_bind (svc_lift (lift_core (validate_expressions_length (m_expressions m) (max_expression_length (se_limits env))))) (\<lambda>_.
           if supports_language (se_validators env) (lang_as_str (m_language m)) then
             check_expressions env m (m_expressions m)
           else svc_return [NoSafetyValidator (lang_as_str (m_language m)) (m_name m)]))"

record language_capabilities =
  has_ast_analysis :: bool
  has_scope_validation :: bool
  has_safety_validator :: bool
  has_lsp_purity :: bool
  has_dap_adapter :: bool
  has_introspection :: bool
  supports_hot_reload :: bool
  dap_adapter_name :: "string option"
  lsp_server_name :: "string option"

definition full_capabilities :: "string \<Rightarrow> string \<Rightarrow> language_capabilities" where
  "full_capabilities dap lsp = \<lparr>has_ast_analysis = True, has_scope_validation = True, has_safety_validator = True,
     has_lsp_purity = True, has_dap_adapter = True, has_introspection = True, supports_hot_reload = False,
     dap_adapter_name = Some dap, lsp_server_name = Some lsp\<rparr>"

definition capabilities :: "source_language \<Rightarrow> language_capabilities" where
  "capabilities lang =
     (case lang of
        Python \<Rightarrow> full_capabilities ''debugpy'' ''pylsp''
      | Go \<Rightarrow> full_capabilities ''dlv'' ''gopls''
      | Rust \<Rightarrow> full_capabilities ''lldb-dap'' ''rust-analyzer''
      | _ \<Rightarrow> \<lparr>has_ast_analysis = False, has_scope_validation = False, has_safety_validator = False,
          has_lsp_purity = False, has_dap_adapter = False, has_introspection = False, supports_hot_reload = False,
          dap_adapter_name = None, lsp_server_name = None\<rparr>)"

definition validate_expression_scope :: "service_env \<Rightarrow> metric \<Rightarrow> unit service" where
  "validate_expression_scope env m s =
     ((if \<not> has_scope_validation (capabilities (m_language m)) then Inr ()
       else
         (let simple_expressions =
                filter (\<lambda>e. CHR ''.'' \<notin> set e \<and> CHR ''('' \<notin> set e \<and> CHR ''['' \<notin> set e) (map trim (m_expressions m)) in
          case se_inspect env (sv_vfs s) (loc_file (m_location m)) (loc_line (m_location m)) of
            Inl _ \<Rightarrow> Inr ()
          | Inr None \<Rightarrow> Inr ()
          | Inr (Some available) \<Rightarrow>
              (case find (\<lambda>e. e \<notin> set available) simple_expressions of
                 None \<Rightarrow> Inr ()
               | Some e \<Rightarrow>
                   Inl (CoreError (InvalidExpression (''Variable '' @ quoted e @ '' is not in scope at '' @
                     loc_file (m_location m) @ '':'' @ show_nat (unat (loc_line (m_location m))) @
                     ''. Available variables: '' @ (if available = [] then ''none'' else join_str '', '' available))))))), s)"

definition validate_metric :: "service_env \<Rightarrow> metric \<Rightarrow> operation_warning list service" where
  "validate_metric env m =
     svc_bind (validate_metric_fields env m) (\<lambda>warnings.
       svc_bind (validate_expression_scope env m) (\<lambda>_. svc_return warnings))"

end
