(* ===== verification/Rust_Floats.thy ===== *)
theory Rust_Floats
  imports Complex_Main "HOL-Library.Log_Nat"
begin

text \<open>
  Floating-point numbers by their exact values: rounding to the nearest number with the significant bits
  of the format, ties to even. The numbers the modelled code computes with have a magnitude between
  \<open>2 ^ -64\<close> and \<open>2 ^ 64\<close> or are zero, so the exponent is always in range.
\<close>


section \<open>Rounding to 24 and to 53 bits\<close>

definition round_half_even :: "rat \<Rightarrow> int" where
  "round_half_even y =
     (let f = \<lfloor>y\<rfloor>; r = y - of_int f
      in if r < 1 / 2 \<or> (r = 1 / 2 \<and> even f) then f else f + 1)"

definition f32_exponent :: "rat \<Rightarrow> int" where
  "f32_exponent x =
     (let (n, d) = quotient_of x;
          k = int (floorlog 2 (nat n)) - int (floorlog 2 (nat d))
      in if 2 powi k \<le> x then k else k - 1)"

definition f32_round :: "rat \<Rightarrow> rat" where
  "f32_round x =
     (if x = 0 then 0
      else let e = f32_exponent x
           in of_int (round_half_even (x * 2 powi (23 - e))) * 2 powi (e - 23))"

definition f64_round :: "rat \<Rightarrow> rat" where
  "f64_round x =
     (if x = 0 then 0
      else let e = f32_exponent \<bar>x\<bar>
           in sgn x * of_int (round_half_even (\<bar>x\<bar> * 2 powi (52 - e))) * 2 powi (e - 52))"


section \<open>Range and monotonicity\<close>

lemma quotient_floorlogs:
  assumes "0 < x" and "quotient_of x = (n, d)"
  shows "2 powi (int (floorlog 2 (nat n)) - int (floorlog 2 (nat d)) - 1) \<le> x"
    and "x < 2 powi (int (floorlog 2 (nat n)) - int (floorlog 2 (nat d)) + 1)"
proof -
  have d: "0 < d" using quotient_of_denom_pos[OF assms(2)] .
  have x: "x = of_int n / of_int d" using quotient_of_div[OF assms(2)] .
  then have n: "0 < n" using assms(1) d by (simp add: zero_less_divide_iff)
  let ?a = "floorlog 2 (nat n)" and ?b = "floorlog 2 (nat d)"
  have nat_bounds: "2 ^ (?a - 1) \<le> nat n" "nat n < 2 ^ ?a" "2 ^ (?b - 1) \<le> nat d" "nat d < 2 ^ ?b"
    using n d floorlog_bounds[of "nat n" 2] floorlog_bounds[of "nat d" 2] by simp_all
  have pos: "0 < ?a" "0 < ?b" using n d by (auto simp: floorlog_def)
  have N: "(2 :: rat) ^ (?a - 1) \<le> of_int n" "(of_int n :: rat) < 2 ^ ?a"
    and D: "(2 :: rat) ^ (?b - 1) \<le> of_int d" "(of_int d :: rat) < 2 ^ ?b"
    using nat_bounds n d
    by (metis (no_types, opaque_lifting) of_nat_le_iff of_nat_less_iff of_nat_nat of_nat_numeral of_nat_power of_int_of_nat_eq less_imp_le)+
  have "(2 :: rat) powi (int ?a - int ?b - 1) = 2 ^ (?a - 1) / 2 ^ ?b"
    using pos by (simp add: power_int_diff power_diff)
  also have "\<dots> \<le> of_int n / of_int d" using N D d n by (intro frac_le) (auto intro: less_imp_le)
  finally show "2 powi (int ?a - int ?b - 1) \<le> x" unfolding x .
  have "of_int n / of_int d < (2 :: rat) ^ ?a / 2 ^ (?b - 1)"
    using N D d n by (intro frac_less) auto
  also have "\<dots> = 2 powi (int ?a - int ?b + 1)"
    using pos by (simp add: power_int_diff power_int_add power_diff)
  finally show "x < 2 powi (int ?a - int ?b + 1)" unfolding x .
qed

lemma f32_exponent_bounds:
  assumes "0 < x"
  shows "2 powi f32_exponent x \<le> x" and "x < 2 powi (f32_exponent x + 1)"
proof -
  obtain n d where q: "quotient_of x = (n, d)" by fastforce
  note b = quotient_floorlogs[OF assms q]
  show "2 powi f32_exponent x \<le> x" "x < 2 powi (f32_exponent x + 1)"
    using b by (auto simp: f32_exponent_def q Let_def)
qed

lemma round_half_even_mono: "y \<le> z \<Longrightarrow> round_half_even y \<le> round_half_even z"
proof -
  assume "y \<le> z"
  then have "\<lfloor>y\<rfloor> \<le> \<lfloor>z\<rfloor>" by (rule floor_mono)
  moreover have "\<lfloor>y\<rfloor> \<le> round_half_even y" "round_half_even y \<le> \<lfloor>y\<rfloor> + 1"
    "\<lfloor>z\<rfloor> \<le> round_half_even z" "round_half_even z \<le> \<lfloor>z\<rfloor> + 1"
    by (auto simp: round_half_even_def Let_def)
  moreover have "round_half_even y \<le> round_half_even z" if "\<lfloor>y\<rfloor> = \<lfloor>z\<rfloor>"
    using that \<open>y \<le> z\<close> by (auto simp: round_half_even_def Let_def)
  ultimately show ?thesis by linarith
qed

lemma round_half_even_int [simp]: "round_half_even (of_int k) = k"
  by (simp add: round_half_even_def)


lemma f32_round_scaled:
  assumes "0 < x"
  shows "2 powi f32_exponent x \<le> f32_round x" and "f32_round x \<le> 2 powi (f32_exponent x + 1)"
proof -
  let ?e = "f32_exponent x"
  let ?y = "x * 2 powi (23 - ?e)"
  have scale: "2 powi ?e * 2 powi (23 - ?e) = (2 ^ 23 :: rat)" "2 powi (?e + 1) * 2 powi (23 - ?e) = (2 ^ 24 :: rat)"
    by (simp_all flip: power_int_add)
  have "2 ^ 23 \<le> ?y" "?y \<le> 2 ^ 24"
    using f32_exponent_bounds[OF assms] mult_right_mono[of "2 powi ?e" x "2 powi (23 - ?e)"]
      mult_right_mono[of x "2 powi (?e + 1)" "2 powi (23 - ?e)"] by (simp_all add: scale)
  then have "2 ^ 23 \<le> round_half_even ?y" "round_half_even ?y \<le> 2 ^ 24"
    using round_half_even_mono[of "of_int (2 ^ 23)" ?y] round_half_even_mono[of ?y "of_int (2 ^ 24)"]
    unfolding round_half_even_int by simp_all
  then have "(of_int (2 ^ 23) :: rat) \<le> of_int (round_half_even ?y)"
    "of_int (round_half_even ?y) \<le> (of_int (2 ^ 24) :: rat)" by (simp_all only: of_int_le_iff)
  then have "2 ^ 23 * 2 powi (?e - 23) \<le> f32_round x" "f32_round x \<le> 2 ^ 24 * 2 powi (?e - 23)"
    using assms by (simp_all add: f32_round_def Let_def mult_right_mono)
  moreover have "2 ^ 23 * 2 powi (?e - 23) = (2 powi ?e :: rat)" "2 ^ 24 * 2 powi (?e - 23) = (2 powi (?e + 1) :: rat)"
    by (simp_all add: power_int_diff power_int_add)
  ultimately show "2 powi ?e \<le> f32_round x" "f32_round x \<le> 2 powi (?e + 1)" by simp_all
qed

lemma powi_less: "2 powi a < (2 powi b :: rat) \<Longrightarrow> a < b"
  by (metis not_le power_int_increasing one_le_numeral)

lemma f32_round_zero [simp]: "f32_round 0 = 0"
  by (simp add: f32_round_def)

lemma f32_round_nonneg: "0 \<le> x \<Longrightarrow> 0 \<le> f32_round x"
proof (cases "x = 0")
  case False
  moreover assume "0 \<le> x"
  ultimately have "0 < (2 :: rat) powi f32_exponent x" "2 powi f32_exponent x \<le> f32_round x"
    using f32_round_scaled(1)[of x] by simp_all
  then show ?thesis by linarith
qed simp

lemma f32_round_mono:
  assumes "0 \<le> x" and "x \<le> y"
  shows "f32_round x \<le> f32_round y"
proof (cases "x = 0")
  case True
  then show ?thesis using f32_round_nonneg[of y] assms by simp
next
  case False
  then have pos: "0 < x" "0 < y" using assms by simp_all
  have "2 powi f32_exponent x < (2 powi (f32_exponent y + 1) :: rat)"
    using f32_exponent_bounds[OF pos(1)] f32_exponent_bounds[OF pos(2)] assms by linarith
  then consider "f32_exponent x = f32_exponent y" | "f32_exponent x + 1 \<le> f32_exponent y"
    using powi_less by force
  then show ?thesis
  proof cases
    case 1
    then show ?thesis using pos assms
      by (auto simp: f32_round_def Let_def intro!: mult_right_mono round_half_even_mono)
  next
    case 2
    then have "(2 :: rat) powi (f32_exponent x + 1) \<le> 2 powi f32_exponent y" by (simp add: power_int_increasing)
    then show ?thesis using f32_round_scaled(2)[OF pos(1)] f32_round_scaled(1)[OF pos(2)] by linarith
  qed
qed

lemma f32_round_one [simp]: "f32_round 1 = 1"
proof -
  have "f32_exponent 1 = 0" by (simp add: f32_exponent_def)
  moreover have "round_half_even (8388608 :: rat) = 8388608" using round_half_even_int[of 8388608] by simp
  ultimately show ?thesis by (simp add: f32_round_def Let_def power_int_minus)
qed

end
