(* ===== verification/Anchor_Service.thy ===== *)
theory Anchor_Service
  imports Anchor_Text Service_State Rust_Floats
begin

text \<open>
  The anchor service (\<open>services/anchor_service.rs\<close>): it captures the source context of a metric's line,
  verifies later that the line still stands in that context, and relocates the metric when the code has
  moved, by its enclosing symbol or by the most similar context of the file. Reading a file goes through
  the virtual file system or the disk and is a function of the service; the language server that knows the
  symbols of a file is a parameter. Single-precision numbers are their exact values, rounded after
  every operation.
\<close>


section \<open>Configuration and collaborators\<close>

record symbol_info =
  sym_name :: string
  sym_kind :: u32
  sym_start_line :: u32
  sym_end_line :: u32

record source_context =
  ctx_before :: string
  ctx_line :: string
  ctx_after :: string

record lsp_symbol_lookup =
  lsp_enclosing_symbol :: "string \<Rightarrow> u32 \<Rightarrow> source_language \<Rightarrow> symbol_info option result"
  lsp_file_symbols :: "string \<Rightarrow> source_language \<Rightarrow> symbol_info list result"

record anchor_service_config =
  context_lines :: nat
  max_context_bytes :: nat
  min_fingerprint_confidence :: rat
  anchor_enabled :: bool
  normalization :: normalization_config

record anchor_service =
  as_config :: anchor_service_config
  as_lsp :: "lsp_symbol_lookup option"
  as_read :: "string \<Rightarrow> string result"
  as_analysis :: analysis_env
  as_now :: i64


section \<open>Reading and comparing contexts\<close>

definition read_file_lines :: "anchor_service \<Rightarrow> string \<Rightarrow> string list result" where
  "read_file_lines svc file = map_sum id lines (as_read svc file)"

definition read_context :: "anchor_service \<Rightarrow> string \<Rightarrow> u32 \<Rightarrow> nat \<Rightarrow> nat \<Rightarrow> source_context result" where
  "read_context svc file line n max_bytes =
     try_bind (read_file_lines svc file) (\<lambda>ls.
       let line_idx = unat line - 1
       in if line_idx \<ge> length ls
          then Inl (InvalidConfig (''Line '' @ show_nat (unat line) @ '' out of range (file has ''
                      @ show_nat (length ls) @ '' lines)''))
          else let before_start = line_idx - n;
                   after_end = min (line_idx + 1 + n) (length ls)
               in Inr \<lparr>ctx_before = truncate_to_bytes
                          (join [newline] (take (line_idx - before_start) (drop before_start ls))) max_bytes,
                       ctx_line = truncate_to_bytes (ls ! line_idx) max_bytes,
                       ctx_after = truncate_to_bytes
                          (join [newline] (take (after_end - (line_idx + 1)) (drop (line_idx + 1) ls))) max_bytes\<rparr>)"

definition current_context :: "anchor_service \<Rightarrow> string \<Rightarrow> u32 \<Rightarrow> source_context result" where
  "current_context svc file line =
     read_context svc file line (context_lines (as_config svc)) (max_context_bytes (as_config svc))"

definition combine_context :: "string \<Rightarrow> string \<Rightarrow> string \<Rightarrow> string \<Rightarrow> string" where
  "combine_context sep before line after = before @ sep @ line @ sep @ after"

definition context_fingerprint_of ::
  "anchor_service \<Rightarrow> source_context \<Rightarrow> source_language option \<Rightarrow> string" where
  "context_fingerprint_of svc ctx lang =
     hex_string (sha256_of (as_analysis svc)
       (normalize_for_fingerprint (as_analysis svc) (normalization (as_config svc))
          (combine_context [newline] (ctx_before ctx) (ctx_line ctx) (ctx_after ctx)) lang))"

definition context_similarity :: "anchor_service \<Rightarrow> string \<Rightarrow> string \<Rightarrow> source_language option \<Rightarrow> rat" where
  "context_similarity svc a b lang =
     (let norm_a = normalize_for_fingerprint (as_analysis svc) (normalization (as_config svc)) a lang;
          norm_b = normalize_for_fingerprint (as_analysis svc) (normalization (as_config svc)) b lang
      in if norm_a = [] \<and> norm_b = [] then 1
         else if norm_a = [] \<or> norm_b = [] then 0
         else let distance = levenshtein_distance (chars norm_a) (chars norm_b);
                  max_len = max (length norm_a) (length norm_b)
              in f32_round (1 - f32_round (f32_round (of_nat distance) / f32_round (of_nat max_len))))"

definition find_enclosing_symbol :: "symbol_info list \<Rightarrow> u32 \<Rightarrow> symbol_info option" where
  "find_enclosing_symbol symbols line =
     (case filter (\<lambda>s. sym_start_line s \<le> line \<and> line \<le> sym_end_line s) symbols of
        [] \<Rightarrow> None
      | s # ss \<Rightarrow>
          Some (fold (\<lambda>c best. if sym_end_line c - sym_start_line c < sym_end_line best - sym_start_line best
                               then c else best) ss s))"

definition verify_relocation_in_symbol :: "symbol_info list \<Rightarrow> u32 \<Rightarrow> string option \<Rightarrow> bool" where
  "verify_relocation_in_symbol symbols new_line expected =
     (case expected of
        None \<Rightarrow> True
      | Some name \<Rightarrow>
          (case find_enclosing_symbol symbols new_line of
             Some enclosing \<Rightarrow> sym_name enclosing = name
           | None \<Rightarrow> False))"


section \<open>Relocation\<close>

definition parse_line_from_location :: "string option \<Rightarrow> u32 option" where
  "parse_line_from_location loc =
     Option.bind (Option.bind loc (rsplit_once CHR ''#'')) (\<lambda>(_, line). parse_unsigned line)"

definition relocate_by_symbol_offset ::
  "anchor_service \<Rightarrow> metric_anchor \<Rightarrow> string \<Rightarrow> source_language \<Rightarrow> u32 option" where
  "relocate_by_symbol_offset svc anchor file lang =
     (case (enclosing_symbol anchor, offset_in_symbol anchor, as_lsp svc) of
        (Some symbol_name, Some offset, Some lsp) \<Rightarrow>
          (case lsp_file_symbols lsp file lang of
             Inl _ \<Rightarrow> None
           | Inr symbols \<Rightarrow>
               (case find (\<lambda>s. sym_name s = symbol_name) symbols of
                  None \<Rightarrow> None
                | Some symbol \<Rightarrow>
                    let new_line = sym_start_line symbol + offset
                    in if new_line \<le> sym_end_line symbol then Some new_line else None))
      | _ \<Rightarrow> None)"

definition stored_context :: "string \<Rightarrow> metric_anchor \<Rightarrow> string" where
  "stored_context sep anchor =
     combine_context sep (unwrap_or_empty (context_before anchor)) (unwrap_or_empty (source_line anchor))
       (unwrap_or_empty (context_after anchor))"

text \<open>The similarity of a line of the file, if the line is a candidate.\<close>

definition candidate_similarity ::
  "anchor_service \<Rightarrow> metric_anchor \<Rightarrow> string \<Rightarrow> source_language \<Rightarrow> u32 \<Rightarrow> rat option" where
  "candidate_similarity svc anchor file lang line_num =
     (case current_context svc file line_num of
        Inl _ \<Rightarrow> None
      | Inr ctx \<Rightarrow>
          let similarity = context_similarity svc (stored_context [newline] anchor)
                (combine_context [newline] (ctx_before ctx) (ctx_line ctx) (ctx_after ctx)) (Some lang);
              symbols = (case as_lsp svc of
                           None \<Rightarrow> None
                         | Some lsp \<Rightarrow> (case lsp_file_symbols lsp file lang of Inr s \<Rightarrow> Some s | Inl _ \<Rightarrow> None));
              in_expected_symbol = (case symbols of
                   None \<Rightarrow> True
                 | Some syms \<Rightarrow> verify_relocation_in_symbol syms line_num (enclosing_symbol anchor))
          in if similarity < min_fingerprint_confidence (as_config svc) then None
             else if \<not> in_expected_symbol then None
             else Some similarity)"

definition better_match :: "(u32 \<Rightarrow> rat option) \<Rightarrow> u32 \<Rightarrow> (u32 \<times> rat) option \<Rightarrow> (u32 \<times> rat) option" where
  "better_match similarity_of line_num best =
     (case similarity_of line_num of
        None \<Rightarrow> best
      | Some similarity \<Rightarrow>
          (case best of
             None \<Rightarrow> Some (line_num, similarity)
           | Some (_, best_sim) \<Rightarrow> if similarity > best_sim then Some (line_num, similarity) else best))"

definition relocate_by_context ::
  "anchor_service \<Rightarrow> metric_anchor \<Rightarrow> string \<Rightarrow> source_language \<Rightarrow> (u32 \<times> rat) option" where
  "relocate_by_context svc anchor file lang =
     (if context_fingerprint anchor = None \<and> source_line anchor = None then None
      else case read_file_lines svc file of
        Inl _ \<Rightarrow> None
      | Inr ls \<Rightarrow>
          fold (better_match (candidate_similarity svc anchor file lang))
            (map word_of_nat [1 ..< unat (word_of_nat (length ls) :: u32) + 1]) None)"


section \<open>The port of the service\<close>

definition capture_anchor :: "anchor_service \<Rightarrow> location \<Rightarrow> source_language \<Rightarrow> metric_anchor result" where
  "capture_anchor svc loc lang =
     (if \<not> anchor_enabled (as_config svc) then Inr anchor_new
      else try_bind (current_context svc (loc_file loc) (loc_line loc)) (\<lambda>ctx.
        let fingerprint = context_fingerprint_of svc ctx (Some lang)
        in try_bind (case as_lsp svc of
               None \<Rightarrow> Inr None
             | Some lsp \<Rightarrow> lsp_enclosing_symbol lsp (loc_file loc) (loc_line loc) lang) (\<lambda>symbol_info.
          let anchor = anchor_new\<lparr>context_fingerprint := Some fingerprint,
                context_before := Some (ctx_before ctx), source_line := Some (ctx_line ctx),
                context_after := Some (ctx_after ctx), last_verified_at := Some (as_now svc),
                original_location := Some (to_string_format loc)\<rparr>
          in Inr (case symbol_info of
               None \<Rightarrow> anchor
             | Some symbol \<Rightarrow>
                 anchor\<lparr>enclosing_symbol := Some (sym_name symbol), symbol_kind := Some (sym_kind symbol),
                        symbol_range := Some (sym_start_line symbol, sym_end_line symbol),
                        offset_in_symbol := Some (saturating_sub (loc_line loc) (sym_start_line symbol))\<rparr>))))"

definition verify_anchor :: "anchor_service \<Rightarrow> location \<Rightarrow> metric_anchor \<Rightarrow> source_language \<Rightarrow> bool result" where
  "verify_anchor svc loc anchor lang =
     (if \<not> anchor_enabled (as_config svc) then Inr True
      else case current_context svc (loc_file loc) (loc_line loc) of
        Inl _ \<Rightarrow> Inr False
      | Inr ctx \<Rightarrow>
          (case context_fingerprint anchor of
             None \<Rightarrow> Inr False
           | Some stored_fingerprint \<Rightarrow>
               Inr (context_fingerprint_of svc ctx (Some lang) = stored_fingerprint
                 \<or> context_similarity svc (stored_context [] anchor)
                     (combine_context [] (ctx_before ctx) (ctx_line ctx) (ctx_after ctx)) (Some lang)
                   \<ge> min_fingerprint_confidence (as_config svc))))"

definition relocate :: "anchor_service \<Rightarrow> string \<Rightarrow> metric_anchor \<Rightarrow> source_language \<Rightarrow> relocation_result result" where
  "relocate svc file anchor lang =
     (if \<not> anchor_enabled (as_config svc)
      then Inr (RelocationOrphaned
             (case original_location anchor of None \<Rightarrow> ''unknown'' | Some l \<Rightarrow> l) ''Anchor tracking disabled'')
      else let old_line = (case parse_line_from_location (original_location anchor) of None \<Rightarrow> 0 | Some n \<Rightarrow> n)
           in case relocate_by_symbol_offset svc anchor file lang of
                Some new_line \<Rightarrow>
                  Inr (RelocatedInSymbol old_line new_line (unwrap_or_empty (enclosing_symbol anchor)))
              | None \<Rightarrow>
                  (case relocate_by_context svc anchor file lang of
                     Some (new_line, confidence) \<Rightarrow> Inr (RelocatedByContext old_line new_line confidence)
                   | None \<Rightarrow>
                       Inr (RelocationOrphaned
                         (case original_location anchor of
                            None \<Rightarrow> ''@'' @ file @ ''#'' @ show_nat (unat old_line) | Some l \<Rightarrow> l)
                         ''No matching symbol or context found'')))"


section \<open>Similarity\<close>

lemma distance_le_bytes:
  "levenshtein_distance (chars a) (chars b) \<le> max (length a) (length b)"
  using levenshtein_le_max[of "chars a" "chars b"] length_chars[of a] length_chars[of b] by linarith

lemma ratio_range: "0 \<le> a \<Longrightarrow> a \<le> b \<Longrightarrow> 0 \<le> a / b \<and> a / b \<le> (1 :: rat)"
  by (cases "b = 0") (auto simp: divide_le_eq_1)

lemma context_similarity_range: "0 \<le> context_similarity svc a b lang \<and> context_similarity svc a b lang \<le> 1"
proof -
  have "0 \<le> f32_round (1 - q) \<and> f32_round (1 - q) \<le> 1"
    if d: "d \<le> m" and q: "q = f32_round (f32_round (of_nat d) / f32_round (of_nat m))" for d m :: nat and q
  proof -
    have le: "f32_round (of_nat d) \<le> f32_round (of_nat m)" using d by (intro f32_round_mono) simp_all
    have nonneg: "0 \<le> f32_round (of_nat d)" by (rule f32_round_nonneg) simp
    have "0 \<le> f32_round (of_nat d) / f32_round (of_nat m)" "f32_round (of_nat d) / f32_round (of_nat m) \<le> 1"
      using ratio_range[OF nonneg le] by simp_all
    then have "0 \<le> q" "q \<le> 1" unfolding q using f32_round_nonneg f32_round_mono[of _ 1] by simp_all
    then show ?thesis using f32_round_nonneg[of "1 - q"] f32_round_mono[of "1 - q" 1] by simp
  qed
  then show ?thesis using distance_le_bytes by (auto simp: context_similarity_def Let_def)
qed

lemma context_similarity_refl [simp]: "context_similarity svc a a lang = 1"
  by (simp add: context_similarity_def Let_def)


section \<open>The best match\<close>

lemma better_match_Some:
  "better_match f x best = Some (l, c) \<longleftrightarrow>
     (case f x of
        None \<Rightarrow> best = Some (l, c)
      | Some v \<Rightarrow> (l = x \<and> c = v \<and> (\<forall>m d. best = Some (m, d) \<longrightarrow> d < v))
          \<or> (best = Some (l, c) \<and> v \<le> c))"
  by (auto simp: better_match_def split: option.splits)

lemma best_match_None:
  "fold (better_match f) xs None = None \<longleftrightarrow> (\<forall>x \<in> set xs. f x = None)"
proof (induction xs rule: rev_induct)
  case (snoc x xs)
  then show ?case by (auto simp: better_match_def split: option.splits)
qed simp

text \<open>The result of the scan has the highest similarity of all candidates and is the first one that has it.\<close>

lemma best_match_Some:
  assumes "fold (better_match f) xs None = Some (l, c)"
  shows "\<exists>ys zs. xs = ys @ l # zs \<and> f l = Some c \<and> (\<forall>y \<in> set ys. \<forall>d. f y = Some d \<longrightarrow> d < c)
    \<and> (\<forall>z \<in> set zs. \<forall>d. f z = Some d \<longrightarrow> d \<le> c)"
  using assms
proof (induction xs arbitrary: l c rule: rev_induct)
  case (snoc x xs)
  let ?best = "fold (better_match f) xs None"
  have step: "better_match f x ?best = Some (l, c)" using snoc.prems by simp
  show ?case
  proof (cases "?best = Some (l, c)")
    case True
    from snoc.IH[OF True] obtain ys zs where "xs = ys @ l # zs" "f l = Some c"
      "\<forall>y \<in> set ys. \<forall>d. f y = Some d \<longrightarrow> d < c" "\<forall>z \<in> set zs. \<forall>d. f z = Some d \<longrightarrow> d \<le> c" by blast
    moreover have "\<forall>d. f x = Some d \<longrightarrow> d \<le> c"
      using step True by (auto simp: better_match_def split: if_splits)
    ultimately show ?thesis by (intro exI[of _ ys] exI[of _ "zs @ [x]"]) auto
  next
    case False
    then have new: "l = x" "f x = Some c" and less: "\<And>m d. ?best = Some (m, d) \<Longrightarrow> d < c"
      using step by (auto simp: better_match_Some split: option.splits)
    have "d < c" if "y \<in> set xs" "f y = Some d" for y d
    proof (cases ?best)
      case None
      then show ?thesis using that best_match_None[of f xs] by auto
    next
      case (Some p)
      then obtain m e where best: "?best = Some (m, e)" by (cases p) simp
      from snoc.IH[OF best] obtain ys zs where "xs = ys @ m # zs" "f m = Some e"
        "\<forall>y \<in> set ys. \<forall>d. f y = Some d \<longrightarrow> d < e" "\<forall>z \<in> set zs. \<forall>d. f z = Some d \<longrightarrow> d \<le> e" by blast
      then have "d \<le> e" using that by force
      then show ?thesis using less[OF best] by simp
    qed
    then show ?thesis using new by (intro exI[of _ xs] exI[of _ "[]"]) auto
  qed
qed simp



section \<open>Anchors follow the code\<close>

lemma capture_anchor_enabled:
  assumes "capture_anchor svc loc lang = Inr anchor" and "anchor_enabled (as_config svc)"
  obtains ctx where "current_context svc (loc_file loc) (loc_line loc) = Inr ctx"
    and "context_fingerprint anchor = Some (context_fingerprint_of svc ctx (Some lang))"
    and "context_before anchor = Some (ctx_before ctx)" and "source_line anchor = Some (ctx_line ctx)"
    and "context_after anchor = Some (ctx_after ctx)"
    and "original_location anchor = Some (to_string_format loc)"
    and "as_lsp svc = None \<longrightarrow> enclosing_symbol anchor = None"
  using assms
  by (auto simp: capture_anchor_def try_bind_Inr_iff Let_def anchor_new_def split: option.splits)

definition sample_anchor_service :: "string \<Rightarrow> anchor_service" where
  "sample_anchor_service content =
     \<lparr>as_config = \<lparr>context_lines = 1, max_context_bytes = 200, min_fingerprint_confidence = 4 / 5,
                   anchor_enabled = True, normalization = default_normalization\<rparr>,
      as_lsp = None, as_read = (\<lambda>_. Inr content),
      as_analysis = \<lparr>py_parser = (\<lambda>_. None), go_parser = (\<lambda>_. None), rs_parser = (\<lambda>_. None), sha256_of = id\<rparr>,
      as_now = 0\<rparr>"

definition sample_before :: string where
  "sample_before = ''h'' @ newline # ''x'' @ newline # ''y'' @ newline # ''z''"

definition sample_after :: string where
  "sample_after = ''h'' @ newline # ''n'' @ newline # ''x'' @ newline # ''y'' @ newline # ''z''"

lemma sample_lines: "lines sample_before = [''h'', ''x'', ''y'', ''z'']"
  "lines sample_after = [''h'', ''n'', ''x'', ''y'', ''z'']"
  by code_simp+

lemma sample_contexts:
  "current_context (sample_anchor_service sample_before) f 3 = Inr \<lparr>ctx_before = ''x'', ctx_line = ''y'', ctx_after = ''z''\<rparr>"
  "current_context (sample_anchor_service sample_after) f 4 = Inr \<lparr>ctx_before = ''x'', ctx_line = ''y'', ctx_after = ''z''\<rparr>"
  by (simp_all add: current_context_def read_context_def read_file_lines_def sample_anchor_service_def
      sample_lines truncate_to_bytes_def)

lemma sample_captured:
  "\<exists>anchor. capture_anchor (sample_anchor_service sample_before) \<lparr>loc_file = f, loc_line = 3\<rparr> Python = Inr anchor"
  using sample_contexts(1)[of f] by (simp add: capture_anchor_def sample_anchor_service_def)

lemma fresh_anchor_verifies:
  assumes "capture_anchor svc loc lang = Inr anchor"
  shows "verify_anchor svc loc anchor lang = Inr True"
proof (cases "anchor_enabled (as_config svc)")
  case True
  obtain ctx where "current_context svc (loc_file loc) (loc_line loc) = Inr ctx"
    "context_fingerprint anchor = Some (context_fingerprint_of svc ctx (Some lang))"
    by (rule capture_anchor_enabled[OF assms True])
  then show ?thesis by (simp add: verify_anchor_def)
qed (simp add: verify_anchor_def)

lemma parse_line_printed: "parse_line_from_location (Some (to_string_format loc)) = Some (loc_line loc)"
proof -
  have "to_string_format loc = (CHR ''@'' # loc_file loc) @ CHR ''#'' # show_nat (unat (loc_line loc))"
    by (simp add: to_string_format_def)
  moreover have "rsplit_once CHR ''#'' ((CHR ''@'' # loc_file loc) @ CHR ''#'' # show_nat (unat (loc_line loc)))
      = Some (CHR ''@'' # loc_file loc, show_nat (unat (loc_line loc)))"
    by (intro rsplit_once_last digit_not_hash show_nat_digits)
  ultimately show ?thesis
    by (simp only: parse_line_from_location_def) (simp add: parse_unsigned_show_word)
qed

text \<open>The line numbers of a file.\<close>

definition line_numbers :: "string list \<Rightarrow> u32 list" where
  "line_numbers ls = map word_of_nat [1 ..< length ls + 1]"

lemma set_line_numbers:
  assumes "length ls < 2 ^ 32"
  shows "l \<in> set (line_numbers ls) \<longleftrightarrow> 1 \<le> unat l \<and> unat l \<le> length ls"
proof
  assume "l \<in> set (line_numbers ls)"
  then obtain k where "l = word_of_nat k" "1 \<le> k" "k \<le> length ls" by (auto simp: line_numbers_def)
  then show "1 \<le> unat l \<and> unat l \<le> length ls"
    using assms by (simp add: unat_of_nat take_bit_nat_eq_self)
next
  assume "1 \<le> unat l \<and> unat l \<le> length ls"
  then show "l \<in> set (line_numbers ls)"
    unfolding line_numbers_def set_map by (intro image_eqI[of _ _ "unat l"]) auto
qed

lemma line_numbers_before:
  assumes "line_numbers ls = ys @ l # zs" and "length ls < 2 ^ 32" and "l' \<in> set (line_numbers ls)"
    and "unat l' < unat l"
  shows "l' \<in> set ys"
proof -
  have "map unat (line_numbers ls) = [1 ..< length ls + 1]"
    unfolding line_numbers_def map_map
    by (rule map_idI) (use assms(2) in \<open>auto simp: unat_of_nat take_bit_nat_eq_self\<close>)
  then have "sorted_wrt (<) (map unat ys @ unat l # map unat zs)"
    using assms(1) by (metis map_append list.map(2) sorted_wrt_upt)
  then have "l' \<notin> set (l # zs)" using assms(4) by (force simp: sorted_wrt_append)
  then show ?thesis using assms(1,3) by auto
qed

lemma candidate_of_same_context:
  assumes "as_lsp svc = None" and "min_fingerprint_confidence (as_config svc) \<le> 1"
    and "current_context svc file l = Inr ctx" and "context_before anchor = Some (ctx_before ctx)"
    and "source_line anchor = Some (ctx_line ctx)" and "context_after anchor = Some (ctx_after ctx)"
  shows "candidate_similarity svc anchor file lang l = Some 1"
  using assms by (simp add: candidate_similarity_def stored_context_def unwrap_or_empty_def)

text \<open>C17: A metric follows its code. When the lines around a metric have moved inside their file, so that the
  context captured for the metric now stands at another line, and no language server is connected, then
  relocation succeeds with full confidence at the first line of the file whose context is as similar as
  can be; no line has a higher similarity, and every earlier line has a lower one. The service before and
  after the edit differs in what the file reads.\<close>

theorem relocation_follows_moved_code:
  assumes "capture_anchor (svc\<lparr>as_read := read_before\<rparr>) loc lang = Inr anchor"
    and "current_context (svc\<lparr>as_read := read_before\<rparr>) (loc_file loc) (loc_line loc) = Inr ctx"
    and "current_context svc file l = Inr ctx" and "read_file_lines svc file = Inr ls"
    and "length ls < 2 ^ 32" and "1 \<le> unat l"
    and "anchor_enabled (as_config svc)" and "as_lsp svc = None"
    and "min_fingerprint_confidence (as_config svc) \<le> 1"
  shows "\<exists>new. relocate svc file anchor lang = Inr (RelocatedByContext (loc_line loc) new 1)
     \<and> 1 \<le> unat new \<and> new \<le> l
     \<and> candidate_similarity svc anchor file lang new = Some 1
     \<and> (\<forall>l' \<in> set (line_numbers ls). l' < new \<longrightarrow> candidate_similarity svc anchor file lang l' \<noteq> Some 1)"
proof -
  let ?f = "candidate_similarity svc anchor file lang"
  from assms(1,2,7,8) have anchor: "context_before anchor = Some (ctx_before ctx)"
    "source_line anchor = Some (ctx_line ctx)" "context_after anchor = Some (ctx_after ctx)"
    "context_fingerprint anchor \<noteq> None" "original_location anchor = Some (to_string_format loc)"
    "enclosing_symbol anchor = None"
    by (auto elim!: capture_anchor_enabled)
  have l: "?f l = Some 1" using candidate_of_same_context[OF assms(8,9,3) anchor(1-3)] .
  have l_line: "l \<in> set (line_numbers ls)"
    using assms(3-6) by (auto simp: set_line_numbers current_context_def read_context_def Let_def split: if_splits)
  have scan: "relocate_by_context svc anchor file lang = fold (better_match ?f) (line_numbers ls) None"
    using assms(4,5) anchor by (simp add: relocate_by_context_def line_numbers_def unat_of_nat take_bit_nat_eq_self)
  obtain new c where best: "fold (better_match ?f) (line_numbers ls) None = Some (new, c)"
    using best_match_None[of ?f "line_numbers ls"] l l_line by (cases "fold (better_match ?f) (line_numbers ls) None") auto
  from best_match_Some[OF best] obtain ys zs where split: "line_numbers ls = ys @ new # zs" "?f new = Some c"
    "\<forall>y \<in> set ys. \<forall>d. ?f y = Some d \<longrightarrow> d < c" "\<forall>z \<in> set zs. \<forall>d. ?f z = Some d \<longrightarrow> d \<le> c" by blast
  have "c \<le> 1"
    using split(2) context_similarity_range by (auto simp: candidate_similarity_def Let_def split: sum.splits if_splits)
  moreover have "1 \<le> c" using l l_line split by force
  ultimately have c: "c = 1" by simp
  have earlier: "?f l' \<noteq> Some 1" if "l' \<in> set (line_numbers ls)" "l' < new" for l'
    using line_numbers_before[OF split(1) assms(5) that(1)] that(2) split(3) c by (auto simp: word_less_nat_alt)
  then have "new \<le> l" using l l_line not_le by blast
  moreover have "1 \<le> unat new" using split(1) set_line_numbers[OF assms(5), of new] by simp
  moreover have "parse_line_from_location (original_location anchor) = Some (loc_line loc)"
    using anchor(5) parse_line_printed by simp
  ultimately show ?thesis
    using best scan split(2) earlier c assms(7) anchor(6)
    by (simp add: relocate_def relocate_by_symbol_offset_def)
qed


theorem relocation_follows_moved_code_witness:
  "\<exists>anchor new. relocate (sample_anchor_service sample_after) ''a.py'' anchor Python = Inr (RelocatedByContext 3 new 1)
     \<and> new \<le> 4"
proof -
  let ?svc = "sample_anchor_service sample_after"
  have before: "?svc\<lparr>as_read := \<lambda>_. Inr sample_before\<rparr> = sample_anchor_service sample_before"
    by (simp add: sample_anchor_service_def)
  obtain anchor where anchor: "capture_anchor (?svc\<lparr>as_read := \<lambda>_. Inr sample_before\<rparr>)
      \<lparr>loc_file = ''a.py'', loc_line = 3\<rparr> Python = Inr anchor"
    using sample_captured[of "''a.py''"] unfolding before by blast
  have "read_file_lines ?svc ''a.py'' = Inr [''h'', ''n'', ''x'', ''y'', ''z'']"
    by (simp add: read_file_lines_def sample_anchor_service_def sample_lines)
  from relocation_follows_moved_code[OF anchor _ sample_contexts(2) this]
  show ?thesis using sample_contexts(1) unfolding before by (auto simp: sample_anchor_service_def)
qed


section \<open>Similarity of texts outside ASCII\<close>

definition grinning_face :: string where
  "grinning_face = [CHR 0xF0, CHR 0x9F, CHR 0x98, CHR 0x80]"

definition rocket :: string where
  "rocket = [CHR 0xF0, CHR 0x9F, CHR 0x9A, CHR 0x80]"

lemma normalized_symbols:
  "normalize_for_fingerprint env default_normalization grinning_face lang = grinning_face"
  "normalize_for_fingerprint env default_normalization rocket lang = rocket"
proof -
  have "lines grinning_face = [grinning_face]" "trim grinning_face = grinning_face" "trim_end grinning_face = grinning_face"
    "lines rocket = [rocket]" "trim rocket = rocket" "trim_end rocket = rocket" by code_simp+
  then show "normalize_for_fingerprint env default_normalization grinning_face lang = grinning_face"
    "normalize_for_fingerprint env default_normalization rocket lang = rocket"
    by (simp_all add: normalize_for_fingerprint_def default_normalization_def normalize_line_def
        grinning_face_def rocket_def)
qed

lemma round_powers_of_two: "f32_round 4 = 4" "f32_round (1 / 4) = 1 / 4" "f32_round (3 / 4) = 3 / 4"
  by code_simp+


end
