(* ===== verification/Metric_Service.thy ===== *)
theory Metric_Service
  imports Service_State
begin

text \<open>
  The operations of the metric service (detrix-application, services/metric_service): import, add
  with its replace and merge modes, remove, update, toggle, the group operations, the cleanup of an
  owner's metrics, the scoped reads, and the relocation of metrics after a file change. The
  concurrent batch calls that synchronise a whole connection are not modelled.
\<close>


section \<open>Adding, removing and updating\<close>

definition import_metric :: "service_env \<Rightarrow> metric \<Rightarrow> u64 service" where
  "import_metric env m =
     svc_bind (validate_metric_fields env m) (\<lambda>_.
       svc_bind (svc_get sv_now) (\<lambda>now. svc_store (store_save (of_nat now) m)))"

definition show_place :: "metric \<Rightarrow> string" where
  "show_place m = loc_file (m_location m) @ '':'' @ show_nat (unat (loc_line (m_location m)))"

definition missing_id :: "string \<Rightarrow> app_error" where
  "missing_id text = Storage text"

text \<open>The replace branch: the old metric leaves the adapter and the repository.\<close>

definition replace_existing :: "metric \<Rightarrow> metric \<Rightarrow> operation_warning list service" where
  "replace_existing m existing =
     (case m_id existing of
        None \<Rightarrow> svc_lift (Inl (missing_id ''Stored metric missing ID - database integrity issue''))
      | Some old_id \<Rightarrow>
          svc_bind
            (if m_enabled existing then
               svc_bind (svc_try (get_adapter_for_connection (m_connection_id m))) (\<lambda>adapter.
                 if is_ok adapter then svc_bind (svc_try (adapter_remove (m_connection_id m) existing)) (\<lambda>_. svc_return ())
                 else svc_return ())
             else svc_return ())
            (\<lambda>_. svc_bind (svc_store (store_delete old_id)) (\<lambda>_.
               svc_return [MetricReplaced (m_name existing) old_id (show_place m)])))"

text \<open>The merge branch: expressions the old metric lacks are added to it.\<close>

definition merge_existing :: "metric \<Rightarrow> metric \<Rightarrow> operation_warning list \<Rightarrow> u64 operation_outcome service" where
  "merge_existing m existing warnings =
     (case m_id existing of
        None \<Rightarrow> svc_lift (Inl (missing_id (''Existing metric '' @ quoted (m_name existing) @ '' at '' @ show_place m @
                  '' missing ID - database integrity issue'')))
      | Some old_id \<Rightarrow>
          (let new_exprs = filter (\<lambda>e. e \<notin> set (m_expressions existing)) (m_expressions m) in
           if new_exprs = [] then svc_return (with_warnings old_id warnings)
           else
             (let merged = existing\<lparr>m_expressions := m_expressions existing @ new_exprs\<rparr> in
              svc_bind (svc_store (store_update merged)) (\<lambda>_.
              svc_bind
                (if m_enabled merged then
                   svc_bind (svc_try (get_adapter_for_connection (m_connection_id m))) (\<lambda>adapter.
                     if is_ok adapter then
                       svc_bind (svc_try (adapter_remove (m_connection_id m) existing)) (\<lambda>_.
                       svc_bind (svc_try (adapter_set (m_connection_id m) merged)) (\<lambda>_. svc_return ()))
                     else svc_return ())
                 else svc_return ())
                (\<lambda>_. svc_return (with_warnings old_id
                   (warnings @ [ExpressionsMerged (m_name existing) old_id new_exprs (show_place m)])))))))"

text \<open>The last phase: the anchor is captured, the metric saved and set in the adapter, with the save
  undone if the adapter fails.\<close>

definition with_anchor ::
  "service_env \<Rightarrow> cached_file_system \<Rightarrow> metric \<Rightarrow> operation_warning list \<Rightarrow> metric \<times> operation_warning list" where
  "with_anchor env fs m warnings =
     (case se_capture_anchor env fs (m_location m) (m_language m) of
        Inr anchor \<Rightarrow> (m\<lparr>m_anchor := Some anchor, m_anchor_status := Verified\<rparr>, warnings)
      | Inl e \<Rightarrow> (m\<lparr>m_anchor_status := Unanchored\<rparr>, warnings @ [AnchorCaptureFailed (m_name m) (show_place m) e]))"

definition set_new_metric ::
  "metric \<Rightarrow> u64 \<Rightarrow> operation_warning list \<Rightarrow> operation_warning list service" where
  "set_new_metric m metric_id warnings =
     (if m_enabled m then
        svc_bind (get_adapter_for_connection (m_connection_id m)) (\<lambda>_.
        svc_bind (svc_try (adapter_set (m_connection_id m) (m\<lparr>m_id := Some metric_id\<rparr>))) (\<lambda>r.
          (case r of
             Inr result \<Rightarrow> svc_return (if \<not> sr_verified result
               then warnings @ [BreakpointNotVerified (loc_file (m_location m)) (sr_line result) (sr_message result)]
               else warnings)
           | Inl e \<Rightarrow>
               svc_bind (svc_try (svc_store (store_delete metric_id))) (\<lambda>rolled_back.
                 (case rolled_back of
                    Inl rollback_err \<Rightarrow> svc_lift (Inl (OperationWithRollbackFailure e rollback_err (''metric_id='' @ show_id metric_id)))
                  | Inr _ \<Rightarrow> svc_lift (Inl e))))))
      else svc_return warnings)"

definition save_new_metric :: "service_env \<Rightarrow> metric \<Rightarrow> operation_warning list \<Rightarrow> u64 operation_outcome service" where
  "save_new_metric env m warnings =
     svc_bind (svc_get (\<lambda>s. (sv_vfs s, sv_now s))) (\<lambda>(fs, now).
       (case with_anchor env fs m warnings of (metric_with_anchor, warnings) \<Rightarrow>
          svc_bind (svc_store (store_save (of_nat now) metric_with_anchor)) (\<lambda>metric_id.
          svc_bind (set_new_metric metric_with_anchor metric_id warnings) (\<lambda>warnings.
          svc_bind (svc_send (MetricAdded metric_id (m_name metric_with_anchor) (m_connection_id metric_with_anchor))) (\<lambda>_.
            svc_return (with_warnings metric_id warnings))))))"

definition store_file_content :: "service_env \<Rightarrow> metric \<Rightarrow> string option \<Rightarrow> unit service" where
  "store_file_content env m file_content s =
     (Inr (), (case file_content of
        None \<Rightarrow> s
      | Some content \<Rightarrow> s\<lparr>sv_vfs := vfs_store (se_content_hash env) (sv_now s) (m_connection_id m)
                             (loc_file (m_location m)) content (sv_vfs s)\<rparr>))"

definition metric_owner :: "metric \<Rightarrow> owner_filter" where
  "metric_owner m = (case m_user_id m of Some uid \<Rightarrow> OwnerUser uid | None \<Rightarrow> OwnerSystem)"

definition add_metric ::
  "service_env \<Rightarrow> metric \<Rightarrow> bool \<Rightarrow> string option \<Rightarrow> u64 operation_outcome service" where
  "add_metric env m replace file_content =
     svc_bind (store_file_content env m file_content) (\<lambda>_.
     svc_bind (validate_safe_mode m) (\<lambda>_.
     svc_bind (svc_lift (lift_core (validate_tenant_ids (m_user_id m) (m_agent_id m)))) (\<lambda>_.
     svc_bind (validate_metric env m) (\<lambda>warnings.
     svc_bind (svc_store (store_find_by_location (m_connection_id m) (loc_file (m_location m)) (loc_line (m_location m))
                 (metric_owner m))) (\<lambda>found.
       (case found of
          None \<Rightarrow> save_new_metric env m warnings
        | Some existing \<Rightarrow>
            if replace then
              svc_bind (replace_existing m existing) (\<lambda>replaced. save_new_metric env m (warnings @ replaced))
            else merge_existing m existing warnings))))))"

definition find_metric :: "u64 \<Rightarrow> metric service" where
  "find_metric i =
     svc_bind (svc_store (store_find_by_id i)) (\<lambda>found.
       svc_lift (case found of Some m \<Rightarrow> Inr m | None \<Rightarrow> Inl (CoreError (MetricNotFound (''Metric '' @ show_id i)))))"

definition remove_metric :: "u64 \<Rightarrow> metric_scope \<Rightarrow> unit service" where
  "remove_metric i scope =
     svc_bind (find_metric i) (\<lambda>m.
     svc_bind (svc_lift (check_mutate_access scope m)) (\<lambda>_.
     svc_bind (svc_store (store_delete i)) (\<lambda>_.
     svc_bind (sync_logpoint (m_connection_id m) (loc_file (m_location m)) (loc_line (m_location m)) (Some m)) (\<lambda>_.
       svc_send (MetricRemoved i (m_name m) (m_connection_id m))))))"

definition update_metric :: "service_env \<Rightarrow> metric \<Rightarrow> metric_scope \<Rightarrow> unit operation_outcome service" where
  "update_metric env m scope =
     svc_bind (svc_lift (check_mutate_access scope m)) (\<lambda>_.
     svc_bind (validate_safe_mode m) (\<lambda>_.
     svc_bind (validate_metric env m) (\<lambda>_.
     svc_bind
       (case m_id m of
          None \<Rightarrow> svc_return (None, [])
        | Some i \<Rightarrow>
            svc_bind (svc_try (svc_store (store_find_by_id i))) (\<lambda>r.
              svc_return (case r of Inr old \<Rightarrow> (old, [])
                | Inl e \<Rightarrow> (None, [FetchFailed (''old metric (id='' @ show_id i @ '') for comparison'') e]))))
       (\<lambda>(old_metric, warnings).
     svc_bind (svc_store (store_update m)) (\<lambda>_.
     svc_bind (svc_try (get_adapter_for_connection (m_connection_id m))) (\<lambda>adapter.
       (case adapter of
          Inl e \<Rightarrow> svc_return (with_warnings () (warnings @ [AdapterSyncFailed (m_name m) e]))
        | Inr _ \<Rightarrow>
            svc_bind
              (case old_metric of
                 Some old \<Rightarrow>
                   (case (m_enabled old, m_enabled m) of
                      (False, True) \<Rightarrow> svc_bind (adapter_set (m_connection_id m) m) (\<lambda>_. svc_return ())
                    | (True, False) \<Rightarrow> svc_bind (adapter_remove (m_connection_id m) m) (\<lambda>_. svc_return ())
                    | (True, True) \<Rightarrow>
                        svc_bind (adapter_remove (m_connection_id m) old) (\<lambda>_.
                          svc_bind (adapter_set (m_connection_id m) m) (\<lambda>_. svc_return ()))
                    | (False, False) \<Rightarrow> svc_return ())
               | None \<Rightarrow>
                   if m_enabled m then svc_bind (adapter_set (m_connection_id m) m) (\<lambda>_. svc_return ()) else svc_return ())
              (\<lambda>_. svc_return (with_warnings () warnings)))))))))"


section \<open>Scoped reads\<close>

definition get_metric_scoped :: "u64 \<Rightarrow> metric_scope \<Rightarrow> metric option service" where
  "get_metric_scoped i scope =
     svc_bind (svc_store (store_find_by_id i)) (\<lambda>found.
       svc_return (case found of Some m \<Rightarrow> if can_read scope m then Some m else None | None \<Rightarrow> None))"

definition get_metric_by_name_scoped :: "string \<Rightarrow> metric_scope \<Rightarrow> metric option service" where
  "get_metric_by_name_scoped name scope =
     svc_bind (svc_store (store_find_by_name name)) (\<lambda>found.
       svc_return (case found of Some m \<Rightarrow> if can_read scope m then Some m else None | None \<Rightarrow> None))"

definition list_metrics_filtered :: "metric_filter \<Rightarrow> u64 \<Rightarrow> u64 \<Rightarrow> (metric list \<times> u64) service" where
  "list_metrics_filtered f limit offset = svc_store (store_find_filtered f limit offset)"


section \<open>Toggling and groups\<close>

text \<open>The part of a toggle whose failure is undone.\<close>

definition apply_toggle :: "metric \<Rightarrow> bool \<Rightarrow> unit service" where
  "apply_toggle m enabled =
     svc_bind (get_adapter_for_connection (m_connection_id m)) (\<lambda>_.
     svc_bind (svc_store (store_find_all_at_location (m_connection_id m) (loc_file (m_location m)) (loc_line (m_location m)))) (\<lambda>all_at_loc.
       let enabled_at_loc = filter m_enabled all_at_loc in
       svc_bind (if \<not> enabled then svc_bind (adapter_remove (m_connection_id m) m) (\<lambda>_. svc_return ()) else svc_return ()) (\<lambda>_.
         if enabled_at_loc = [] then svc_return ()
         else svc_bind (adapter_set (m_connection_id m)
                ((hd enabled_at_loc)\<lparr>m_expressions := merged_expressions enabled_at_loc\<rparr>)) (\<lambda>_. svc_return ()))))"

definition toggle_metric :: "u64 \<Rightarrow> bool \<Rightarrow> metric_scope \<Rightarrow> toggle_metric_result service" where
  "toggle_metric i enabled scope =
     svc_bind (find_metric i) (\<lambda>found.
     svc_bind (svc_lift (check_mutate_access scope found)) (\<lambda>_.
       let was_enabled = m_enabled found in
       if was_enabled = enabled then svc_return toggle_no_change
       else
         (let m = found\<lparr>m_enabled := enabled\<rparr> in
          svc_bind (svc_store (store_update m)) (\<lambda>_.
          svc_bind (svc_try (apply_toggle m enabled)) (\<lambda>toggle_result.
            (case toggle_result of
               Inl e \<Rightarrow>
                 svc_bind (svc_try (svc_store (store_update (m\<lparr>m_enabled := was_enabled\<rparr>)))) (\<lambda>rolled_back.
                   (case rolled_back of
                      Inl rollback_err \<Rightarrow> svc_lift (Inl (OperationWithRollbackFailure e rollback_err (''toggle metric '' @ quoted (m_name m))))
                    | Inr _ \<Rightarrow> svc_lift (Inl e)))
             | Inr _ \<Rightarrow>
                 svc_bind (svc_send (MetricToggled i (m_name m) enabled (m_connection_id m))) (\<lambda>_.
                   svc_return \<lparr>tg_storage_updated = True, tg_dap_confirmed = True,
                     tg_actual_line = (if enabled then Some (loc_line (m_location m)) else None), tg_dap_message = None\<rparr>)))))))"

type_synonym group_locations = "((string \<times> string \<times> u32) \<times> metric) list"

text \<open>One round of the loop over a group: the counters and the locations to synchronise.\<close>

definition group_round ::
  "bool \<Rightarrow> metric_scope \<Rightarrow> metric \<Rightarrow> group_operation_result \<times> group_locations \<Rightarrow>
   (group_operation_result \<times> group_locations) service" where
  "group_round enabled scope found acc =
     (case acc of (g, locations) \<Rightarrow>
        if \<not> can_mutate scope found then svc_return (g\<lparr>gr_skipped := gr_skipped g + 1\<rparr>, locations)
        else if m_enabled found \<noteq> enabled then
          (let m = found\<lparr>m_enabled := enabled\<rparr> in
           svc_bind (svc_try (svc_store (store_update m))) (\<lambda>r.
             (case r of
                Inl e \<Rightarrow> svc_return (g\<lparr>gr_failed := gr_failed g @ [(m_name m, e)]\<rparr>, locations)
              | Inr _ \<Rightarrow>
                  (let key = (m_connection_id m, loc_file (m_location m), loc_line (m_location m)) in
                   svc_return (g\<lparr>gr_succeeded := gr_succeeded g + 1\<rparr>,
                     (if map_of locations key = None then locations @ [(key, m)] else locations))))))
        else svc_return (g, locations))"

primrec group_loop ::
  "bool \<Rightarrow> metric_scope \<Rightarrow> metric list \<Rightarrow> group_operation_result \<times> group_locations \<Rightarrow>
   (group_operation_result \<times> group_locations) service" where
  "group_loop enabled scope [] acc = svc_return acc"
| "group_loop enabled scope (m # ms) acc =
     svc_bind (group_round enabled scope m acc) (\<lambda>acc. group_loop enabled scope ms acc)"

primrec sync_locations :: "group_locations \<Rightarrow> unit service" where
  "sync_locations [] = svc_return ()"
| "sync_locations (x # xs) =
     (case x of ((c, path, line), fallback) \<Rightarrow>
        svc_bind (svc_try (sync_logpoint c path line (Some fallback))) (\<lambda>_. sync_locations xs))"

definition set_group :: "bool \<Rightarrow> string \<Rightarrow> metric_scope \<Rightarrow> group_operation_result service" where
  "set_group enabled grp scope =
     svc_bind (svc_store (store_find_by_group grp)) (\<lambda>metrics.
     svc_bind (group_loop enabled scope metrics (\<lparr>gr_succeeded = 0, gr_failed = [], gr_skipped = 0\<rparr>, [])) (\<lambda>(g, locations).
     svc_bind (sync_locations locations) (\<lambda>_. svc_return g)))"

definition enable_group :: "string \<Rightarrow> metric_scope \<Rightarrow> group_operation_result service" where
  "enable_group = set_group True"

definition disable_group :: "string \<Rightarrow> metric_scope \<Rightarrow> group_operation_result service" where
  "disable_group = set_group False"

primrec disable_each :: "metric list \<Rightarrow> nat \<Rightarrow> nat service" where
  "disable_each [] disabled = svc_return disabled"
| "disable_each (m # ms) disabled =
     (case m_id m of
        None \<Rightarrow> disable_each ms disabled
      | Some i \<Rightarrow>
          svc_bind (svc_try (toggle_metric i False Admin)) (\<lambda>r.
            disable_each ms (if is_ok r then disabled + 1 else disabled)))"

definition disable_metrics_by_owner :: "string \<Rightarrow> nat service" where
  "disable_metrics_by_owner client_identity =
     svc_bind (list_metrics_filtered \<lparr>mf_connection_id = None, mf_enabled = Some True, mf_group = None,
         mf_user_id = Some client_identity, mf_agent_id = None\<rparr> (- 1) 0) (\<lambda>(metrics, _). disable_each metrics 0)"



section \<open>Relocation after a file change\<close>

record file_change_result =
  fc_verified :: nat
  fc_relocated :: nat
  fc_orphaned :: nat
  fc_skipped :: nat
  fc_failed :: nat

definition fc_total :: "file_change_result \<Rightarrow> nat" where
  "fc_total r = fc_verified r + fc_relocated r + fc_orphaned r + fc_skipped r + fc_failed r"

definition all_ok :: "file_change_result \<Rightarrow> bool" where
  "all_ok r \<longleftrightarrow> fc_orphaned r = 0 \<and> fc_failed r = 0"

text \<open>The two relocation branches, which differ in the symbol name of the event.\<close>

definition relocate_metric ::
  "service_env \<Rightarrow> metric \<Rightarrow> u64 \<Rightarrow> u32 \<Rightarrow> u32 \<Rightarrow> string option \<Rightarrow> file_change_result \<Rightarrow> file_change_result service" where
  "relocate_metric env m i old_line new_line symbol_name result =
     svc_bind (svc_get sv_vfs) (\<lambda>fs.
       let moved = m\<lparr>m_location := (m_location m)\<lparr>loc_line := new_line\<rparr>, m_anchor_status := Relocated\<rparr>;
           updated = (case se_capture_anchor env fs (m_location moved) (m_language moved) of
                        Inr a \<Rightarrow> moved\<lparr>m_anchor := Some a\<rparr> | Inl _ \<Rightarrow> moved) in
       svc_bind (svc_try (svc_store (store_update updated))) (\<lambda>r.
         (case r of
            Inl _ \<Rightarrow> svc_return (result\<lparr>fc_failed := fc_failed result + 1\<rparr>)
          | Inr _ \<Rightarrow>
              svc_bind
                (if m_enabled updated then
                   svc_bind (svc_try (get_adapter_for_connection (m_connection_id updated))) (\<lambda>adapter.
                     if is_ok adapter then
                       svc_bind (svc_try (adapter_remove (m_connection_id updated) m)) (\<lambda>_.
                       svc_bind (svc_try (adapter_set (m_connection_id updated) updated)) (\<lambda>_. svc_return ()))
                     else svc_return ())
                 else svc_return ())
                (\<lambda>_. svc_bind (svc_send (MetricRelocated i (m_name m) old_line new_line symbol_name (m_connection_id m))) (\<lambda>_.
                   svc_return (result\<lparr>fc_relocated := fc_relocated result + 1\<rparr>))))))"

definition orphan_metric ::
  "metric \<Rightarrow> u64 \<Rightarrow> string \<Rightarrow> string \<Rightarrow> file_change_result \<Rightarrow> file_change_result service" where
  "orphan_metric m i last_known_location reason result =
     svc_bind (svc_try (svc_store (store_update (m\<lparr>m_anchor_status := Orphaned, m_enabled := False\<rparr>)))) (\<lambda>_.
     svc_bind
       (if m_enabled m then
          svc_bind (svc_try (get_adapter_for_connection (m_connection_id m))) (\<lambda>adapter.
            if is_ok adapter then svc_bind (svc_try (adapter_remove (m_connection_id m) m)) (\<lambda>_. svc_return ())
            else svc_return ())
        else svc_return ())
       (\<lambda>_. svc_bind (svc_send (MetricOrphaned i (m_name m) last_known_location reason (m_connection_id m))) (\<lambda>_.
          svc_return (result\<lparr>fc_orphaned := fc_orphaned result + 1\<rparr>))))"

text \<open>One round of the loop over the metrics of the file.\<close>

definition file_change_round ::
  "service_env \<Rightarrow> string \<Rightarrow> metric \<Rightarrow> file_change_result \<Rightarrow> file_change_result service" where
  "file_change_round env file_path m result =
     (case m_id m of
        None \<Rightarrow> svc_return result
      | Some i \<Rightarrow>
          (case m_anchor m of
             None \<Rightarrow> svc_return (result\<lparr>fc_skipped := fc_skipped result + 1\<rparr>)
           | Some anchor \<Rightarrow>
               svc_bind (svc_get (\<lambda>s. (sv_vfs s, sv_now s))) (\<lambda>(fs, now).
                 if se_verify_anchor env fs (m_location m) anchor (m_language m) = Inr True then
                   svc_bind (svc_try (svc_store (store_update
                       (m\<lparr>m_anchor := Some (anchor\<lparr>last_verified_at := Some (of_nat now)\<rparr>), m_anchor_status := Verified\<rparr>)))) (\<lambda>_.
                     svc_return (result\<lparr>fc_verified := fc_verified result + 1\<rparr>))
                 else
                   (case se_relocate env fs file_path anchor (m_language m) of
                      Inl _ \<Rightarrow> svc_return (result\<lparr>fc_failed := fc_failed result + 1\<rparr>)
                    | Inr (RelocatedInSymbol old_line new_line symbol_name) \<Rightarrow>
                        relocate_metric env m i old_line new_line (Some symbol_name) result
                    | Inr (RelocatedByContext old_line new_line confidence) \<Rightarrow>
                        relocate_metric env m i old_line new_line None result
                    | Inr ExactMatch \<Rightarrow> svc_return (result\<lparr>fc_verified := fc_verified result + 1\<rparr>)
                    | Inr (RelocationOrphaned last_known_location reason) \<Rightarrow>
                        orphan_metric m i last_known_location reason result))))"

primrec file_change_loop ::
  "service_env \<Rightarrow> string \<Rightarrow> metric list \<Rightarrow> file_change_result \<Rightarrow> file_change_result service" where
  "file_change_loop env file_path [] result = svc_return result"
| "file_change_loop env file_path (m # ms) result =
     svc_bind (file_change_round env file_path m result) (\<lambda>result. file_change_loop env file_path ms result)"

definition handle_file_change :: "service_env \<Rightarrow> string \<Rightarrow> file_change_result service" where
  "handle_file_change env file_path =
     svc_bind (svc_store store_find_all) (\<lambda>all_metrics.
       file_change_loop env file_path (filter (\<lambda>m. loc_file (m_location m) = file_path) all_metrics)
         \<lparr>fc_verified = 0, fc_relocated = 0, fc_orphaned = 0, fc_skipped = 0, fc_failed = 0\<rparr>)"

end
