(* ===== verification/Service_Invariants.thy ===== *)
theory Service_Invariants
  imports Metric_Service
begin

text \<open>
  Invariants of the metric service. A property of the state that the primitive actions keep
  (repository calls, adapter calls, cache and event updates) is kept by every operation: that is
  proved once, in a locale, and used for the invariant of the repository and the adapters and for
  the form of stored anchors.
\<close>


section \<open>Operations that keep a property\<close>

definition keeps :: "(service_state \<Rightarrow> bool) \<Rightarrow> 'a service \<Rightarrow> bool" where
  "keeps P m \<longleftrightarrow> (\<forall>s. P s \<longrightarrow> P (snd (m s)))"

lemma keepsD: "keeps P m \<Longrightarrow> P s \<Longrightarrow> P (snd (m s))"
  by (simp add: keeps_def)

named_theorems keeps_rules \<open>introduction rules for operations that keep a property\<close>

lemma keeps_return [keeps_rules]: "keeps P (svc_return a)"
  by (simp add: keeps_def svc_return_def)

lemma keeps_lift [keeps_rules]: "keeps P (svc_lift r)"
  by (simp add: keeps_def svc_lift_def)

lemma keeps_get [keeps_rules]: "keeps P (svc_get f)"
  by (simp add: keeps_def svc_get_def)

lemma keeps_adapter_lookup [keeps_rules]: "keeps P (get_adapter_for_connection c)"
  by (simp add: keeps_def get_adapter_for_connection_def)

lemma keeps_bind [keeps_rules]: "keeps P m \<Longrightarrow> (\<And>a. keeps P (f a)) \<Longrightarrow> keeps P (svc_bind m f)"
  by (auto simp: keeps_def svc_bind_def split: prod.splits sum.splits)

lemma keeps_try [keeps_rules]: "keeps P m \<Longrightarrow> keeps P (svc_try m)"
  by (simp add: keeps_def svc_try_def case_prod_beta)

lemma keeps_if [keeps_rules]: "(b \<Longrightarrow> keeps P m) \<Longrightarrow> (\<not> b \<Longrightarrow> keeps P m') \<Longrightarrow> keeps P (if b then m else m')"
  by simp

lemma keeps_option [keeps_rules]:
  "keeps P m \<Longrightarrow> (\<And>a. keeps P (f a)) \<Longrightarrow> keeps P (case x of None \<Rightarrow> m | Some a \<Rightarrow> f a)"
  by (cases x) simp_all

lemma keeps_sum [keeps_rules]:
  "(\<And>e. keeps P (f e)) \<Longrightarrow> (\<And>a. keeps P (g a)) \<Longrightarrow> keeps P (case x of Inl e \<Rightarrow> f e | Inr a \<Rightarrow> g a)"
  by (cases x) simp_all

lemma keeps_prod [keeps_rules]: "(\<And>a b. keeps P (f a b)) \<Longrightarrow> keeps P (case x of (a, b) \<Rightarrow> f a b)"
  by (cases x) simp

lemma keeps_bool [keeps_rules]: "keeps P m \<Longrightarrow> keeps P m' \<Longrightarrow> keeps P (case b of True \<Rightarrow> m | False \<Rightarrow> m')"
  by (cases b) simp_all

lemma keeps_let [keeps_rules]: "keeps P (f a) \<Longrightarrow> keeps P (Let a f)"
  by simp

lemma keeps_list_case [keeps_rules]:
  "keeps P m \<Longrightarrow> (\<And>y ys. keeps P (f y ys)) \<Longrightarrow> keeps P (case xs of [] \<Rightarrow> m | y # ys \<Rightarrow> f y ys)"
  by (cases xs) simp_all

lemma keeps_relocation [keeps_rules]:
  "keeps P m \<Longrightarrow> (\<And>a b c. keeps P (f a b c)) \<Longrightarrow> (\<And>a b c. keeps P (g a b c)) \<Longrightarrow> (\<And>a b. keeps P (h a b)) \<Longrightarrow>
   keeps P (case x of ExactMatch \<Rightarrow> m | RelocatedInSymbol a b c \<Rightarrow> f a b c | RelocatedByContext a b c \<Rightarrow> g a b c
     | RelocationOrphaned a b \<Rightarrow> h a b)"
  by (cases x) simp_all


text \<open>The checks before a metric is stored change only the file cache and the cache of analyses.\<close>

lemma keeps_checks:
  assumes files: "\<And>s fs. P s \<Longrightarrow> P (s\<lparr>sv_vfs := fs\<rparr>)" and results: "\<And>s c. P s \<Longrightarrow> P (s\<lparr>sv_ast_cache := c\<rparr>)"
  shows "keeps P (store_file_content env m fc)" "keeps P (validate_safe_mode m)"
    "keeps P (validate_metric_fields env m)" "keeps P (validate_metric env m)"
proof -
  have "keeps P (check_expression env m e)" for e
    using results by (auto simp: keeps_def check_expression_def Let_def split: prod.splits sum.splits)
  then have "keeps P (check_expressions env m es)" for es
    by (induction es) (auto intro!: keeps_rules)
  then show fields: "keeps P (validate_metric_fields env m)"
    unfolding validate_metric_fields_def by (intro keeps_rules)
  have "keeps P (validate_expression_scope env m)"
    by (simp add: keeps_def validate_expression_scope_def)
  then show "keeps P (validate_metric env m)"
    unfolding validate_metric_def by (intro keeps_rules fields)
  show "keeps P (store_file_content env m fc)" "keeps P (validate_safe_mode m)"
    using files by (simp_all add: keeps_def store_file_content_def validate_safe_mode_def split: option.splits)
qed


section \<open>The contract of an invariant\<close>

locale service_invariant =
  fixes I :: "service_state \<Rightarrow> bool"
  assumes keeps_save: "keeps I (svc_store (store_save now m))"
    and keeps_update: "keeps I (svc_store (store_update m))"
    and keeps_delete: "keeps I (svc_store (store_delete i))"
    and keeps_failed_call: "I s \<Longrightarrow> I (s\<lparr>sv_store := snd (store_call (sv_store s))\<rparr>)"
    and keeps_set: "keeps I (adapter_set c m)"
    and keeps_remove: "keeps I (adapter_remove c m)"
    and keeps_events: "I s \<Longrightarrow> I (s\<lparr>sv_events := es\<rparr>)"
    and keeps_files: "I s \<Longrightarrow> I (s\<lparr>sv_vfs := fs\<rparr>)"
    and keeps_results: "I s \<Longrightarrow> I (s\<lparr>sv_ast_cache := cache\<rparr>)"
begin

lemma keeps_query: "keeps I (svc_store (store_query f))"
proof -
  have "snd (store_query f st) = snd (store_call st)" for st
    by (simp add: store_query_def case_prod_beta split: option.splits)
  then show ?thesis
    using keeps_failed_call by (simp add: keeps_def svc_store_def case_prod_beta)
qed

lemma keeps_send: "keeps I (svc_send e)"
  using keeps_events by (simp add: keeps_def svc_send_def)

lemmas keeps_validation = keeps_checks[of I, OF keeps_files keeps_results]

lemmas keeps_primitive = keeps_save keeps_update keeps_delete keeps_query keeps_set keeps_remove keeps_send
  keeps_validation

lemma keeps_sync: "keeps I (sync_logpoint c path line fallback)"
  unfolding sync_logpoint_def store_find_defs by (intro keeps_rules keeps_primitive)

lemma keeps_find: "keeps I (find_metric i)"
  unfolding find_metric_def store_find_defs by (intro keeps_rules keeps_primitive)

lemma keeps_import: "keeps I (import_metric env m)"
  unfolding import_metric_def by (intro keeps_rules keeps_primitive)

lemma keeps_add: "keeps I (add_metric env m replace fc)"
  unfolding add_metric_def save_new_metric_def set_new_metric_def replace_existing_def merge_existing_def store_find_defs
  by (intro keeps_rules keeps_primitive)

lemma keeps_remove_metric: "keeps I (remove_metric i scope)"
  unfolding remove_metric_def by (intro keeps_rules keeps_primitive keeps_find keeps_sync)

lemma keeps_update_metric: "keeps I (update_metric env m scope)"
  unfolding update_metric_def store_find_defs by (intro keeps_rules keeps_primitive)

lemma keeps_toggle: "keeps I (toggle_metric i enabled scope)"
  unfolding toggle_metric_def apply_toggle_def store_find_defs
  by (intro keeps_rules keeps_primitive keeps_find)

lemma keeps_group_loop: "keeps I (group_loop enabled scope ms acc)"
  by (induction ms arbitrary: acc) (auto simp: group_round_def intro!: keeps_rules keeps_primitive)

lemma keeps_sync_locations: "keeps I (sync_locations xs)"
  by (induction xs) (auto intro!: keeps_rules keeps_sync)

lemma keeps_set_group: "keeps I (set_group enabled grp scope)"
  unfolding set_group_def store_find_defs
  by (intro keeps_rules keeps_primitive keeps_group_loop keeps_sync_locations)

lemma keeps_disable_each: "keeps I (disable_each ms n)"
  by (induction ms arbitrary: n) (auto intro!: keeps_rules keeps_toggle)

lemma keeps_disable_by_owner: "keeps I (disable_metrics_by_owner client)"
  unfolding disable_metrics_by_owner_def list_metrics_filtered_def store_find_defs
  by (intro keeps_rules keeps_primitive keeps_disable_each)

lemma keeps_file_change_loop: "keeps I (file_change_loop env path ms r)"
  by (induction ms arbitrary: r)
    (auto simp: file_change_round_def relocate_metric_def orphan_metric_def Let_def intro!: keeps_rules keeps_primitive)

lemma keeps_file_change: "keeps I (handle_file_change env path)"
  unfolding handle_file_change_def store_find_defs by (intro keeps_rules keeps_primitive keeps_file_change_loop)

lemmas keeps_operation = keeps_import keeps_add keeps_remove_metric keeps_update_metric keeps_toggle
  keeps_set_group[where enabled = True, folded enable_group_def] keeps_set_group[where enabled = False, folded disable_group_def]
  keeps_disable_by_owner keeps_file_change

end


section \<open>The invariant of the service\<close>

abbreviation table :: "service_state \<Rightarrow> metric list" where
  "table s \<equiv> st_metrics (sv_store s)"

definition anchors_stored :: "store \<Rightarrow> bool" where
  "anchors_stored st \<longleftrightarrow> list_all (\<lambda>m. stored_anchor (m_anchor m) = m_anchor m) (st_metrics st)"

definition adapters_wf :: "(string \<times> connected_adapter) list \<Rightarrow> bool" where
  "adapters_wf as \<longleftrightarrow> distinct (map fst as) \<and> list_all (\<lambda>(_, a). adapter_wf (ca_dap a)) as"

definition service_wf :: "service_state \<Rightarrow> bool" where
  "service_wf s \<longleftrightarrow> store_wf (sv_store s) \<and> anchors_stored (sv_store s) \<and> adapters_wf (sv_adapters s)"

lemma stored_anchor_idem [simp]: "stored_anchor (stored_anchor a) = stored_anchor a"
  by (auto simp: stored_anchor_def split: option.splits)

lemma anchor_updated [simp]: "m_anchor (updated_fields old m) = stored_anchor (m_anchor m)"
  by (simp add: updated_fields_def)

lemma anchor_saved [simp]: "m_anchor (saved_row now m i) = stored_anchor (m_anchor m)"
  by (simp add: saved_row_def stored_form_def)

lemma anchors_stored_save: "anchors_stored st \<Longrightarrow> store_save now m st = (r, st') \<Longrightarrow> anchors_stored st'"
  by (erule store_save_cases) (auto simp: anchors_stored_def)

lemma anchors_stored_update: "anchors_stored st \<Longrightarrow> store_update m st = (r, st') \<Longrightarrow> anchors_stored st'"
  by (erule store_update_cases) (auto simp: anchors_stored_def list_all_iff)

lemma anchors_stored_delete: "anchors_stored st \<Longrightarrow> store_delete i st = (r, st') \<Longrightarrow> anchors_stored st'"
  by (erule store_delete_cases) (auto simp: anchors_stored_def list_all_iff)

lemma set_update_subset: "set (AList.update k v xs) \<subseteq> insert (k, v) (set xs)"
  by (induction xs) auto

lemma adapters_wf_update:
  assumes "adapters_wf as" "adapter_wf (ca_dap a)"
  shows "adapters_wf (AList.update c a as)"
  using assms set_update_subset[of c a as]
  by (fastforce simp: adapters_wf_def list_all_iff distinct_update)

lemma adapters_wf_delete: "adapters_wf as \<Longrightarrow> adapters_wf (AList.delete c as)"
  using delete_conv'[of c as] distinct_delete[of as c]
  by (auto simp: adapters_wf_def list_all_iff AList.delete_eq)

lemma adapters_wf_lookup: "adapters_wf as \<Longrightarrow> map_of as c = Some a \<Longrightarrow> adapter_wf (ca_dap a)"
  by (auto simp: adapters_wf_def list_all_iff dest!: map_of_SomeD)

lemma next_reply_simps [simp]:
  "sv_store (snd (next_reply s)) = sv_store s" "sv_adapters (snd (next_reply s)) = sv_adapters s"
  by (simp_all add: next_reply_def split: list.splits)

lemma adapter_call_keeps_wf:
  assumes "\<And>k reply d. adapter_wf d \<Longrightarrow> adapter_wf (snd (operation k m reply d))"
  shows "keeps service_wf (adapter_call operation c m)"
proof -
  have "service_wf (snd (adapter_call operation c m s))" if wf: "service_wf s" for s
  proof (cases "map_of (sv_adapters s) c")
    case None
    then show ?thesis using wf by (simp add: adapter_call_def)
  next
    case (Some a)
    have "adapter_wf (ca_dap a)"
      using wf Some by (intro adapters_wf_lookup) (auto simp: service_wf_def)
    then show ?thesis
      using wf Some assms adapters_wf_update[of "sv_adapters s"]
      by (simp add: adapter_call_def service_wf_def case_prod_beta)
  qed
  then show ?thesis by (simp add: keeps_def)
qed

lemma svc_store_keeps_wf:
  assumes "\<And>st. store_wf st \<Longrightarrow> anchors_stored st \<Longrightarrow> store_wf (snd (f st)) \<and> anchors_stored (snd (f st))"
  shows "keeps service_wf (svc_store f)"
  using assms by (simp add: keeps_def svc_store_def service_wf_def case_prod_beta)

interpretation wf: service_invariant service_wf
proof unfold_locales
  show "keeps service_wf (svc_store (store_save now m))" for now m
    by (rule svc_store_keeps_wf) (metis anchors_stored_save prod.collapse store_wf_save)
  show "keeps service_wf (svc_store (store_update m))" for m
    by (rule svc_store_keeps_wf) (metis anchors_stored_update prod.collapse store_wf_update)
  show "keeps service_wf (svc_store (store_delete i))" for i
    by (rule svc_store_keeps_wf) (metis anchors_stored_delete prod.collapse store_wf_delete)
  show "service_wf (s\<lparr>sv_store := snd (store_call (sv_store s))\<rparr>)" if "service_wf s" for s
    using that store_call_fields[of "sv_store s" "fst (store_call (sv_store s))" "snd (store_call (sv_store s))"]
    by (simp add: service_wf_def store_wf_def anchors_stored_def)
qed (auto simp: adapter_set_def adapter_remove_def service_wf_def
  intro!: adapter_call_keeps_wf adapter_wf_set adapter_wf_remove)

text \<open>What can happen to the service: an operation, with any arguments, or a change in the world: time
  passes, a debugger connects or leaves, the coming calls fail or succeed in another pattern.\<close>

inductive service_step :: "service_env \<Rightarrow> service_state \<Rightarrow> service_state \<Rightarrow> bool" for env where
  step_import: "service_step env s (snd (import_metric env m s))"
| step_add: "service_step env s (snd (add_metric env m replace file_content s))"
| step_remove: "service_step env s (snd (remove_metric i scope s))"
| step_update: "service_step env s (snd (update_metric env m scope s))"
| step_toggle: "service_step env s (snd (toggle_metric i enabled scope s))"
| step_enable_group: "service_step env s (snd (enable_group grp scope s))"
| step_disable_group: "service_step env s (snd (disable_group grp scope s))"
| step_disable_owner: "service_step env s (snd (disable_metrics_by_owner client s))"
| step_file_change: "service_step env s (snd (handle_file_change env path s))"
| step_time: "sv_now s \<le> t \<Longrightarrow> service_step env s (s\<lparr>sv_now := t\<rparr>)"
| step_connect: "service_step env s
    (s\<lparr>sv_adapters := AList.update c \<lparr>ca_kind = k, ca_safe_mode = b, ca_dap = adapter_new\<rparr> (sv_adapters s)\<rparr>)"
| step_disconnect: "service_step env s (s\<lparr>sv_adapters := AList.delete c (sv_adapters s)\<rparr>)"
| step_replies: "service_step env s (s\<lparr>sv_replies := replies\<rparr>)"
| step_faults: "service_step env s (s\<lparr>sv_store := (sv_store s)\<lparr>st_faults := faults\<rparr>\<rparr>)"

definition service_start :: "cached_file_system \<Rightarrow> tree_sitter_cache \<Rightarrow> service_state" where
  "service_start fs cache = \<lparr>sv_store = store_empty [], sv_adapters = [], sv_replies = [], sv_vfs = fs,
     sv_ast_cache = cache, sv_events = [], sv_now = 0\<rparr>"

lemma service_wf_start [simp]: "service_wf (service_start fs cache)"
  by (simp add: service_wf_def service_start_def adapters_wf_def anchors_stored_def store_empty_def
    store_wf_empty[unfolded store_empty_def])

lemma service_wf_cong:
  "sv_store s = sv_store s' \<Longrightarrow> sv_adapters s = sv_adapters s' \<Longrightarrow> service_wf s = service_wf s'"
  by (simp add: service_wf_def)

lemma service_step_wf: "service_step env s s' \<Longrightarrow> service_wf s \<Longrightarrow> service_wf s'"
proof (induction rule: service_step.induct)
  case (step_connect s c k b)
  then show ?case by (auto simp: service_wf_def intro!: adapters_wf_update)
next
  case (step_disconnect s c)
  then show ?case by (auto simp: service_wf_def intro!: adapters_wf_delete)
next
  case (step_faults s faults)
  then show ?case by (simp add: service_wf_def store_wf_def anchors_stored_def)
qed (auto intro: wf.keeps_operation[THEN keepsD] service_wf_cong[THEN iffD1, rotated 2])

lemma service_steps_wf: "(service_step env)\<^sup>*\<^sup>* s s' \<Longrightarrow> service_wf s \<Longrightarrow> service_wf s'"
  by (induction rule: rtranclp_induct) (auto intro: service_step_wf)

end
