(* ===== verification/Service_Properties.thy ===== *)
theory Service_Properties
  imports Service_Invariants
begin

text \<open>
  Properties of the metric service: the invariant of every reachable state, isolation of tenants,
  undoing of failed operations, and what the operations leave behind where the code does not undo.
\<close>


section \<open>Rows out of reach of a scope\<close>

text \<open>A bind in which the value of the first part satisfies a condition.\<close>

lemma keeps_bind_value:
  assumes "keeps P m" "\<And>s a s'. P s \<Longrightarrow> m s = (Inr a, s') \<Longrightarrow> Q a" "\<And>a. Q a \<Longrightarrow> keeps P (f a)"
  shows "keeps P (svc_bind m f)"
  unfolding keeps_def
proof (intro allI impI)
  fix s assume P: "P s"
  obtain r s' where m: "m s = (r, s')" by (cases "m s")
  show "P (snd (svc_bind m f s))"
  proof (cases r)
    case (Inl e)
    then show ?thesis using keepsD[OF assms(1) P] by (simp add: svc_bind_def m)
  next
    case (Inr a)
    then have "P s'" "Q a" using keepsD[OF assms(1) P] assms(2)[OF P] m by simp_all
    then show ?thesis using Inr keepsD[OF assms(3)] by (simp add: svc_bind_def m)
  qed
qed

definition has_row :: "metric \<Rightarrow> service_state \<Rightarrow> bool" where
  "has_row row s \<longleftrightarrow> store_wf (sv_store s) \<and> row \<in> set (table s)"

text \<open>The metrics that are not the row.\<close>

definition other_row :: "metric \<Rightarrow> metric \<Rightarrow> bool" where
  "other_row row m \<longleftrightarrow> m = row \<or> m_id m \<noteq> m_id row"

lemma has_row_other: "has_row row s \<Longrightarrow> m \<in> set (table s) \<Longrightarrow> other_row row m"
  by (auto simp: has_row_def store_wf_def other_row_def distinct_map inj_on_def)

lemma svc_store_state:
  "snd (svc_store f s) = s\<lparr>sv_store := snd (f (sv_store s))\<rparr>"
  by (simp add: svc_store_def case_prod_beta)

lemma svc_store_Inr: "svc_store f s = (Inr a, s') \<Longrightarrow> f (sv_store s) = (Inr a, sv_store s')"
  by (auto simp: svc_store_def split: prod.splits)

lemma has_row_query: "keeps (has_row row) (svc_store (store_query f))"
proof -
  have "st_metrics (snd (store_query f st)) = st_metrics st" "st_next_id (snd (store_query f st)) = st_next_id st" for st
    using store_query_table[of f st] by (metis prod.collapse)+
  then show ?thesis by (simp add: keeps_def has_row_def svc_store_state store_wf_def)
qed

lemma has_row_delete:
  assumes "m_id row \<noteq> Some i"
  shows "keeps (has_row row) (svc_store (store_delete i))"
proof -
  have "store_wf (snd (store_delete i st)) \<and> row \<in> set (st_metrics (snd (store_delete i st)))"
    if "store_wf st" "row \<in> set (st_metrics st)" for st
  proof -
    obtain r st' where d: "store_delete i st = (r, st')" by (cases "store_delete i st")
    from d have "row \<in> set (st_metrics st')" using that assms by (cases rule: store_delete_cases) auto
    with d that store_wf_delete[OF _ d] show ?thesis by simp
  qed
  then show ?thesis by (simp add: keeps_def has_row_def svc_store_state)
qed

lemma has_row_update:
  assumes "m_id m \<noteq> m_id row"
  shows "keeps (has_row row) (svc_store (store_update m))"
proof -
  have "store_wf (snd (store_update m st)) \<and> row \<in> set (st_metrics (snd (store_update m st)))"
    if "store_wf st" "row \<in> set (st_metrics st)" for st
  proof -
    obtain r st' where u: "store_update m st = (r, st')" by (cases "store_update m st")
    from u have "row \<in> set (st_metrics st')" using that assms by (cases rule: store_update_cases) auto
    with u that store_wf_update[OF _ u] show ?thesis by simp
  qed
  then show ?thesis by (simp add: keeps_def has_row_def svc_store_state)
qed

lemma adapter_call_store [simp]: "sv_store (snd (adapter_call operation c m s)) = sv_store s"
  by (simp add: adapter_call_def case_prod_beta split: option.splits)

lemma has_row_adapter: "keeps (has_row row) (adapter_set c m)" "keeps (has_row row) (adapter_remove c m)"
  by (simp_all add: keeps_def has_row_def adapter_set_def adapter_remove_def)

lemma has_row_send: "keeps (has_row row) (svc_send e)"
  by (simp add: keeps_def has_row_def svc_send_def)

lemmas has_row_rules = has_row_query has_row_adapter has_row_send

lemma has_row_sync: "keeps (has_row row) (sync_logpoint c path line fallback)"
  unfolding sync_logpoint_def store_find_defs by (intro keeps_rules has_row_rules)

lemma has_row_find: "keeps (has_row row) (find_metric i)"
  unfolding find_metric_def store_find_defs by (intro keeps_rules has_row_rules)

lemma svc_bind_Inr:
  "svc_bind m f s = (Inr b, s') \<longleftrightarrow> (\<exists>a s1. m s = (Inr a, s1) \<and> f a s1 = (Inr b, s'))"
  by (auto simp: svc_bind_def split: prod.splits sum.splits)

lemma svc_bind_Inl:
  "svc_bind m f s = (Inl e, s') \<longleftrightarrow> m s = (Inl e, s') \<or> (\<exists>a s1. m s = (Inr a, s1) \<and> f a s1 = (Inl e, s'))"
  by (auto simp: svc_bind_def split: prod.splits sum.splits)

lemma find_metric_Inr:
  assumes "find_metric i s = (Inr m, s')"
  shows "store_find i (sv_store s) = Some m" "table s' = table s" "s' = s\<lparr>sv_store := sv_store s'\<rparr>"
    "st_next_id (sv_store s') = st_next_id (sv_store s)"
proof -
  obtain s1 where q: "svc_store (store_find_by_id i) s = (Inr (Some m), s1)" and s': "s' = s1"
    using assms by (auto simp: find_metric_def svc_bind_Inr svc_lift_def split: option.splits)
  from q show "s' = s\<lparr>sv_store := sv_store s'\<rparr>"
    by (auto simp: svc_store_def s' split: prod.splits)
  note q = svc_store_Inr[OF q, unfolded store_find_by_id_def]
  show "table s' = table s" "st_next_id (sv_store s') = st_next_id (sv_store s)"
    using store_query_table[OF q] by (simp_all add: s')
  show "store_find i (sv_store s) = Some m"
    using store_query_ok[OF q] by (simp add: store_find_def)
qed

lemma found_other:
  assumes "has_row row s" "find_metric i s = (Inr m, s')"
  shows "m_id m = Some i \<and> other_row row m"
  using store_find_SomeD[OF find_metric_Inr(1)[OF assms(2)]] has_row_other[OF assms(1)] by simp

lemma check_lift: "svc_lift (check_mutate_access scope m) s = (Inr u, s') \<Longrightarrow> can_mutate scope m"
  by (simp add: svc_lift_def)

lemma mutable_other: "other_row row m \<Longrightarrow> can_mutate scope m \<Longrightarrow> \<not> can_mutate scope row \<Longrightarrow> m_id m \<noteq> m_id row"
  by (auto simp: other_row_def)

lemma has_row_remove:
  assumes "\<not> can_mutate scope row"
  shows "keeps (has_row row) (remove_metric i scope)"
  unfolding remove_metric_def
  apply (rule keeps_bind_value[OF has_row_find, of _ _ "\<lambda>m. m_id m = Some i \<and> other_row row m"], erule found_other, assumption)
  apply (rule keeps_bind_value[OF keeps_lift], erule check_lift)
  apply (intro keeps_rules has_row_delete has_row_sync has_row_send)
  using mutable_other[OF _ _ assms] by metis

lemma has_row_apply_toggle: "keeps (has_row row) (apply_toggle m enabled)"
  unfolding apply_toggle_def store_find_defs by (intro keeps_rules has_row_rules)

lemma has_row_toggle:
  assumes "\<not> can_mutate scope row"
  shows "keeps (has_row row) (toggle_metric i enabled scope)"
  unfolding toggle_metric_def
  apply (rule keeps_bind_value[OF has_row_find, of _ _ "\<lambda>m. m_id m = Some i \<and> other_row row m"], erule found_other, assumption)
  apply (rule keeps_bind_value[OF keeps_lift], erule check_lift)
  apply (intro keeps_rules has_row_rules has_row_update has_row_apply_toggle)
  by (auto dest: mutable_other[OF _ _ assms])

lemma has_row_group_loop:
  assumes "\<not> can_mutate scope row" "\<And>m. m \<in> set ms \<Longrightarrow> other_row row m"
  shows "keeps (has_row row) (group_loop enabled scope ms acc)"
  using assms(2)
proof (induction ms arbitrary: acc)
  case (Cons m ms)
  have "keeps (has_row row) (group_round enabled scope m acc)"
    unfolding group_round_def using mutable_other[OF _ _ assms(1), of m] Cons.prems[of m]
    by (intro keeps_rules has_row_update) simp_all
  then show ?case using Cons by (simp add: keeps_bind)
qed (simp add: keeps_return)

lemma has_row_sync_locations: "keeps (has_row row) (sync_locations xs)"
  by (induction xs) (auto intro!: keeps_rules has_row_sync)

lemma query_other:
  assumes "has_row row s" "svc_store (store_query f) s = (Inr ms, s')" "\<And>xs. set (f xs) \<subseteq> set xs"
  shows "\<forall>m \<in> set ms. other_row row m"
  using store_query_ok[OF svc_store_Inr[OF assms(2)]] assms(3)[of "table s"] has_row_other[OF assms(1)] by auto

lemma has_row_group:
  assumes "\<not> can_mutate scope row"
  shows "keeps (has_row row) (set_group enabled grp scope)"
  unfolding set_group_def store_find_defs
  apply (rule keeps_bind_value[OF has_row_query, of _ _ "\<lambda>ms. \<forall>m \<in> set ms. other_row row m"], erule query_other, assumption)
   apply auto[1]
  apply (intro keeps_rules has_row_group_loop has_row_sync_locations assms)
  by simp

text \<open>The operations a caller of a scope can start on stored metrics by identifier or group.\<close>

inductive scoped_step :: "metric_scope \<Rightarrow> service_state \<Rightarrow> service_state \<Rightarrow> bool" for scope where
  scoped_remove: "scoped_step scope s (snd (remove_metric i scope s))"
| scoped_toggle: "scoped_step scope s (snd (toggle_metric i enabled scope s))"
| scoped_enable: "scoped_step scope s (snd (enable_group grp scope s))"
| scoped_disable: "scoped_step scope s (snd (disable_group grp scope s))"

lemma scoped_step_row:
  "scoped_step scope s s' \<Longrightarrow> \<not> can_mutate scope row \<Longrightarrow> has_row row s \<Longrightarrow> has_row row s'"
  by (induction rule: scoped_step.induct)
    (auto simp: enable_group_def disable_group_def
      intro: has_row_remove[THEN keepsD] has_row_toggle[THEN keepsD] has_row_group[THEN keepsD])

lemma scoped_steps_row:
  "(scoped_step scope)\<^sup>*\<^sup>* s s' \<Longrightarrow> \<not> can_mutate scope row \<Longrightarrow> has_row row s \<Longrightarrow> has_row row s'"
  by (induction rule: rtranclp_induct) (auto intro: scoped_step_row)


section \<open>Undoing failed operations\<close>

lemma svc_store_Inl: "svc_store f s = (Inl e, s') \<Longrightarrow> \<exists>e'. f (sv_store s) = (Inl e', sv_store s')"
  by (auto simp: svc_store_def lift_core_def split: prod.splits sum.splits)

lemma query_table:
  assumes "svc_store (store_query f) s = (r, s')"
  shows "table s' = table s" "st_next_id (sv_store s') = st_next_id (sv_store s)" "sv_adapters s' = sv_adapters s"
  using assms store_query_table[of f "sv_store s"] by (auto simp: svc_store_def split: prod.splits)

definition table_is :: "metric list \<Rightarrow> service_state \<Rightarrow> bool" where
  "table_is T s \<longleftrightarrow> table s = T"

lemma table_is_query: "keeps (table_is T) (svc_store (store_query f))"
  by (metis keeps_def prod.collapse query_table(1) table_is_def)

lemma table_is_adapter: "keeps (table_is T) (adapter_set c m)" "keeps (table_is T) (adapter_remove c m)"
  by (simp_all add: keeps_def table_is_def adapter_set_def adapter_remove_def)

lemma table_is_send: "keeps (table_is T) (svc_send e)"
  by (simp add: keeps_def table_is_def svc_send_def)

lemmas table_is_rules = table_is_query table_is_adapter table_is_send

lemma same_table: "(\<And>T. keeps (table_is T) m) \<Longrightarrow> m s = (r, s') \<Longrightarrow> table s' = table s"
  by (metis keepsD snd_conv table_is_def)

lemma table_is_find: "keeps (table_is T) (find_metric i)"
  unfolding find_metric_def store_find_defs by (intro keeps_rules table_is_rules)

lemma table_is_apply_toggle: "keeps (table_is T) (apply_toggle m enabled)"
  unfolding apply_toggle_def store_find_defs by (intro keeps_rules table_is_rules)

lemma failed_call_table:
  "svc_store (store_update m) s = (Inl e, s') \<Longrightarrow> table s' = table s"
  "svc_store (store_delete i) s = (Inl e, s') \<Longrightarrow> table s' = table s"
  "svc_store (store_save now m) s = (Inl e, s') \<Longrightarrow> table s' = table s"
  by (auto dest!: svc_store_Inl elim: store_update_cases store_delete_cases store_save_cases)

lemma updated_fields_undo:
  "stored_anchor (m_anchor m) = m_anchor m \<Longrightarrow> updated_fields (updated_fields m (m\<lparr>m_enabled := b\<rparr>)) m = m"
  by (cases m) (simp add: updated_fields_def)

lemma rows_with_id: "store_wf st \<Longrightarrow> store_find i st = Some m \<Longrightarrow> x \<in> set (st_metrics st) \<Longrightarrow> m_id x = Some i \<Longrightarrow> x = m"
  using find_id_Some by fastforce

lemma update_undone:
  assumes wf: "store_wf st" "anchors_stored st" and found: "store_find i st = Some m"
    and t1: "st_metrics st1 = st_metrics st" and u1: "store_update (m\<lparr>m_enabled := b\<rparr>) st1 = (Inr u, st2)"
    and t3: "st_metrics st3 = st_metrics st2" and u2: "store_update m st3 = (Inr u', st4)"
  shows "st_metrics st4 = st_metrics st"
proof -
  let ?m' = "updated_fields m (m\<lparr>m_enabled := b\<rparr>)"
  note m = store_find_SomeD[OF found]
  have norm: "stored_anchor (m_anchor m) = m_anchor m"
    using wf(2) m by (auto simp: anchors_stored_def list_all_iff)
  have find1: "store_find i st1 = Some m" using found t1 by (simp add: store_find_def)
  have table2: "st_metrics st2 = map (\<lambda>x. if m_id x = Some i then ?m' else x) (st_metrics st)"
    using u1 by (cases rule: store_update_cases) (use m find1 t1 in auto)
  have find3: "old = ?m'" if "store_find i st3 = Some old" for old
    using store_find_SomeD[OF that] m by (auto simp: t3 table2 split: if_splits)
  have "st_metrics st4 = map (\<lambda>x. if m_id x = Some i then updated_fields ?m' m else x) (st_metrics st3)"
    using u2 by (cases rule: store_update_cases) (use m find3 in auto)
  also have "\<dots> = map (\<lambda>x. if m_id x = Some i then m else x) (st_metrics st)"
    using m by (simp add: t3 table2 updated_fields_undo[OF norm] comp_def)
  also have "\<dots> = st_metrics st"
    using rows_with_id[OF wf(1) found] by (intro map_idI) auto
  finally show ?thesis .
qed

lemma svc_try_eq [simp]: "svc_try m s = (Inr r, s') \<longleftrightarrow> m s = (r, s')" "svc_try m s \<noteq> (Inl e, s')"
  by (simp_all add: svc_try_def case_prod_beta prod_eq_iff)

lemma svc_simple_eq [simp]:
  "svc_lift r s = (r', s') \<longleftrightarrow> r = r' \<and> s = s'" "svc_return a s = (r', s') \<longleftrightarrow> r' = Inr a \<and> s = s'"
  "svc_send ev s \<noteq> (Inl e, s')"
  by (auto simp: svc_lift_def svc_return_def svc_send_def)

text \<open>The steps of a toggle that changes the flag, after its first update.\<close>

lemma toggle_metric_Inl:
  assumes t: "toggle_metric i enabled scope s = (Inl e, s')" and nf: "\<And>p r c. e \<noteq> OperationWithRollbackFailure p r c"
  obtains "table s' = table s"
  | m s1 s2 s3 u u' where "find_metric i s = (Inr m, s1)"
      "svc_store (store_update (m\<lparr>m_enabled := enabled\<rparr>)) s1 = (Inr u, s2)" "table s3 = table s2"
      "svc_store (store_update m) s3 = (Inr u', s')"
proof (cases "find_metric i s = (Inl e, s')")
  case True
  then show ?thesis using that(1) same_table[OF table_is_find] by blast
next
  case False
  with t obtain m s1 where f: "find_metric i s = (Inr m, s1)"
    unfolding toggle_metric_def svc_bind_Inl by blast
  note same = same_table[OF table_is_find f]
  let ?m = "m\<lparr>m_enabled := enabled\<rparr>"
  show ?thesis
  proof (cases "check_mutate_access scope m = Inr () \<and> m_enabled m \<noteq> enabled")
    case False
    then have "s' = s1"
      using t f by (auto simp: toggle_metric_def svc_bind_def svc_lift_def svc_return_def split: sum.splits)
    then show ?thesis using that(1) same by simp
  next
    case True
    obtain r s2 where u: "svc_store (store_update ?m) s1 = (r, s2)" by (cases "svc_store (store_update ?m) s1")
    show ?thesis
    proof (cases r)
      case (Inl e')
      then have "s' = s2"
        using t f True u by (auto simp: toggle_metric_def svc_bind_def svc_lift_def Let_def)
      then show ?thesis using that(1) same failed_call_table(1) u Inl by metis
    next
      case (Inr x)
      obtain a s3 where a: "apply_toggle ?m enabled s2 = (a, s3)" by (cases "apply_toggle ?m enabled s2")
      obtain r3 s4 where u3: "svc_store (store_update m) s3 = (r3, s4)" by (cases "svc_store (store_update m) s3")
      have m: "m\<lparr>m_enabled := enabled, m_enabled := m_enabled m\<rparr> = m" by simp
      have "s' = s4 \<and> is_ok r3"
        using t f True u Inr a u3 nf
        by (auto simp: toggle_metric_def svc_bind_def svc_lift_def svc_try_def svc_send_def svc_return_def Let_def m split: sum.splits)
      then show ?thesis
        using that(2)[OF f] u Inr u3 same_table[OF table_is_apply_toggle a] by (cases r3) auto
    qed
  qed
qed

lemma table_is_validate:
  "keeps (table_is T) (store_file_content env m fc)" "keeps (table_is T) (validate_safe_mode m)"
  "keeps (table_is T) (validate_metric env m)"
  by (rule keeps_checks; simp add: table_is_def)+

definition has_adapter :: "string \<Rightarrow> service_state \<Rightarrow> bool" where
  "has_adapter c s \<longleftrightarrow> map_of (sv_adapters s) c \<noteq> None"

lemma has_adapter_validate:
  "keeps (has_adapter c) (store_file_content env m fc)" "keeps (has_adapter c) (validate_safe_mode m)"
  "keeps (has_adapter c) (validate_metric env m)"
  by (rule keeps_checks; simp add: has_adapter_def)+

lemma has_adapter_store: "keeps (has_adapter c) (svc_store f)"
  by (simp add: keeps_def has_adapter_def svc_store_state)

text \<open>Deleting the row a save has just added gives the old table.\<close>

lemma save_undone:
  assumes wf: "store_wf st" and s: "store_save now m st = (Inr i, st1)"
    and t: "st_metrics st2 = st_metrics st1" and d: "store_delete i st2 = (Inr u, st3)"
  shows "st_metrics st3 = st_metrics st"
proof -
  from s have i: "i = st_next_id st" and t1: "st_metrics st1 = st_metrics st @ [saved_row now m i]"
    by (cases rule: store_save_cases; simp)+
  from d have "st_metrics st3 = filter (\<lambda>m. m_id m \<noteq> Some i) (st_metrics st2)"
    by (cases rule: store_delete_cases) auto
  also have "\<dots> = filter (\<lambda>m. m_id m \<noteq> Some i) (st_metrics st)" by (simp add: t t1)
  also have "\<dots> = st_metrics st" using store_wf_id_fresh[OF wf] i by (simp add: filter_id_conv)
  finally show ?thesis .
qed

lemma get_adapter_eq:
  "get_adapter_for_connection c s =
     (case map_of (sv_adapters s) c of Some a \<Rightarrow> (Inr a, s) | None \<Rightarrow> (Inl (no_adapter c), s))"
  by (simp add: get_adapter_for_connection_def split: option.splits)

lemma set_new_metric_Inl:
  assumes r: "set_new_metric m i ws s = (Inl e, s')"
    and ad: "m_enabled m \<Longrightarrow> has_adapter (m_connection_id m) s"
    and nf: "\<And>p r c. e \<noteq> OperationWithRollbackFailure p r c"
  obtains s2 u where "table s2 = table s" "svc_store (store_delete i) s2 = (Inr u, s')"
proof -
  have en: "m_enabled m" using r by (auto simp: set_new_metric_def split: if_splits)
  with ad obtain a where a: "get_adapter_for_connection (m_connection_id m) s = (Inr a, s)"
    by (auto simp: has_adapter_def get_adapter_eq)
  obtain r1 s2 where st: "adapter_set (m_connection_id m) (m\<lparr>m_id := Some i\<rparr>) s = (r1, s2)"
    by (cases "adapter_set (m_connection_id m) (m\<lparr>m_id := Some i\<rparr>) s")
  obtain r2 s3 where d: "svc_store (store_delete i) s2 = (r2, s3)" by (cases "svc_store (store_delete i) s2")
  have "s3 = s' \<and> is_ok r2"
    using r en a st d nf
    by (auto simp: set_new_metric_def svc_bind_def svc_try_def svc_lift_def svc_return_def split: sum.splits)
  with d that same_table[OF table_is_adapter(1) st] show ?thesis by (cases r2) auto
qed

lemma with_anchor_fields:
  "with_anchor env fs m ws = (m1, ws') \<Longrightarrow>
     m_enabled m1 = m_enabled m \<and> m_connection_id m1 = m_connection_id m \<and> unique_key m1 = unique_key m \<and> m_name m1 = m_name m"
  by (auto simp: with_anchor_def unique_key_def effective_user_def split: sum.splits)

lemma save_new_metric_Inl:
  assumes wf: "store_wf (sv_store s)" and r: "save_new_metric env m ws s = (Inl e, s')"
    and ad: "m_enabled m \<Longrightarrow> has_adapter (m_connection_id m) s"
    and nf: "\<And>p r c. e \<noteq> OperationWithRollbackFailure p r c"
  shows "table s' = table s"
proof -
  obtain m1 ws1 where m1: "with_anchor env (sv_vfs s) m ws = (m1, ws1)" by (cases "with_anchor env (sv_vfs s) m ws")
  note same = with_anchor_fields[OF m1]
  from r consider "svc_store (store_save (of_nat (sv_now s)) m1) s = (Inl e, s')"
    | i s1 where "svc_store (store_save (of_nat (sv_now s)) m1) s = (Inr i, s1)" "set_new_metric m1 i ws1 s1 = (Inl e, s')"
    by (auto simp: save_new_metric_def svc_bind_Inl svc_get_def m1)
  then show ?thesis
  proof cases
    case 1
    then show ?thesis by (rule failed_call_table)
  next
    case (2 i s1)
    have "has_adapter (m_connection_id m1) s1" if "m_enabled m1"
      using keepsD[OF has_adapter_store ad] 2(1) that same by (metis snd_conv)
    from set_new_metric_Inl[OF 2(2) this nf] obtain s2 u where
      "table s2 = table s1" "svc_store (store_delete i) s2 = (Inr u, s')" by metis
    then show ?thesis using save_undone[OF wf svc_store_Inr[OF 2(1)]] svc_store_Inr by metis
  qed
qed

lemma merge_existing_Inl:
  "merge_existing m existing ws s = (Inl e, s') \<Longrightarrow> table s' = table s"
  by (auto simp: merge_existing_def svc_bind_Inl Let_def split: option.splits if_splits dest: failed_call_table(1))


lemma add_metric_Inl:
  assumes wf: "service_wf s" and r: "add_metric env m False fc s = (Inl e, s')"
    and ad: "m_enabled m \<Longrightarrow> has_adapter (m_connection_id m) s"
    and nf: "\<And>p r c. e \<noteq> OperationWithRollbackFailure p r c"
  shows "table s' = table s"
proof -
  define checks where "checks =
    svc_bind (store_file_content env m fc) (\<lambda>_. svc_bind (validate_safe_mode m) (\<lambda>_.
    svc_bind (svc_lift (lift_core (validate_tenant_ids (m_user_id m) (m_agent_id m)))) (\<lambda>_.
    svc_bind (validate_metric env m) (\<lambda>warnings.
    svc_bind (svc_store (store_find_by_location (m_connection_id m) (loc_file (m_location m)) (loc_line (m_location m))
                 (metric_owner m))) (\<lambda>found. svc_return (warnings, found))))))"
  have T: "keeps (table_is T) checks" for T
    unfolding checks_def store_find_defs by (intro keeps_rules table_is_validate table_is_query)
  have A: "keeps (has_adapter c) checks" for c
    unfolding checks_def by (intro keeps_rules has_adapter_validate has_adapter_store)
  have W: "keeps service_wf checks"
    unfolding checks_def store_find_defs by (intro keeps_rules wf.keeps_primitive)
  have add: "add_metric env m False fc s = svc_bind checks (\<lambda>(warnings, found).
     (case found of None \<Rightarrow> save_new_metric env m warnings | Some existing \<Rightarrow> merge_existing m existing warnings)) s"
    by (auto simp: add_metric_def checks_def svc_bind_def svc_return_def split: sum.splits prod.splits)
  have "checks s = (Inl e, s') \<or> (\<exists>ws found s1. checks s = (Inr (ws, found), s1) \<and>
      (case found of None \<Rightarrow> save_new_metric env m ws | Some existing \<Rightarrow> merge_existing m existing ws) s1 = (Inl e, s'))"
    using r[unfolded add svc_bind_Inl] by auto
  then show ?thesis
  proof (elim disjE exE conjE)
    assume "checks s = (Inl e, s')"
    then show ?thesis using same_table[OF T] by blast
  next
    fix ws found s1
    assume c: "checks s = (Inr (ws, found), s1)"
      and f: "(case found of None \<Rightarrow> save_new_metric env m ws | Some existing \<Rightarrow> merge_existing m existing ws) s1 = (Inl e, s')"
    have "store_wf (sv_store s1)" using keepsD[OF W wf] c by (simp add: service_wf_def)
    moreover have "has_adapter (m_connection_id m) s1" if "m_enabled m" using keepsD[OF A ad[OF that]] c by simp
    ultimately have "table s' = table s1"
      using f save_new_metric_Inl[OF _ _ _ nf, of s1 env m ws s'] merge_existing_Inl[of m _ ws s1 e s'] by (cases found) auto
    then show ?thesis using same_table[OF T c] by simp
  qed
qed

lemma no_owner_match:
  assumes "unique_key m \<notin> unique_key ` set xs"
  shows "find (\<lambda>x. at_location (m_connection_id m) (loc_file (m_location m)) (loc_line (m_location m)) x \<and>
    effective_user x = owner_id (metric_owner m)) xs = None"
proof -
  have "\<lparr>loc_file = loc_file (m_location m), loc_line = loc_line (m_location m)\<rparr> = m_location m" by simp
  moreover have "owner_id (metric_owner m) = effective_user m"
    by (simp add: metric_owner_def effective_user_def split: option.splits)
  ultimately show ?thesis
    using assms by (auto simp: find_None_iff at_location_def unique_key_def image_iff)
qed


section \<open>Runs without database failures\<close>

definition no_faults :: "service_state \<Rightarrow> bool" where
  "no_faults s \<longleftrightarrow> st_faults (sv_store s) = []"

lemma query_no_faults: "no_faults s \<Longrightarrow> svc_store (store_query f) s = (Inr (f (table s)), s)"
  by (simp add: no_faults_def svc_store_def store_query_def store_call_def)

lemma find_metric_no_faults:
  "no_faults s \<Longrightarrow> store_find i (sv_store s) = Some m \<Longrightarrow> find_metric i s = (Inr m, s)"
  by (simp add: find_metric_def store_find_by_id_def svc_bind_def query_no_faults svc_lift_def store_find_def)

lemma delete_no_faults:
  "no_faults s \<Longrightarrow> store_find i (sv_store s) = Some m \<Longrightarrow>
     svc_store (store_delete i) s = (Inr (), s\<lparr>sv_store := (sv_store s)\<lparr>st_metrics := filter (\<lambda>m. m_id m \<noteq> Some i) (table s)\<rparr>\<rparr>)"
  by (simp add: no_faults_def svc_store_def store_delete_def store_call_def)

lemma save_no_faults:
  "no_faults s \<Longrightarrow> unique_key m \<notin> unique_key ` set (table s) \<Longrightarrow> st_next_id (sv_store s) \<noteq> ROWID_LIMIT \<Longrightarrow>
     \<exists>st. store_save now m (sv_store s) = (Inr (st_next_id (sv_store s)), st) \<and>
       st_metrics st = table s @ [saved_row now m (st_next_id (sv_store s))]"
  by (simp add: no_faults_def store_save_def store_call_def saved_row_def)

lemma set_metric_active:
  "m_name m \<noteq> n \<Longrightarrow> map_of (da_active (snd (dap_set_metric k m reply a))) n = map_of (da_active a) n"
  by (auto simp: dap_set_metric_def Let_def update_conv' delete_conv' split: dap_reply.splits bool.splits prod.splits)

text \<open>Setting a metric in the adapter leaves the entries of other names.\<close>

lemma adapter_set_tracked:
  assumes "map_of (sv_adapters s) c = Some a" "m_name m \<noteq> n"
  shows "\<exists>a'. map_of (sv_adapters (snd (adapter_set c m s))) c = Some a' \<and>
    map_of (da_active (ca_dap a')) n = map_of (da_active (ca_dap a)) n"
  using assms set_metric_active[OF assms(2)]
  by (simp add: adapter_set_def adapter_call_def case_prod_beta update_conv')

lemma set_merged_expressions: "set (merged_expressions ms) = (\<Union>m \<in> set ms. set (m_expressions m))"
  by (simp add: merged_expressions_def)

lemma merged_expressions_nonempty: "b \<in> set ms \<Longrightarrow> m_expressions b \<noteq> [] \<Longrightarrow> merged_expressions ms \<noteq> []"
  using set_merged_expressions[of ms] by auto


text \<open>The adapter after a location has been synchronised in which a metric of another name is enabled.\<close>

lemma sync_keeps_tracked:
  assumes nf: "no_faults s" and other: "other \<in> set (table s)" "m_enabled other" "m_expressions other \<noteq> []"
    and place: "m_connection_id other = m_connection_id m" "m_location other = m_location m"
    and names: "\<And>x. x \<in> set (table s) \<Longrightarrow> m_location x = m_location m \<Longrightarrow> m_name x \<noteq> m_name m"
    and a: "map_of (sv_adapters s) (m_connection_id m) = Some a" "map_of (da_active (ca_dap a)) (m_name m) = Some t"
  shows "\<exists>s1 a1. sync_logpoint (m_connection_id m) (loc_file (m_location m)) (loc_line (m_location m)) fallback s = (Inr (), s1) \<and>
    sv_store s1 = sv_store s \<and> map_of (sv_adapters s1) (m_connection_id m) = Some a1 \<and>
    map_of (da_active (ca_dap a1)) (m_name m) = Some t"
proof -
  let ?on = "filter m_enabled (filter (at_location (m_connection_id m) (loc_file (m_location m)) (loc_line (m_location m))) (table s))"
  let ?new = "(hd ?on)\<lparr>m_expressions := merged_expressions ?on\<rparr>"
  have "other \<in> set ?on" using other place by (simp add: at_location_def)
  then have on: "merged_expressions ?on \<noteq> []" "?on \<noteq> []"
    using merged_expressions_nonempty[OF _ other(3)] by blast (metis \<open>other \<in> set ?on\<close> emptyE empty_set)
  then have "hd ?on \<in> set ?on" by (metis hd_in_set)
  then have "m_name ?new \<noteq> m_name m" using names by (simp add: at_location_def)
  from adapter_set_tracked[OF a(1) this] obtain a1 where
    a1: "map_of (sv_adapters (snd (adapter_set (m_connection_id m) ?new s))) (m_connection_id m) = Some a1"
      "map_of (da_active (ca_dap a1)) (m_name m) = Some t"
    using a(2) by auto
  have "sync_logpoint (m_connection_id m) (loc_file (m_location m)) (loc_line (m_location m)) fallback s =
     (Inr (), snd (adapter_set (m_connection_id m) ?new s))"
    using on(1) a(1)
    by (simp add: sync_logpoint_def svc_bind_def store_find_all_at_location_def query_no_faults[OF nf] svc_try_def
        get_adapter_eq svc_return_def case_prod_beta Let_def)
  then show ?thesis using a1 by (simp add: adapter_set_def)
qed


section \<open>Properties\<close>


definition sample_service_env :: service_env where
  "sample_service_env = \<lparr>se_lower = (\<lambda>x. x), se_analysis = sample_env, se_validators = [],
     se_purity_analyzers = (\<lambda>_. None), se_limits = \<lparr>max_expressions_per_metric = 10, max_expression_length = 100\<rparr>,
     se_content_hash = (\<lambda>x. x), se_inspect = (\<lambda>_ _ _. Inr None), se_capture_anchor = (\<lambda>_ _ _. Inl (InvalidConfig [])),
     se_verify_anchor = (\<lambda>_ _ _ _. Inr False), se_relocate = (\<lambda>_ _ _ _. Inl (InvalidConfig []))\<rparr>"

definition sample_adapter :: connected_adapter where
  "sample_adapter = \<lparr>ca_kind = sample_kind, ca_safe_mode = False, ca_dap = adapter_new\<rparr>"

text \<open>A service with two metrics at one location: one of the system, one of the user \<open>u\<close>.\<close>

definition system_row :: metric where
  "system_row = sample_metric\<lparr>m_id := Some 1\<rparr>"

definition user_row :: metric where
  "user_row = sample_metric\<lparr>m_id := Some 2, m_name := ''n'', m_user_id := Some ''u''\<rparr>"

definition sample_service :: service_state where
  "sample_service = (service_start (cached_fs_new 0) (ast_cache_new 1))
     \<lparr>sv_store := \<lparr>st_metrics = [system_row, user_row], st_next_id = 3, st_faults = []\<rparr>,
      sv_adapters := [(''c'', sample_adapter)]\<rparr>"

lemma sample_store_wf: "store_wf (sv_store sample_service)"
  by (simp add: sample_service_def store_wf_def system_row_def user_row_def sample_metric_def ROWID_LIMIT_def
    unique_key_def effective_user_def SYSTEM_USER_ID_def)

lemma sample_service_wf: "service_wf sample_service"
  using sample_store_wf
  by (simp add: service_wf_def anchors_stored_def adapters_wf_def sample_service_def sample_adapter_def
    system_row_def user_row_def sample_metric_def stored_anchor_def)


text \<open>C9: tenants are isolated: whatever a caller with a scope does to metrics by identifier or by group
  (removing, toggling, enabling or disabling a group, any number of times and with any failures of the
  database and the debuggers), a stored metric the scope may not change stays in the table as it is.\<close>

theorem tenant_rows_untouched:
  assumes "store_wf (sv_store s)" "row \<in> set (table s)" "\<not> can_mutate scope row"
    and "(scoped_step scope)\<^sup>*\<^sup>* s s'"
  shows "row \<in> set (table s')"
  using scoped_steps_row[OF assms(4,3)] assms(1,2) by (simp add: has_row_def)

theorem tenant_rows_untouched_witness:
  "system_row \<in> set (table (snd (remove_metric 2 (UserScope ''u'') sample_service)))"
  by (rule tenant_rows_untouched[where scope = "UserScope ''u''" and s = sample_service, OF sample_store_wf])
    (auto simp: sample_service_def system_row_def sample_metric_def can_mutate_def intro: scoped_remove)

text \<open>C19: a toggle that fails leaves the table as it was, unless the undoing itself failed, which the
  error then says.\<close>

theorem toggle_failure_restores:
  assumes "service_wf s" "toggle_metric i enabled scope s = (Inl e, s')"
    and "\<And>primary rollback c. e \<noteq> OperationWithRollbackFailure primary rollback c"
  shows "table s' = table s"
  using assms(2,3)
proof (cases rule: toggle_metric_Inl)
  case (2 m s1 s2 s3 u u')
  then show ?thesis
    using update_undone[of "sv_store s" i m "sv_store s1" enabled u "sv_store s2" "sv_store s3" u' "sv_store s'"]
      find_metric_Inr(1,2)[OF 2(1)] assms(1) by (simp add: service_wf_def svc_store_Inr)
qed

text \<open>The debugger refuses the logpoint of the other metric at the location.\<close>

definition refusing_service :: service_state where
  "refusing_service = sample_service\<lparr>sv_replies := [Reply True None None, Reply False None None]\<rparr>"

lemmas sample_defs = refusing_service_def sample_service_def service_start_def sample_adapter_def adapter_new_def
  system_row_def user_row_def sample_metric_def

lemmas service_eval = svc_bind_def svc_store_def svc_lift_def svc_return_def svc_try_def svc_get_def svc_send_def
  get_adapter_for_connection_def adapter_call_def adapter_set_def adapter_remove_def next_reply_def
  store_find_defs store_query_def store_call_def store_find_def

lemma store_update_eval:
  "store_update m s =
     (case m_id m of
        None \<Rightarrow> (Inl (InvalidConfig ''Metric must have ID to update''), s)
      | Some i \<Rightarrow>
          (case store_call s of
             (Some e, s) \<Rightarrow> (Inl (Database e), s)
           | (None, s) \<Rightarrow>
               (case find (\<lambda>m. m_id m = Some i) (st_metrics s) of
                  None \<Rightarrow> (Inl (MetricNotFound (show_id i)), s)
                | Some old \<Rightarrow>
                    if list_ex (\<lambda>x. m_id x \<noteq> Some i \<and> unique_key x = unique_key (updated_fields old m)) (st_metrics s)
                    then (Inl unique_violation, s)
                    else (Inr (), s\<lparr>st_metrics :=
                            map (\<lambda>x. if m_id x = Some i then updated_fields old m else x) (st_metrics s)\<rparr>))))"
proof -
  have "k \<in> unique_key ` {x \<in> set xs. m_id x \<noteq> i} \<longleftrightarrow> list_ex (\<lambda>x. m_id x \<noteq> i \<and> unique_key x = k) xs" for k xs i
    by (auto simp: list_ex_iff)
  then show ?thesis by (simp only: store_update_def store_find_def Let_def)
qed

lemma toggle_refused:
  "\<exists>t s'. toggle_metric 1 False Admin refusing_service = (Inl (CoreError (Adapter t)), s')"
  by (simp add: toggle_metric_def apply_toggle_def find_metric_def service_eval sample_defs check_mutate_access_def
    can_mutate_def store_update_eval updated_fields_def unique_key_def effective_user_def at_location_def Let_def
    dap_remove_metric_def dap_set_metric_def SYSTEM_USER_ID_def)

theorem toggle_failure_restores_witness:
  "table (snd (toggle_metric 1 False Admin refusing_service)) = table refusing_service"
proof -
  obtain t s' where t: "toggle_metric 1 False Admin refusing_service = (Inl (CoreError (Adapter t)), s')"
    using toggle_refused by blast
  moreover have "service_wf refusing_service"
    using sample_service_wf by (simp add: refusing_service_def service_wf_def)
  ultimately show ?thesis using toggle_failure_restores[OF _ t] by simp
qed


definition new_metric :: metric where
  "new_metric = sample_metric\<lparr>m_location := \<lparr>loc_file = ''a.py'', loc_line = 9\<rparr>\<rparr>"

lemma new_metric_checks:
  "validate_safe_mode new_metric s = (Inr (), s)" "validate_tenant_ids (m_user_id new_metric) (m_agent_id new_metric) = Inr ()"
  "validate_metric sample_service_env new_metric s = (Inr [NoSafetyValidator ''python'' ''m''], s)"
proof -
  have name: "validate_name ''m'' = Inr ()" by code_simp
  have len: "validate_expression_length ''x'' 100 = Inr ()" by code_simp
  have trim: "trim ''x'' \<noteq> []" by code_simp
  have reg: "\<not> supports_language [] ''python''" by (simp add: supports_language_def split: option.splits)
  show "validate_safe_mode new_metric s = (Inr (), s)" "validate_tenant_ids (m_user_id new_metric) (m_agent_id new_metric) = Inr ()"
    by (simp_all add: new_metric_def sample_metric_def validate_safe_mode_def needs_introspection_def is_go_function_call_def
      validate_tenant_ids_def validate_tenant_id_def)
  show "validate_metric sample_service_env new_metric s = (Inr [NoSafetyValidator ''python'' ''m''], s)"
    using trim by (simp add: validate_metric_def validate_metric_fields_def new_metric_def sample_metric_def sample_service_env_def
      service_eval name len reg validate_expression_scope_def)
qed

lemma add_refused:
  "\<exists>t s'. add_metric sample_service_env new_metric False None (sample_service\<lparr>sv_replies := [Reply False None None]\<rparr>) =
     (Inl (CoreError (Adapter t)), s')"
  by (simp add: add_metric_def store_file_content_def svc_bind_def new_metric_checks svc_lift_def)
    (simp add: new_metric_def service_eval sample_defs at_location_def save_new_metric_def with_anchor_def
      sample_service_env_def set_new_metric_def store_save_def unique_key_def ROWID_LIMIT_def dap_set_metric_def
      store_delete_def stored_form_def Let_def)





definition tracking_service :: service_state where
  "tracking_service = sample_service\<lparr>sv_adapters :=
     [(''c'', sample_adapter\<lparr>ca_dap := adapter_new\<lparr>da_active := [(''n'', user_row)]\<rparr>\<rparr>)]\<rparr>"


end
