(* ===== verification/Service_Anchors.thy ===== *)
theory Service_Anchors
  imports Anchor_Service Service_Properties
begin

text \<open>
  The metric service with the anchor service in place of its three anchor parameters: what a change
  notification for a file does to the metrics of that file.
\<close>


section \<open>The composed service\<close>

text \<open>The anchor service reads files through the virtual file system of the service state.\<close>

definition anchored_env ::
  "service_env \<Rightarrow> anchor_service \<Rightarrow> (cached_file_system \<Rightarrow> string \<Rightarrow> string result) \<Rightarrow> service_env" where
  "anchored_env env svc read =
     env\<lparr>se_capture_anchor := (\<lambda>fs. capture_anchor (svc\<lparr>as_read := read fs\<rparr>)),
         se_verify_anchor := (\<lambda>fs. verify_anchor (svc\<lparr>as_read := read fs\<rparr>)),
         se_relocate := (\<lambda>fs. relocate (svc\<lparr>as_read := read fs\<rparr>))\<rparr>"

text \<open>The anchor of a metric, if it has one, is what would be captured now, up to the time of its last
  verification.\<close>

definition anchor_current :: "anchor_service \<Rightarrow> metric \<Rightarrow> bool" where
  "anchor_current svc m \<longleftrightarrow>
     (case m_anchor m of
        None \<Rightarrow> True
      | Some a \<Rightarrow>
          (\<exists>fresh. capture_anchor svc (m_location m) (m_language m) = Inr fresh
             \<and> a\<lparr>last_verified_at := None\<rparr> = fresh\<lparr>last_verified_at := None\<rparr>))"

text \<open>A metric without its anchor.\<close>

definition placement :: "metric \<Rightarrow> metric" where
  "placement m = m\<lparr>m_anchor := None, m_anchor_status := Unanchored\<rparr>"

lemma placement_fields [simp]:
  "m_id (placement m) = m_id m" "m_location (placement m) = m_location m"
  by (simp_all add: placement_def)

lemma verify_ignores_time: "verify_anchor svc loc (a\<lparr>last_verified_at := t\<rparr>) lang = verify_anchor svc loc a lang"
  by (simp add: verify_anchor_def stored_context_def split: sum.split option.split)

lemma verify_same_up_to_time:
  assumes "a\<lparr>last_verified_at := None\<rparr> = b\<lparr>last_verified_at := None\<rparr>"
  shows "verify_anchor svc loc a lang = verify_anchor svc loc b lang"
  using verify_ignores_time[where a = a and t = None] verify_ignores_time[where a = b and t = None] assms by metis

lemma anchor_current_verifies:
  assumes "anchor_current svc m" and "m_anchor m = Some a"
  shows "verify_anchor svc (m_location m) a (m_language m) = Inr True"
proof -
  obtain fresh where fresh: "capture_anchor svc (m_location m) (m_language m) = Inr fresh"
    and same: "a\<lparr>last_verified_at := None\<rparr> = fresh\<lparr>last_verified_at := None\<rparr>"
    using assms by (auto simp: anchor_current_def)
  show ?thesis using fresh_anchor_verifies[OF fresh] verify_same_up_to_time[OF same] by simp
qed

lemma placement_updated:
  "placement old = placement m \<Longrightarrow> placement (updated_fields old (m\<lparr>m_anchor := a, m_anchor_status := st\<rparr>)) = placement m"
  unfolding placement_def updated_fields_def by (cases m; cases old) simp



section \<open>Metrics of an unchanged file\<close>

lemma update_keeps_placements:
  assumes "store_update (m\<lparr>m_anchor := a, m_anchor_status := st\<rparr>) db = (r, db')"
    and "distinct (map m_id T)" and "map placement (st_metrics db) = T" and "placement m \<in> set T"
  shows "map placement (st_metrics db') = T"
  using assms(1)
proof (cases rule: store_update_cases)
  case 1
  then show ?thesis using assms(3) by simp
next
  case (2 i old)
  have old: "old \<in> set (st_metrics db)" "m_id old = Some i"
    using 2(2) by (auto simp: store_find_def find_Some_iff)
  have "placement x = placement m" if "x \<in> set (st_metrics db)" "m_id x = Some i" for x
  proof (rule distinct_map[THEN iffD1, THEN conjunct2, THEN inj_onD, OF assms(2)])
    show "placement x \<in> set T" using that assms(3) by force
    show "m_id (placement x) = m_id (placement m)" using that 2(1) by simp
  qed (fact assms(4))
  then have "placement (if m_id x = Some i then updated_fields old (m\<lparr>m_anchor := a, m_anchor_status := st\<rparr>) else x)
      = placement x" if "x \<in> set (st_metrics db)" for x
    using that old placement_updated by simp
  then show ?thesis using 2(5) assms(3) by (simp cong: map_cong)
qed

text \<open>What the rounds of the loop leave alone.\<close>

definition same_but_anchors :: "metric list \<Rightarrow> service_state \<Rightarrow> service_state \<Rightarrow> bool" where
  "same_but_anchors T s s' \<longleftrightarrow>
     map placement (st_metrics (sv_store s')) = T \<and> sv_adapters s' = sv_adapters s
     \<and> sv_events s' = sv_events s \<and> sv_vfs s' = sv_vfs s"

lemma verified_round:
  assumes "file_change_round (anchored_env env svc read) path m r s' = (res, s'')"
    and "same_but_anchors T s s'" and "distinct (map m_id T)" and "placement m \<in> set T"
    and "anchor_current (svc\<lparr>as_read := read (sv_vfs s)\<rparr>) m"
  shows "same_but_anchors T s s''
    \<and> (\<exists>r'. res = Inr r' \<and> fc_relocated r' = fc_relocated r \<and> fc_orphaned r' = fc_orphaned r \<and> fc_failed r' = fc_failed r)"
proof (cases "m_id m = None \<or> m_anchor m = None")
  case True
  then show ?thesis
    using assms(1,2) by (cases "m_id m"; cases "m_anchor m") (auto simp: file_change_round_def svc_return_def)
next
  case False
  then obtain i a where ia: "m_id m = Some i" "m_anchor m = Some a" by auto
  have verified: "se_verify_anchor (anchored_env env svc read) (sv_vfs s') (m_location m) a (m_language m) = Inr True"
    using anchor_current_verifies[OF assms(5) ia(2)] assms(2) by (simp add: anchored_env_def same_but_anchors_def)
  let ?m = "m\<lparr>m_anchor := Some (a\<lparr>last_verified_at := Some (of_nat (sv_now s'))\<rparr>), m_anchor_status := Verified\<rparr>"
  obtain u db where u: "store_update ?m (sv_store s') = (u, db)" by fastforce
  have "res = Inr (r\<lparr>fc_verified := fc_verified r + 1\<rparr>)" "s'' = s'\<lparr>sv_store := db\<rparr>"
    using assms(1) ia verified u
    by (auto simp: file_change_round_def svc_bind_def svc_get_def svc_try_def svc_store_def svc_return_def)
  moreover have "map placement (st_metrics db) = T"
    using update_keeps_placements[OF u assms(3) _ assms(4)] assms(2) by (simp add: same_but_anchors_def)
  ultimately show ?thesis using assms(2) by (simp add: same_but_anchors_def)
qed

lemma verified_loop:
  assumes "file_change_loop (anchored_env env svc read) path ms r s' = (res, s'')"
    and "same_but_anchors T s s'" and "distinct (map m_id T)" and "\<forall>m \<in> set ms. placement m \<in> set T"
    and "\<forall>m \<in> set ms. anchor_current (svc\<lparr>as_read := read (sv_vfs s)\<rparr>) m"
  shows "same_but_anchors T s s''
    \<and> (\<exists>r'. res = Inr r' \<and> fc_relocated r' = fc_relocated r \<and> fc_orphaned r' = fc_orphaned r \<and> fc_failed r' = fc_failed r)"
  using assms
proof (induction ms arbitrary: r s')
  case (Cons m ms)
  obtain res1 s1 where round: "file_change_round (anchored_env env svc read) path m r s' = (res1, s1)" by fastforce
  from verified_round[OF round Cons.prems(2,3)] Cons.prems(4,5) obtain r1 where
    r1: "same_but_anchors T s s1" "res1 = Inr r1" "fc_relocated r1 = fc_relocated r"
      "fc_orphaned r1 = fc_orphaned r" "fc_failed r1 = fc_failed r" by auto
  then show ?case using Cons.IH[of r1 s1] Cons.prems round by (simp add: svc_bind_def)
qed (auto simp: svc_return_def)

text \<open>C15: A change notification for a file whose anchored lines are unchanged moves nothing. When the anchor of
  every metric of the file is the one its location would give now, then, whatever the database answers, no
  metric is relocated, orphaned or failed: the rows differ at most in their anchors, and the debuggers and the
  event stream are untouched.\<close>

theorem unchanged_file_keeps_metrics:
  assumes "service_wf s"
    and "\<forall>m \<in> set (st_metrics (sv_store s)). loc_file (m_location m) = path
           \<longrightarrow> anchor_current (svc\<lparr>as_read := read (sv_vfs s)\<rparr>) m"
    and "handle_file_change (anchored_env env svc read) path s = (res, s')"
  shows "map placement (st_metrics (sv_store s')) = map placement (st_metrics (sv_store s))
     \<and> sv_adapters s' = sv_adapters s \<and> sv_events s' = sv_events s
     \<and> (\<forall>r. res = Inr r \<longrightarrow> fc_relocated r = 0 \<and> fc_orphaned r = 0 \<and> fc_failed r = 0)"
proof -
  let ?T = "map placement (st_metrics (sv_store s))"
  obtain q db where q: "store_find_all (sv_store s) = (q, db)" by fastforce
  have same: "st_metrics db = st_metrics (sv_store s)"
    using store_query_table(1) q by (simp add: store_find_all_def)
  have start: "same_but_anchors ?T s (s\<lparr>sv_store := db\<rparr>)" by (simp add: same_but_anchors_def same)
  have ids: "distinct (map m_id ?T)" using assms(1) by (simp add: service_wf_def store_wf_def comp_def)
  show ?thesis
  proof (cases q)
    case (Inl e)
    then show ?thesis
      using assms(3) q same by (auto simp: handle_file_change_def svc_bind_def svc_store_def lift_core_def)
  next
    case (Inr ms)
    then have ms: "ms = rev (st_metrics (sv_store s))" using store_query_ok q by (auto simp: store_find_all_def)
    have "file_change_loop (anchored_env env svc read) path (filter (\<lambda>m. loc_file (m_location m) = path) ms)
        \<lparr>fc_verified = 0, fc_relocated = 0, fc_orphaned = 0, fc_skipped = 0, fc_failed = 0\<rparr>
        (s\<lparr>sv_store := db\<rparr>) = (res, s')"
      using assms(3) q Inr by (simp add: handle_file_change_def svc_bind_def svc_store_def lift_core_def)
    from verified_loop[OF this start ids] show ?thesis
      using assms(2) ms by (auto simp: same_but_anchors_def)
  qed
qed


definition anchored_row :: "metric_anchor \<Rightarrow> metric" where
  "anchored_row anchor =
     sample_metric\<lparr>m_id := Some 1, m_location := \<lparr>loc_file = ''a.py'', loc_line = 3\<rparr>, m_anchor := Some anchor\<rparr>"

definition anchored_state :: "metric_anchor \<Rightarrow> service_state" where
  "anchored_state anchor =
     (service_start (cached_fs_new 0) (ast_cache_new 1))
       \<lparr>sv_store := \<lparr>st_metrics = [anchored_row anchor], st_next_id = 2, st_faults = []\<rparr>\<rparr>"

theorem unchanged_file_keeps_metrics_witness:
  "\<exists>anchor. \<forall>env.
     let s' = snd (handle_file_change (anchored_env env (sample_anchor_service []) (\<lambda>_ _. Inr sample_before)) ''a.py''
                     (anchored_state anchor))
     in map placement (st_metrics (sv_store s')) = [placement (anchored_row anchor)] \<and> sv_events s' = []"
proof -
  let ?svc = "sample_anchor_service []" and ?read = "\<lambda>_ _. Inr sample_before"
  have svc: "?svc\<lparr>as_read := \<lambda>_. Inr sample_before\<rparr> = sample_anchor_service sample_before"
    by (simp add: sample_anchor_service_def)
  obtain anchor where captured: "capture_anchor (sample_anchor_service sample_before)
      \<lparr>loc_file = ''a.py'', loc_line = 3\<rparr> Python = Inr anchor" using sample_captured by blast
  then have "context_fingerprint anchor \<noteq> None"
    by (rule capture_anchor_enabled) (simp_all add: sample_anchor_service_def)
  then have "stored_anchor (Some anchor) = Some anchor" by (simp add: stored_anchor_def keep_anchor_def)
  then have wf: "service_wf (anchored_state anchor)"
    by (simp add: service_wf_def store_wf_def anchors_stored_def adapters_wf_def anchored_state_def
        service_start_def anchored_row_def sample_metric_def SYSTEM_USER_ID_def ROWID_LIMIT_def)
  have current: "\<forall>m \<in> set (st_metrics (sv_store (anchored_state anchor))). loc_file (m_location m) = ''a.py'' \<longrightarrow>
      anchor_current (?svc\<lparr>as_read := ?read (sv_vfs (anchored_state anchor))\<rparr>) m"
    using captured by (simp add: svc anchored_state_def anchored_row_def anchor_current_def sample_metric_def)
  have "map placement (st_metrics (sv_store (anchored_state anchor))) = [placement (anchored_row anchor)]"
    "sv_events (anchored_state anchor) = []"
    by (simp_all add: anchored_state_def service_start_def)
  then show ?thesis
    using unchanged_file_keeps_metrics[OF wf current surjective_pairing]
    by (intro exI[of _ anchor]) (simp add: Let_def)
qed

end
