(* ===== verification/Ebpf_Wire.thy ===== *)
theory Ebpf_Wire
  imports Rust_Bytes
begin

text \<open>
  The DRX1 transport of the eBPF crate (\<open>detrix-ebpf/src/wire.rs\<close>): the envelope in front of every
  captured payload, its validation against the negotiated capabilities, and the encoder and decoder
  of a complete record. Records are lists of bytes; a \<open>usize\<close> is a natural number.
\<close>

unbundle bit_operations_syntax

named_theorems ebpf_defs \<open>definitions of the capture pipeline that proofs unfold\<close>


section \<open>Limits, capabilities and envelopes\<close>

definition CAPTURE_PLAN_SCHEMA_VERSION :: u16 where
  [ebpf_defs]: "CAPTURE_PLAN_SCHEMA_VERSION = 1"

definition MAX_CAPTURE_FIELDS :: nat where
  [ebpf_defs]: "MAX_CAPTURE_FIELDS = 64"

definition MAX_CAPTURE_PAYLOAD_BYTES :: nat where
  [ebpf_defs]: "MAX_CAPTURE_PAYLOAD_BYTES = 4096"

definition MAX_IDENTITY_BYTES :: nat where
  [ebpf_defs]: "MAX_IDENTITY_BYTES = 1024"

datatype envelope_error =
    UnknownSchema u16
  | MissingIdentity
  | Oversized nat nat
  | LengthMismatch nat nat
  | MalformedHeader
  | InvalidIdentity
  | UnknownProfile string
  | IdentityTooLong
  | InvalidFieldCount nat nat
  | UnknownFlags u16

record wire_capabilities =
  supported_schema_versions :: "u16 list"
  supported_profiles :: "string list"
  wc_max_payload_bytes :: nat

definition default_capabilities :: wire_capabilities where
  "default_capabilities =
     \<lparr>supported_schema_versions = [CAPTURE_PLAN_SCHEMA_VERSION],
      supported_profiles = [''go'', ''rust''],
      wc_max_payload_bytes = 4096\<rparr>"

definition negotiate :: "wire_capabilities \<Rightarrow> u16 \<Rightarrow> string \<Rightarrow> nat \<Rightarrow> envelope_error + unit" where
  "negotiate caps schema profile max_payload =
     (if schema \<notin> set (supported_schema_versions caps) then Inl (UnknownSchema schema)
      else if profile \<notin> set (supported_profiles caps) then Inl (UnknownProfile profile)
      else if max_payload > wc_max_payload_bytes caps
        then Inl (Oversized max_payload (wc_max_payload_bytes caps))
      else Inr ())"

record event_envelope =
  ev_schema_version :: u16
  ev_profile_id :: string
  ev_plan_hash :: string
  ev_field_count :: u16
  ev_payload_len :: u32
  ev_partial :: bool
  ev_unavailable :: bool

definition new_envelope :: "string \<Rightarrow> string \<Rightarrow> u16 \<Rightarrow> nat \<Rightarrow> event_envelope" where
  "new_envelope profile plan field_count len =
     \<lparr>ev_schema_version = CAPTURE_PLAN_SCHEMA_VERSION,
      ev_profile_id = profile,
      ev_plan_hash = plan,
      ev_field_count = field_count,
      ev_payload_len = word_of_nat len,
      ev_partial = False,
      ev_unavailable = False\<rparr>"

definition validate_with_capabilities ::
  "event_envelope \<Rightarrow> wire_capabilities \<Rightarrow> envelope_error + unit" where
  "validate_with_capabilities e caps =
     (if ev_schema_version e \<noteq> CAPTURE_PLAN_SCHEMA_VERSION
        then Inl (UnknownSchema (ev_schema_version e))
      else if ev_profile_id e = [] \<or> ev_plan_hash e = [] then Inl MissingIdentity
      else if length (ev_profile_id e) > MAX_IDENTITY_BYTES
            \<or> length (ev_plan_hash e) > MAX_IDENTITY_BYTES then Inl IdentityTooLong
      else if ev_field_count e = 0 \<or> unat (ev_field_count e) > MAX_CAPTURE_FIELDS
        then Inl (InvalidFieldCount (unat (ev_field_count e)) MAX_CAPTURE_FIELDS)
      else if unat (ev_payload_len e) > MAX_CAPTURE_PAYLOAD_BYTES
        then Inl (Oversized (unat (ev_payload_len e)) MAX_CAPTURE_PAYLOAD_BYTES)
      else negotiate caps (ev_schema_version e) (ev_profile_id e) (unat (ev_payload_len e)))"

definition validate_envelope :: "event_envelope \<Rightarrow> nat \<Rightarrow> envelope_error + unit" where
  "validate_envelope e max_payload =
     validate_with_capabilities e (default_capabilities\<lparr>wc_max_payload_bytes := max_payload\<rparr>)"


section \<open>Encoding and decoding a record\<close>

definition DRX1 :: "u8 list" where
  "DRX1 = as_bytes ''DRX1''"

definition HEADER :: nat where
  [ebpf_defs]: "HEADER = 18"

definition flags_of :: "event_envelope \<Rightarrow> u16" where
  "flags_of e =
     (let flags = 0;
          flags = (if ev_partial e then flags OR 1 else flags)
      in if ev_unavailable e then flags OR 2 else flags)"

definition encode_record :: "event_envelope \<Rightarrow> u8 list \<Rightarrow> nat \<Rightarrow> envelope_error + u8 list" where
  "encode_record e payload max_payload =
     (if unat (ev_payload_len e) \<noteq> length payload
        then Inl (LengthMismatch (unat (ev_payload_len e)) (length payload))
      else try_bind (validate_envelope e max_payload) (\<lambda>_.
        let profile = as_bytes (ev_profile_id e);
            plan = as_bytes (ev_plan_hash e)
        in if length profile > MAX_IDENTITY_BYTES \<or> length plan > MAX_IDENTITY_BYTES
           then Inl IdentityTooLong
           else Inr (DRX1 @ to_le_bytes (ev_schema_version e) @ to_le_bytes (flags_of e)
                     @ to_le_bytes (word_of_nat (length profile) :: u16)
                     @ to_le_bytes (ev_field_count e)
                     @ to_le_bytes (word_of_nat (length plan) :: u16)
                     @ to_le_bytes (ev_payload_len e)
                     @ profile @ plan @ payload)))"

text \<open>\<open>record.get(i..j)\<close>, read as a little-endian integer of its result type.\<close>

definition header_word :: "nat \<Rightarrow> nat \<Rightarrow> u8 list \<Rightarrow> envelope_error + 'a::len word" where
  "header_word i j record =
     (case slice_get i j record of
        None \<Rightarrow> Inl MalformedHeader
      | Some bytes \<Rightarrow>
          if 8 * length bytes = LENGTH('a) then Inr (from_le_bytes bytes) else Inl MalformedHeader)"

definition identity_text :: "u8 list \<Rightarrow> envelope_error + string" where
  "identity_text bs =
     (case from_utf8 bs of None \<Rightarrow> Inl InvalidIdentity | Some s \<Rightarrow> Inr s)"

text \<open>The part of the decoder behind the fixed header, with the header's values.\<close>

definition decode_identities ::
  "u8 list \<Rightarrow> nat \<Rightarrow> u16 \<Rightarrow> u16 \<Rightarrow> nat \<Rightarrow> u16 \<Rightarrow> nat \<Rightarrow> nat
    \<Rightarrow> envelope_error + event_envelope \<times> u8 list" where
  "decode_identities record max_payload schema flags profile_len field_count plan_len payload_len =
     (if profile_len = 0 \<or> plan_len = 0 then Inl MissingIdentity
      else if profile_len > MAX_IDENTITY_BYTES \<or> plan_len > MAX_IDENTITY_BYTES
        then Inl IdentityTooLong
      else case Option.bind (checked_add HEADER profile_len) (\<lambda>n. checked_add n plan_len) of
        None \<Rightarrow> Inl MalformedHeader
      | Some identity_end \<Rightarrow>
          (case checked_add identity_end payload_len of
             None \<Rightarrow> Inl MalformedHeader
           | Some end_pos \<Rightarrow>
               if end_pos \<noteq> length record then Inl (LengthMismatch end_pos (length record))
               else try_bind (identity_text (take profile_len (drop HEADER record))) (\<lambda>profile.
                 try_bind (identity_text (take plan_len (drop (HEADER + profile_len) record))) (\<lambda>plan.
                 let e = \<lparr>ev_schema_version = schema, ev_profile_id = profile,
                          ev_plan_hash = plan, ev_field_count = field_count,
                          ev_payload_len = word_of_nat payload_len,
                          ev_partial = flags AND 1 \<noteq> 0,
                          ev_unavailable = flags AND 2 \<noteq> 0\<rparr>
                 in try_bind (validate_envelope e max_payload) (\<lambda>_.
                      Inr (e, drop identity_end record))))))"

definition decode_record :: "u8 list \<Rightarrow> nat \<Rightarrow> envelope_error + event_envelope \<times> u8 list" where
  "decode_record record max_payload =
     (if length record < HEADER \<or> take 4 record \<noteq> DRX1 then Inl MalformedHeader
      else try_bind (header_word 4 6 record) (\<lambda>schema :: u16.
        try_bind (header_word 6 8 record) (\<lambda>flags :: u16.
        if flags AND NOT 3 \<noteq> 0 then Inl (UnknownFlags flags)
        else try_bind (header_word 8 10 record) (\<lambda>profile_len :: u16.
        try_bind (header_word 10 12 record) (\<lambda>field_count :: u16.
        try_bind (header_word 12 14 record) (\<lambda>plan_len :: u16.
        try_bind (header_word 14 18 record) (\<lambda>payload_len :: u32.
          decode_identities record max_payload schema flags (unat profile_len) field_count
            (unat plan_len) (unat payload_len))))))))"


section \<open>The bytes of a record\<close>

lemma flags_cases:
  assumes "flags AND NOT 3 = (0 :: u16)"
  shows "flags = 0 \<or> flags = 1 \<or> flags = 2 \<or> flags = 3"
proof -
  have "flags = flags AND (3 OR NOT 3)" by simp
  also have "\<dots> = flags AND 3" using assms by (simp only: bit.conj_disj_distrib) simp
  also have "\<dots> = take_bit 2 flags" by (simp add: take_bit_eq_mask mask_eq_exp_minus_1)
  finally have "unat flags = take_bit 2 (unat flags)" by (metis unsigned_take_bit_eq)
  then have "unat flags < 4" by (metis take_bit_nat_less_exp power2_eq_square mult_2 numeral_Bit0 mult_numeral_1)
  then have "unat flags \<in> {0, 1, 2, 3}" by auto
  then show ?thesis by (auto simp: word_unat_eq_iff)
qed

text \<open>The two flag bits of an envelope and the envelope bits of a flag word.\<close>

lemma flags_of_bits:
  "flags_of e AND NOT 3 = 0"
  "flags_of e AND 1 \<noteq> 0 \<longleftrightarrow> ev_partial e"
  "flags_of e AND 2 \<noteq> 0 \<longleftrightarrow> ev_unavailable e"
  by (simp_all add: flags_of_def Let_def)

lemma flags_of_decoded:
  assumes "flags AND NOT 3 = 0"
    and "ev_partial e \<longleftrightarrow> flags AND 1 \<noteq> 0" and "ev_unavailable e \<longleftrightarrow> flags AND 2 \<noteq> 0"
  shows "flags_of e = flags"
  using flags_cases[OF assms(1)] assms(2,3) by (auto simp: flags_of_def)

definition record_bytes :: "u16 \<Rightarrow> u16 \<Rightarrow> u16 \<Rightarrow> u16 \<Rightarrow> u16 \<Rightarrow> u32 \<Rightarrow> u8 list \<Rightarrow> u8 list" where
  "record_bytes schema flags profile_len field_count plan_len payload_len rest =
     DRX1 @ to_le_bytes schema @ to_le_bytes flags @ to_le_bytes profile_len @ to_le_bytes field_count
       @ to_le_bytes plan_len @ to_le_bytes payload_len @ rest"

lemma length_DRX1 [simp]: "length DRX1 = 4"
  by (simp add: DRX1_def)

lemma record_bytes_length [simp]:
  "length (record_bytes schema flags pl fc hl yl rest) = HEADER + length rest"
  by (simp add: record_bytes_def HEADER_def)

lemma record_bytes_parts [simp]:
  "take 4 (record_bytes schema flags pl fc hl yl rest) = DRX1"
  "header_word 4 6 (record_bytes schema flags pl fc hl yl rest) = Inr schema"
  "header_word 6 8 (record_bytes schema flags pl fc hl yl rest) = Inr flags"
  "header_word 8 10 (record_bytes schema flags pl fc hl yl rest) = Inr pl"
  "header_word 10 12 (record_bytes schema flags pl fc hl yl rest) = Inr fc"
  "header_word 12 14 (record_bytes schema flags pl fc hl yl rest) = Inr hl"
  "header_word 14 18 (record_bytes schema flags pl fc hl yl rest) = Inr yl"
  "drop (HEADER + n) (record_bytes schema flags pl fc hl yl rest) = drop n rest"
  by (simp_all add: header_word_def slice_get_def record_bytes_def HEADER_def)

text \<open>Every byte string with the magic and a full header is such a record.\<close>

lemma take_then_drop: "drop n xs = take m (drop n xs) @ drop (n + m) xs"
  by (metis append_take_drop_id drop_drop add.commute)

lemma header_word_bytes:
  assumes "8 * (j - i) = LENGTH('a)" and "i \<le> j" and "j \<le> length raw"
  obtains w :: "'a::len word" where "header_word i j raw = Inr w"
    and "drop i raw = to_le_bytes w @ drop j raw"
proof
  let ?bs = "take (j - i) (drop i raw)"
  have len: "8 * length ?bs = LENGTH('a)" using assms by simp
  show "header_word i j raw = Inr (from_le_bytes ?bs :: 'a word)"
    using assms len by (simp add: header_word_def slice_get_def)
  show "drop i raw = to_le_bytes (from_le_bytes ?bs :: 'a word) @ drop j raw"
    using assms take_then_drop[of i raw "j - i"] len by (simp only: to_from_le_bytes) simp
qed

lemma record_bytes_of:
  assumes "HEADER \<le> length raw" and "take 4 raw = DRX1"
  obtains schema flags pl fc hl yl where
    "raw = record_bytes schema flags pl fc hl yl (drop HEADER raw)"
proof -
  note len = assms(1)[unfolded HEADER_def]
  obtain schema :: u16 where s: "drop 4 raw = to_le_bytes schema @ drop 6 raw"
    by (rule header_word_bytes[of 6 4 raw, where ?'a = 16]) (use len in simp_all)
  obtain flags :: u16 where f: "drop 6 raw = to_le_bytes flags @ drop 8 raw"
    by (rule header_word_bytes[of 8 6 raw, where ?'a = 16]) (use len in simp_all)
  obtain pl :: u16 where p: "drop 8 raw = to_le_bytes pl @ drop 10 raw"
    by (rule header_word_bytes[of 10 8 raw, where ?'a = 16]) (use len in simp_all)
  obtain fc :: u16 where c: "drop 10 raw = to_le_bytes fc @ drop 12 raw"
    by (rule header_word_bytes[of 12 10 raw, where ?'a = 16]) (use len in simp_all)
  obtain hl :: u16 where h: "drop 12 raw = to_le_bytes hl @ drop 14 raw"
    by (rule header_word_bytes[of 14 12 raw, where ?'a = 16]) (use len in simp_all)
  obtain yl :: u32 where y: "drop 14 raw = to_le_bytes yl @ drop 18 raw"
    by (rule header_word_bytes[of 18 14 raw, where ?'a = 32]) (use len in simp_all)
  have "raw = DRX1 @ drop 4 raw" using assms(2) by (metis append_take_drop_id)
  also have "\<dots> = record_bytes schema flags pl fc hl yl (drop HEADER raw)"
    by (simp only: s f p c h y record_bytes_def HEADER_def append_assoc)
  finally show thesis by (rule that)
qed

lemma identity_text_Inr [simp]:
  "identity_text bs = Inr s \<longleftrightarrow> bs = as_bytes s \<and> valid_utf8 s"
  by (auto simp: identity_text_def from_utf8_def split: option.splits if_splits)

lemma validated_envelope:
  assumes "validate_envelope e max_payload = Inr u"
  shows "ev_schema_version e = CAPTURE_PLAN_SCHEMA_VERSION"
    and "ev_profile_id e \<in> {''go'', ''rust''}"
    and "ev_plan_hash e \<noteq> []" and "length (ev_plan_hash e) \<le> MAX_IDENTITY_BYTES"
    and "0 < unat (ev_field_count e)" and "unat (ev_field_count e) \<le> MAX_CAPTURE_FIELDS"
    and "unat (ev_payload_len e) \<le> min max_payload MAX_CAPTURE_PAYLOAD_BYTES"
  using assms by (auto simp: validate_envelope_def validate_with_capabilities_def negotiate_def
      default_capabilities_def unat_gt_0 split: if_splits)

lemma encode_record_Inr:
  "encode_record e payload mp = Inr r \<longleftrightarrow>
     unat (ev_payload_len e) = length payload \<and> validate_envelope e mp = Inr () \<and>
     r = record_bytes (ev_schema_version e) (flags_of e) (word_of_nat (length (ev_profile_id e)))
           (ev_field_count e) (word_of_nat (length (ev_plan_hash e))) (ev_payload_len e)
           (as_bytes (ev_profile_id e) @ as_bytes (ev_plan_hash e) @ payload)"
proof -
  have "length (ev_profile_id e) \<le> MAX_IDENTITY_BYTES \<and> length (ev_plan_hash e) \<le> MAX_IDENTITY_BYTES"
    if "validate_envelope e mp = Inr ()"
    using validated_envelope(2,4)[OF that] by (auto simp: MAX_IDENTITY_BYTES_def)
  then show ?thesis
    by (auto simp: encode_record_def try_bind_Inr_iff record_bytes_def Let_def)
qed

text \<open>The length of an identity survives its 16 bits.\<close>

lemma identity_length_u16 [simp]:
  "length s \<le> MAX_IDENTITY_BYTES \<Longrightarrow> unat (word_of_nat (length s) :: u16) = length s"
  by (simp add: unat_of_nat take_bit_nat_eq_self MAX_IDENTITY_BYTES_def)

lemma decode_identities_Inr:
  assumes "raw = record_bytes schema flags pl fc hl yl rest"
  shows "decode_identities raw mp schema flags (unat pl) fc (unat hl) (unat yl) = Inr (e, payload) \<longleftrightarrow>
    (let profile = take (unat pl) rest; plan = take (unat hl) (drop (unat pl) rest)
     in length rest = unat pl + unat hl + unat yl \<and> 0 < unat pl \<and> 0 < unat hl
        \<and> unat pl \<le> MAX_IDENTITY_BYTES \<and> unat hl \<le> MAX_IDENTITY_BYTES
        \<and> profile = as_bytes (ev_profile_id e) \<and> valid_utf8 (ev_profile_id e)
        \<and> plan = as_bytes (ev_plan_hash e) \<and> valid_utf8 (ev_plan_hash e)
        \<and> ev_schema_version e = schema \<and> ev_field_count e = fc \<and> ev_payload_len e = yl
        \<and> (ev_partial e \<longleftrightarrow> flags AND 1 \<noteq> 0) \<and> (ev_unavailable e \<longleftrightarrow> flags AND 2 \<noteq> 0)
        \<and> validate_envelope e mp = Inr ()
        \<and> payload = drop (unat pl + unat hl) rest)"
proof -
  have small: "unat pl < 2 ^ 16" "unat hl < 2 ^ 16" "unat yl < 2 ^ 32"
    using unsigned_less[of pl, where ?'a = nat] unsigned_less[of hl, where ?'a = nat]
      unsigned_less[of yl, where ?'a = nat] by simp_all
  have sums: "Option.bind (checked_add HEADER (unat pl)) (\<lambda>n. checked_add n (unat hl))
      = Some (HEADER + unat pl + unat hl)"
    "checked_add (HEADER + unat pl + unat hl) (unat yl) = Some (HEADER + unat pl + unat hl + unat yl)"
    using small by (simp_all add: checked_add_def HEADER_def)
  have parts: "length raw = HEADER + length rest" "drop HEADER raw = rest"
    "drop (HEADER + unat pl) raw = drop (unat pl) rest"
    "drop (HEADER + unat pl + unat hl) raw = drop (unat pl + unat hl) rest"
    using record_bytes_parts(8)[of 0 schema flags pl fc hl yl rest] unfolding assms
    by (simp_all add: add.assoc)
  show ?thesis
    unfolding decode_identities_def sums parts option.case
    by (cases e) (auto simp: try_bind_Inr_iff Let_def)
qed

lemma decode_record_bytes:
  "decode_record (record_bytes schema flags pl fc hl yl rest) mp =
     (if flags AND NOT 3 \<noteq> 0 then Inl (UnknownFlags flags)
      else decode_identities (record_bytes schema flags pl fc hl yl rest) mp schema flags
             (unat pl) fc (unat hl) (unat yl))"
  by (simp add: decode_record_def)

lemma decode_record_Inr_layout:
  assumes "decode_record raw mp = Inr x"
  obtains schema flags pl fc hl yl rest where "raw = record_bytes schema flags pl fc hl yl rest"
proof -
  have "HEADER \<le> length raw" "take 4 raw = DRX1"
    using assms by (auto simp: decode_record_def not_less split: if_splits)
  then show thesis using record_bytes_of that by metis
qed

lemma decode_of_encode:
  assumes "encode_record e payload mp = Inr raw"
    and "valid_utf8 (ev_profile_id e)" and "valid_utf8 (ev_plan_hash e)"
  shows "decode_record raw mp = Inr (e, payload)"
proof -
  note enc = assms(1)[unfolded encode_record_Inr]
  then have valid: "validate_envelope e mp = Inr ()" by blast
  have len: "length (ev_profile_id e) \<le> MAX_IDENTITY_BYTES" "length (ev_plan_hash e) \<le> MAX_IDENTITY_BYTES"
    "0 < length (ev_profile_id e)" "0 < length (ev_plan_hash e)"
    using validated_envelope(2,3,4)[OF valid] by (auto simp: MAX_IDENTITY_BYTES_def)
  have raw: "raw = record_bytes (ev_schema_version e) (flags_of e) (word_of_nat (length (ev_profile_id e)))
           (ev_field_count e) (word_of_nat (length (ev_plan_hash e))) (ev_payload_len e)
           (as_bytes (ev_profile_id e) @ as_bytes (ev_plan_hash e) @ payload)" using enc by blast
  show ?thesis
    using decode_identities_Inr[OF raw, of mp e payload] enc len assms(2,3) flags_of_bits[of e]
    unfolding raw decode_record_bytes by (simp add: Let_def)
qed

lemma encode_of_decode:
  assumes "decode_record raw mp = Inr (e, payload)"
  shows "encode_record e payload mp = Inr raw \<and> valid_utf8 (ev_profile_id e) \<and> valid_utf8 (ev_plan_hash e)"
proof -
  obtain schema flags pl fc hl yl rest where raw: "raw = record_bytes schema flags pl fc hl yl rest"
    using decode_record_Inr_layout[OF assms] .
  have flags: "flags AND NOT 3 = 0"
    and dec: "decode_identities raw mp schema flags (unat pl) fc (unat hl) (unat yl) = Inr (e, payload)"
    using assms unfolding raw decode_record_bytes by (auto split: if_splits)
  note parts = dec[unfolded decode_identities_Inr[OF raw] Let_def]
  have "rest = take (unat pl) rest @ take (unat hl) (drop (unat pl) rest) @ drop (unat pl + unat hl) rest"
    using take_then_drop[of 0 rest "unat pl"] take_then_drop[of "unat pl" rest "unat hl"] by simp
  then have rest: "rest = as_bytes (ev_profile_id e) @ as_bytes (ev_plan_hash e) @ payload"
    using parts by metis
  have lens: "length (ev_profile_id e) = unat pl" "length (ev_plan_hash e) = unat hl"
    using parts length_as_bytes(1)[of "ev_profile_id e"] length_as_bytes(1)[of "ev_plan_hash e"]
    by (metis (no_types, lifting) length_take length_drop min.absorb2 le_add1 add.assoc add_diff_cancel_left')+
  have "flags_of e = flags" using flags_of_decoded[OF flags] parts by blast
  then show ?thesis using parts rest lens raw unfolding encode_record_Inr by simp
qed


section \<open>The record format\<close>

text \<open>C12: The DRX1 record format is a bijection between byte strings and envelopes with payload: a byte
  string decodes to an envelope and a payload exactly when that envelope encodes with that payload to
  that byte string and its two identities are UTF-8 texts. So decoding inverts encoding, no two byte
  strings decode to the same event, and every byte of an accepted record is accounted for.\<close>

theorem record_codec:
  "decode_record raw max_payload = Inr (e, payload) \<longleftrightarrow>
     encode_record e payload max_payload = Inr raw \<and> valid_utf8 (ev_profile_id e) \<and> valid_utf8 (ev_plan_hash e)"
  using decode_of_encode encode_of_decode by blast

end
