(* ===== verification/Ebpf_Plan.thy ===== *)
theory Ebpf_Plan
  imports Ebpf_Wire
begin

text \<open>
  The capture plan of the eBPF crate (\<open>capture_plan.rs\<close>): the read operations a probe executes, the
  plan that places their results in the payload, and the admission check that a plan passes before it
  is compiled or loaded. The choice of the probed program counter is that of \<open>pc_selection.rs\<close>.
\<close>


section \<open>Read operations and plans\<close>

definition MAX_CAPTURE_OP_BYTES :: nat where
  [ebpf_defs]: "MAX_CAPTURE_OP_BYTES = 4096"

definition MAX_CAPTURE_OP_DEPTH :: nat where
  [ebpf_defs]: "MAX_CAPTURE_OP_DEPTH = 8"

datatype target_architecture = X86_64 | Aarch64

datatype register =
    Rax | Rdx | Rcx | Rbx | Rsi | Rdi | Rbp | Rsp
  | R8 | R9 | R10 | R11 | R12 | R13 | R14 | R15
  | Arm64 u8

text \<open>\<open>Register::from_dwarf_for_arch\<close>: the register of a DWARF register number.\<close>

definition from_dwarf_for_arch :: "u16 \<Rightarrow> target_architecture \<Rightarrow> register option" where
  "from_dwarf_for_arch n arch =
     (if arch = Aarch64 then (if n \<le> 31 then Some (Arm64 (ucast n)) else None)
      else if unat n < 16
        then Some ([Rax, Rdx, Rcx, Rbx, Rsi, Rdi, Rbp, Rsp, R8, R9, R10, R11, R12, R13, R14, R15] ! unat n)
      else None)"

datatype value_semantics = Value | Address | DerefAddress

datatype header_kind = StringHeader | RustString | BorrowedStr | SliceHeader | RustVec | BorrowedSlice

datatype read_op =
    Register register value_semantics
  | Stack i64 nat value_semantics
  | Frame register i64 nat value_semantics
  | Blob i64 nat value_semantics
  | Indirect read_op nat
  | MapOp read_op
  | Header read_op nat header_kind
  | HeaderExplicit read_op read_op "read_op option" nat header_kind
  | Cfa i64 nat value_semantics
  | UserBytes u16 nat
  | Constant "u8 list"
  | Piece nat nat read_op
  | Piecewise "capture_piece list"
  | Unavailable string
and capture_piece = CapturePiece (piece_offset: nat) (piece_size: nat) (piece_op: "read_op option")

record capture_field =
  cf_name :: string
  cf_offset :: nat
  cf_size :: nat
  cf_op :: read_op

record capture_plan =
  cp_schema_version :: u16
  cp_architecture :: target_architecture
  cp_profile_id :: string
  cp_plan_hash :: string
  cp_probe_pc :: u64
  cp_fields :: "capture_field list"
  cp_max_payload_bytes :: nat

datatype plan_error =
    UnsupportedSchema u16
  | MissingProfile
  | EmptyFields
  | InvalidField string
  | TooManyFields nat nat
  | TooLarge
  | PayloadLimit nat nat
  | MissingPlanHash


section \<open>Admission of a plan\<close>

text \<open>Does the range from \<open>start\<close> to \<open>stop\<close> meet one of the earlier ranges?\<close>

definition overlaps :: "(nat \<times> nat) list \<Rightarrow> nat \<Rightarrow> nat \<Rightarrow> bool" where
  "overlaps ranges start stop \<longleftrightarrow> list_ex (\<lambda>(s, e). start < e \<and> s < stop) ranges"

definition check_read_size :: "nat \<Rightarrow> plan_error + unit" where
  "check_read_size sz =
     (if sz = 0 \<or> sz > MAX_CAPTURE_OP_BYTES
      then Inl (InvalidField (''read size '' @ show_nat sz @ '' exceeds limit'')) else Inr ())"

definition check_depth :: "nat \<Rightarrow> plan_error + unit \<Rightarrow> plan_error + unit" where
  "check_depth depth r =
     (if depth > MAX_CAPTURE_OP_DEPTH then Inl (InvalidField ''read operation nesting exceeds limit'')
      else r)"

definition check_piece :: "(nat \<times> nat) list \<Rightarrow> nat \<Rightarrow> nat \<Rightarrow> nat \<Rightarrow> plan_error + unit" where
  "check_piece ranges off sz field_size =
     (if sz = 0 \<or> checked_add off sz = None then Inl (InvalidField ''invalid piecewise bounds'')
      else if off + sz > field_size
        then Inl (InvalidField ''piecewise piece extends beyond field payload'')
      else if overlaps ranges off (off + sz)
        then Inl (InvalidField ''piecewise pieces overlap another piece'')
      else Inr ())"

fun validate_op :: "read_op \<Rightarrow> nat \<Rightarrow> nat \<Rightarrow> nat \<Rightarrow> plan_error + unit"
and validate_pieces :: "capture_piece list \<Rightarrow> (nat \<times> nat) list \<Rightarrow> nat \<Rightarrow> nat \<Rightarrow> nat \<Rightarrow> plan_error + unit" where
  "validate_op (Stack off sz sem) n depth fs = check_depth depth (check_read_size sz)"
| "validate_op (Frame reg off sz sem) n depth fs = check_depth depth (check_read_size sz)"
| "validate_op (Blob off sz sem) n depth fs = check_depth depth (check_read_size sz)"
| "validate_op (Cfa off sz sem) n depth fs = check_depth depth (check_read_size sz)"
| "validate_op (Indirect base sz) n depth fs =
     check_depth depth (try_bind (check_read_size sz) (\<lambda>_. validate_op base n (depth + 1) fs))"
| "validate_op (Constant bytes) n depth fs =
     check_depth depth (if bytes = [] \<or> length bytes > MAX_CAPTURE_OP_BYTES
                        then Inl (InvalidField ''invalid constant size'') else Inr ())"
| "validate_op (UserBytes address_field sz) n depth fs =
     check_depth depth (try_bind (check_read_size sz) (\<lambda>_.
       if unat address_field \<ge> n then Inl (InvalidField ''user-byte address field out of range'')
       else Inr ()))"
| "validate_op (Piece off sz op) n depth fs =
     check_depth depth
      (if sz = 0 \<or> checked_add off sz = None then Inl (InvalidField ''invalid piece bounds'')
       else if off + sz > fs then Inl (InvalidField ''piece extends beyond field payload'')
       else validate_op op n (depth + 1) sz)"
| "validate_op (Piecewise pieces) n depth fs =
     check_depth depth
      (if pieces = [] then Inl (InvalidField ''piecewise operation has no pieces'')
       else validate_pieces pieces [] n depth fs)"
| "validate_op (Header base sz kind) n depth fs =
     check_depth depth (try_bind (check_read_size sz) (\<lambda>_. validate_op base n (depth + 1) sz))"
| "validate_op (HeaderExplicit ptr len cap sz kind) n depth fs =
     check_depth depth (try_bind (check_read_size sz) (\<lambda>_.
       try_bind (validate_op ptr n (depth + 1) 8) (\<lambda>_.
       try_bind (validate_op len n (depth + 1) 8) (\<lambda>_.
       case cap of None \<Rightarrow> Inr () | Some c \<Rightarrow> validate_op c n (depth + 1) 8))))"
| "validate_op (MapOp base) n depth fs = check_depth depth (validate_op base n (depth + 1) fs)"
| "validate_op (Register reg sem) n depth fs = check_depth depth (Inr ())"
| "validate_op (Unavailable reason) n depth fs = check_depth depth (Inr ())"
| "validate_pieces [] ranges n depth fs = Inr ()"
| "validate_pieces (CapturePiece off sz op # pieces) ranges n depth fs =
     try_bind (check_piece ranges off sz fs) (\<lambda>_.
       try_bind (case op of None \<Rightarrow> Inr () | Some op' \<Rightarrow> validate_op op' n (depth + 1) sz) (\<lambda>_.
         validate_pieces pieces (ranges @ [(off, off + sz)]) n depth fs))"

text \<open>The loop over the fields, with the end of the payload seen so far and the ranges seen so far.\<close>

fun validate_fields ::
  "capture_field list \<Rightarrow> nat \<Rightarrow> nat \<Rightarrow> (nat \<times> nat) list \<Rightarrow> plan_error + nat" where
  "validate_fields [] n end_pos ranges = Inr end_pos"
| "validate_fields (f # fs) n end_pos ranges =
     (if trim (cf_name f) = [] then Inl (InvalidField ''empty field name'')
      else if cf_size f = 0 then Inl (InvalidField (cf_name f @ '' has zero size''))
      else case checked_add (cf_offset f) (cf_size f) of
        None \<Rightarrow> Inl TooLarge
      | Some field_end \<Rightarrow>
          if overlaps ranges (cf_offset f) field_end
          then Inl (InvalidField (cf_name f @ '' overlaps another field''))
          else try_bind (validate_op (cf_op f) n 0 (cf_size f)) (\<lambda>_.
            validate_fields fs n (max end_pos field_end) (ranges @ [(cf_offset f, field_end)])))"

definition validate_plan :: "capture_plan \<Rightarrow> plan_error + unit" where
  "validate_plan p =
     (if cp_schema_version p \<noteq> CAPTURE_PLAN_SCHEMA_VERSION
        then Inl (UnsupportedSchema (cp_schema_version p))
      else if trim (cp_profile_id p) = [] then Inl MissingProfile
      else if cp_fields p = [] then Inl EmptyFields
      else if length (cp_fields p) > MAX_CAPTURE_FIELDS
        then Inl (TooManyFields (length (cp_fields p)) MAX_CAPTURE_FIELDS)
      else if cp_max_payload_bytes p = 0 \<or> cp_max_payload_bytes p > MAX_CAPTURE_PAYLOAD_BYTES
        then Inl (PayloadLimit (cp_max_payload_bytes p) MAX_CAPTURE_PAYLOAD_BYTES)
      else try_bind (validate_fields (cp_fields p) (length (cp_fields p)) 0 []) (\<lambda>end_pos.
        if end_pos > cp_max_payload_bytes p
          then Inl (PayloadLimit end_pos (cp_max_payload_bytes p))
        else if trim (cp_plan_hash p) = [] then Inl MissingPlanHash
        else Inr ()))"


section \<open>The chosen program counter\<close>

record 'v pc_candidate =
  pc :: u64
  pc_value :: 'v
  available :: nat
  requested :: nat

definition complete :: "'v pc_candidate \<Rightarrow> bool" where
  "complete c \<longleftrightarrow> available c = requested c"

definition replaces :: "'v pc_candidate \<Rightarrow> 'v pc_candidate \<Rightarrow> bool" where
  "replaces c current \<longleftrightarrow>
     available c > available current \<or> (complete c \<and> \<not> complete current)
     \<or> (available c = available current \<and> pc c < pc current)"

fun select_best_from :: "'v pc_candidate option \<Rightarrow> 'v pc_candidate list \<Rightarrow> 'v pc_candidate option" where
  "select_best_from best [] = best"
| "select_best_from best (c # cs) =
     select_best_from
      (case best of None \<Rightarrow> Some c | Some current \<Rightarrow> if replaces c current then Some c else best) cs"

definition select_best :: "'v pc_candidate list \<Rightarrow> 'v pc_candidate option" where
  "select_best cs = select_best_from None cs"


section \<open>What a read operation does\<close>

text \<open>The nesting of an operation, the sizes of all its memory reads and constants, and the payload
  fields it takes an address from.\<close>

fun op_depth :: "read_op \<Rightarrow> nat" and piece_depth :: "capture_piece \<Rightarrow> nat" where
  "op_depth (Indirect base sz) = Suc (op_depth base)"
| "op_depth (MapOp base) = Suc (op_depth base)"
| "op_depth (Header base sz kind) = Suc (op_depth base)"
| "op_depth (HeaderExplicit ptr len cap sz kind) =
     Suc (max (max (op_depth ptr) (op_depth len)) (case cap of None \<Rightarrow> 0 | Some c \<Rightarrow> op_depth c))"
| "op_depth (Piece off sz op) = Suc (op_depth op)"
| "op_depth (Piecewise pieces) = fold max (map piece_depth pieces) 0"
| "op_depth _ = 0"
| "piece_depth (CapturePiece off sz op) = (case op of None \<Rightarrow> 0 | Some op' \<Rightarrow> Suc (op_depth op'))"

fun read_sizes :: "read_op \<Rightarrow> nat list" and piece_read_sizes :: "capture_piece \<Rightarrow> nat list" where
  "read_sizes (Stack off sz sem) = [sz]"
| "read_sizes (Frame reg off sz sem) = [sz]"
| "read_sizes (Blob off sz sem) = [sz]"
| "read_sizes (Cfa off sz sem) = [sz]"
| "read_sizes (UserBytes address_field sz) = [sz]"
| "read_sizes (Constant bytes) = [length bytes]"
| "read_sizes (Indirect base sz) = sz # read_sizes base"
| "read_sizes (MapOp base) = read_sizes base"
| "read_sizes (Header base sz kind) = sz # read_sizes base"
| "read_sizes (HeaderExplicit ptr len cap sz kind) =
     sz # read_sizes ptr @ read_sizes len @ (case cap of None \<Rightarrow> [] | Some c \<Rightarrow> read_sizes c)"
| "read_sizes (Piece off sz op) = read_sizes op"
| "read_sizes (Piecewise pieces) = concat (map piece_read_sizes pieces)"
| "read_sizes (Register reg sem) = []"
| "read_sizes (Unavailable reason) = []"
| "piece_read_sizes (CapturePiece off sz op) = (case op of None \<Rightarrow> [] | Some op' \<Rightarrow> read_sizes op')"

fun address_fields :: "read_op \<Rightarrow> nat list" and piece_address_fields :: "capture_piece \<Rightarrow> nat list" where
  "address_fields (UserBytes address_field sz) = [unat address_field]"
| "address_fields (Indirect base sz) = address_fields base"
| "address_fields (MapOp base) = address_fields base"
| "address_fields (Header base sz kind) = address_fields base"
| "address_fields (HeaderExplicit ptr len cap sz kind) =
     address_fields ptr @ address_fields len @ (case cap of None \<Rightarrow> [] | Some c \<Rightarrow> address_fields c)"
| "address_fields (Piece off sz op) = address_fields op"
| "address_fields (Piecewise pieces) = concat (map piece_address_fields pieces)"
| "address_fields _ = []"
| "piece_address_fields (CapturePiece off sz op) = (case op of None \<Rightarrow> [] | Some op' \<Rightarrow> address_fields op')"

text \<open>The bytes a field or a piece owns, and whether the pieces of an operation stay inside the value
  they belong to without sharing a byte.\<close>

definition byte_span :: "nat \<Rightarrow> nat \<Rightarrow> nat set" where
  "byte_span off sz = {off ..< off + sz}"

definition spans_disjoint :: "(nat \<times> nat) list \<Rightarrow> bool" where
  "spans_disjoint xs \<longleftrightarrow> sorted_wrt (\<lambda>(a, m) (b, n). byte_span a m \<inter> byte_span b n = {}) xs"

definition piece_span :: "capture_piece \<Rightarrow> nat \<times> nat" where
  "piece_span p = (piece_offset p, piece_size p)"

fun pieces_fit :: "nat \<Rightarrow> read_op \<Rightarrow> bool" and piece_fits :: "capture_piece \<Rightarrow> bool" where
  "pieces_fit fs (Piece off sz op) \<longleftrightarrow> 0 < sz \<and> off + sz \<le> fs \<and> pieces_fit sz op"
| "pieces_fit fs (Piecewise pieces) \<longleftrightarrow>
     pieces \<noteq> [] \<and> spans_disjoint (map piece_span pieces)
     \<and> list_all (\<lambda>p. 0 < piece_size p \<and> piece_offset p + piece_size p \<le> fs) pieces
     \<and> list_all piece_fits pieces"
| "pieces_fit fs (Indirect base sz) \<longleftrightarrow> pieces_fit fs base"
| "pieces_fit fs (MapOp base) \<longleftrightarrow> pieces_fit fs base"
| "pieces_fit fs (Header base sz kind) \<longleftrightarrow> pieces_fit sz base"
| "pieces_fit fs (HeaderExplicit ptr len cap sz kind) \<longleftrightarrow>
     pieces_fit 8 ptr \<and> pieces_fit 8 len \<and> (case cap of None \<Rightarrow> True | Some c \<Rightarrow> pieces_fit 8 c)"
| "pieces_fit fs _ \<longleftrightarrow> True"
| "piece_fits (CapturePiece off sz op) \<longleftrightarrow> (case op of None \<Rightarrow> True | Some op' \<Rightarrow> pieces_fit sz op')"

definition op_within_limits :: "nat \<Rightarrow> nat \<Rightarrow> read_op \<Rightarrow> bool" where
  "op_within_limits n fs op \<longleftrightarrow>
     op_depth op \<le> MAX_CAPTURE_OP_DEPTH
     \<and> list_all (\<lambda>k. 0 < k \<and> k \<le> MAX_CAPTURE_OP_BYTES) (read_sizes op)
     \<and> list_all (\<lambda>i. i < n) (address_fields op)
     \<and> pieces_fit fs op"



section \<open>The admission check decides the limits\<close>

lemma check_depth_Inr [simp]: "check_depth d r = Inr u \<longleftrightarrow> d \<le> MAX_CAPTURE_OP_DEPTH \<and> r = Inr u"
  by (auto simp: check_depth_def)

lemma check_read_size_Inr [simp]:
  "check_read_size k = Inr u \<longleftrightarrow> 0 < k \<and> k \<le> MAX_CAPTURE_OP_BYTES"
  by (auto simp: check_read_size_def)

lemma overlaps_snoc [simp]:
  "overlaps (ranges @ [(s, e)]) a b \<longleftrightarrow> overlaps ranges a b \<or> (a < e \<and> s < b)"
  by (auto simp: overlaps_def)

lemma overlaps_Nil [simp]: "\<not> overlaps [] a b"
  by (simp add: overlaps_def)

lemma byte_spans_meet:
  assumes "0 < m" and "0 < n"
  shows "byte_span a m \<inter> byte_span b n = {} \<longleftrightarrow> \<not> (b < a + m \<and> a < b + n)"
proof
  assume disjoint: "byte_span a m \<inter> byte_span b n = {}"
  show "\<not> (b < a + m \<and> a < b + n)"
  proof
    assume "b < a + m \<and> a < b + n"
    then have "max a b \<in> byte_span a m \<inter> byte_span b n" using assms by (auto simp: byte_span_def)
    then show False using disjoint by simp
  qed
qed (auto simp: byte_span_def)

lemma checked_add_None [simp]: "checked_add a b = None \<longleftrightarrow> 2 ^ 64 \<le> a + b"
  by (simp add: checked_add_def)

lemma check_piece_Inr [simp]:
  assumes "fs < 2 ^ 64"
  shows "check_piece ranges off sz fs = Inr u \<longleftrightarrow>
     0 < sz \<and> off + sz \<le> fs \<and> \<not> overlaps ranges off (off + sz)"
  using assms by (auto simp: check_piece_def)

lemma piece_span_simps [simp]: "piece_span (CapturePiece off sz op) = (off, sz)"
  by (simp add: piece_span_def)

lemma spans_disjoint_Cons:
  assumes "0 < m" and "list_all (\<lambda>(b, n). 0 < n) xs"
  shows "spans_disjoint ((a, m) # xs) \<longleftrightarrow>
     list_all (\<lambda>(b, n). \<not> (b < a + m \<and> a < b + n)) xs \<and> spans_disjoint xs"
proof -
  have "byte_span a m \<inter> byte_span b n = {} \<longleftrightarrow> \<not> (b < a + m \<and> a < b + n)" if "(b, n) \<in> set xs" for b n
  proof (rule byte_spans_meet)
    show "0 < n" using assms(2) that by (auto simp: list_all_iff)
  qed (fact assms(1))
  then have "list_all (\<lambda>(b, n). byte_span a m \<inter> byte_span b n = {}) xs \<longleftrightarrow>
      list_all (\<lambda>(b, n). \<not> (b < a + m \<and> a < b + n)) xs"
    unfolding list_all_iff by (intro ball_cong) (simp_all add: split_paired_all)
  then show ?thesis by (simp add: spans_disjoint_def list_all_iff)
qed

lemma fold_max_le: "fold max xs (a :: nat) \<le> b \<longleftrightarrow> a \<le> b \<and> list_all (\<lambda>x. x \<le> b) xs"
  by (induction xs arbitrary: a) auto

lemma add_fold_max_le:
  "d + fold max xs (0 :: nat) \<le> b \<longleftrightarrow> d \<le> b \<and> list_all (\<lambda>x. x = 0 \<or> d + x \<le> b) xs"
proof (cases "d \<le> b")
  case True
  then have "d + fold max xs 0 \<le> b \<longleftrightarrow> fold max xs 0 \<le> b - d" by linarith
  then show ?thesis using True by (auto simp: fold_max_le list_all_iff)
qed auto

definition piece_ok :: "(nat \<times> nat) list \<Rightarrow> nat \<Rightarrow> nat \<Rightarrow> nat \<Rightarrow> capture_piece \<Rightarrow> bool" where
  "piece_ok ranges n d fs p \<longleftrightarrow>
     0 < piece_size p \<and> piece_offset p + piece_size p \<le> fs
     \<and> \<not> overlaps ranges (piece_offset p) (piece_offset p + piece_size p)
     \<and> (piece_depth p = 0 \<or> d + piece_depth p \<le> MAX_CAPTURE_OP_DEPTH)
     \<and> list_all (\<lambda>k. 0 < k \<and> k \<le> MAX_CAPTURE_OP_BYTES) (piece_read_sizes p)
     \<and> list_all (\<lambda>i. i < n) (piece_address_fields p)
     \<and> piece_fits p"

definition pieces_ok :: "capture_piece list \<Rightarrow> (nat \<times> nat) list \<Rightarrow> nat \<Rightarrow> nat \<Rightarrow> nat \<Rightarrow> bool" where
  "pieces_ok ps ranges n d fs \<longleftrightarrow>
     spans_disjoint (map piece_span ps) \<and> list_all (piece_ok ranges n d fs) ps"

lemma pieces_ok_Nil [simp]: "pieces_ok [] ranges n d fs"
  by (simp add: pieces_ok_def spans_disjoint_def)

lemma pieces_ok_Cons:
  "pieces_ok (CapturePiece off sz op # ps) ranges n d fs \<longleftrightarrow>
     piece_ok ranges n d fs (CapturePiece off sz op)
     \<and> pieces_ok ps (ranges @ [(off, off + sz)]) n d fs"
proof (cases "0 < sz \<and> list_all (\<lambda>p. 0 < piece_size p) ps")
  case True
  then have "list_all (\<lambda>(b, n). 0 < n) (map piece_span ps)" by (simp add: list_all_iff piece_span_def)
  with True have dis: "spans_disjoint ((off, sz) # map piece_span ps) \<longleftrightarrow>
      list_all (\<lambda>(b, n). \<not> (b < off + sz \<and> off < b + n)) (map piece_span ps)
      \<and> spans_disjoint (map piece_span ps)"
    by (intro spans_disjoint_Cons) simp_all
  have later: "piece_ok (ranges @ [(off, off + sz)]) n d fs q \<longleftrightarrow> piece_ok ranges n d fs q
      \<and> \<not> (piece_offset q < off + sz \<and> off < piece_offset q + piece_size q)" for q
    by (simp only: piece_ok_def overlaps_snoc) blast
  show ?thesis unfolding pieces_ok_def list.map piece_span_simps dis later
    by (simp only: list_all_iff list.set ball_simps piece_span_def set_map prod.case) blast
next
  case False
  have size_pos: "0 < piece_size p" if "piece_ok rs n d fs p" for rs p
    using that by (simp add: piece_ok_def)
  have "0 < sz \<and> list_all (\<lambda>p. 0 < piece_size p) ps"
    if "piece_ok rs n d fs (CapturePiece off sz op)" "list_all (piece_ok rs' n d fs) ps" for rs rs'
    using size_pos[OF that(1)] that(2) size_pos unfolding list_all_iff by simp blast
  then show ?thesis using False unfolding pieces_ok_def by (simp only: list.pred_inject) blast
qed

lemma validate_op_iff:
  "fs < 2 ^ 64 \<Longrightarrow> validate_op op n d fs = Inr () \<longleftrightarrow>
     d + op_depth op \<le> MAX_CAPTURE_OP_DEPTH
     \<and> list_all (\<lambda>k. 0 < k \<and> k \<le> MAX_CAPTURE_OP_BYTES) (read_sizes op)
     \<and> list_all (\<lambda>i. i < n) (address_fields op) \<and> pieces_fit fs op"
  and validate_pieces_iff:
  "fs < 2 ^ 64 \<Longrightarrow> validate_pieces ps ranges n d fs = Inr () \<longleftrightarrow> pieces_ok ps ranges n d fs"
proof (induction op n d fs and ps ranges n d fs rule: validate_op_validate_pieces.induct)
  case (9 pieces n d fs)
  then show ?case
    by (auto simp: pieces_ok_def piece_ok_def list_all_iff add_fold_max_le)
next
  case (10 base sz kind n d fs)
  then show ?case by (auto simp: try_bind_Inr_iff MAX_CAPTURE_OP_BYTES_def)
next
  case (11 ptr len cap sz kind n d fs)
  then show ?case by (auto simp: try_bind_Inr_iff split: option.splits)
next
  case (16 off sz op ps ranges n d fs)
  have rest: "validate_pieces ps (ranges @ [(off, off + sz)]) n d fs = Inr ()
      \<longleftrightarrow> pieces_ok ps (ranges @ [(off, off + sz)]) n d fs" using 16 by blast
  have this_piece: "check_piece ranges off sz fs = Inr ()
      \<and> (case op of None \<Rightarrow> Inr () | Some op' \<Rightarrow> validate_op op' n (d + 1) sz) = Inr ()
      \<longleftrightarrow> piece_ok ranges n d fs (CapturePiece off sz op)"
  proof (cases op)
    case None
    then show ?thesis using 16(3) by (simp add: piece_ok_def)
  next
    case (Some op')
    then have "sz < 2 ^ 64 \<Longrightarrow> validate_op op' n (d + 1) sz = Inr () \<longleftrightarrow>
        d + 1 + op_depth op' \<le> MAX_CAPTURE_OP_DEPTH
        \<and> list_all (\<lambda>k. 0 < k \<and> k \<le> MAX_CAPTURE_OP_BYTES) (read_sizes op')
        \<and> list_all (\<lambda>i. i < n) (address_fields op') \<and> pieces_fit sz op'" using 16(1) by blast
    then show ?thesis using Some 16(3) by (simp add: piece_ok_def) (meson le_add2 le_trans not_le)
  qed
  show ?case
    unfolding validate_pieces.simps try_bind_unit_iff rest pieces_ok_Cons this_piece[symmetric] by (rule conj_assoc[symmetric])
qed (auto simp: try_bind_Inr_iff)


definition field_span :: "capture_field \<Rightarrow> nat \<times> nat" where
  "field_span f = (cf_offset f, cf_size f)"

definition field_ok :: "nat \<Rightarrow> capture_field \<Rightarrow> bool" where
  "field_ok n f \<longleftrightarrow>
     trim (cf_name f) \<noteq> [] \<and> 0 < cf_size f \<and> cf_offset f + cf_size f < 2 ^ 64
     \<and> op_within_limits n (cf_size f) (cf_op f)"

definition field_free :: "(nat \<times> nat) list \<Rightarrow> capture_field \<Rightarrow> bool" where
  "field_free ranges f \<longleftrightarrow> \<not> overlaps ranges (cf_offset f) (cf_offset f + cf_size f)"

lemma field_free_snoc:
  "field_free (ranges @ [(s, e)]) f \<longleftrightarrow>
     field_free ranges f \<and> \<not> (cf_offset f < e \<and> s < cf_offset f + cf_size f)"
  by (simp add: field_free_def)

lemma validate_fields_step:
  "validate_fields (f # fs) n e ranges = Inr r \<longleftrightarrow>
     field_ok n f \<and> field_free ranges f
     \<and> validate_fields fs n (max e (cf_offset f + cf_size f))
          (ranges @ [(cf_offset f, cf_offset f + cf_size f)]) = Inr r"
  by (auto simp: field_ok_def field_free_def op_within_limits_def checked_add_def try_bind_unit_iff
      validate_op_iff split: option.splits if_splits)

lemma fields_disjoint_Cons:
  assumes "field_ok n f" and "list_all (field_ok n) fs"
  shows "spans_disjoint (map field_span (f # fs)) \<longleftrightarrow>
    list_all (\<lambda>g. \<not> (cf_offset g < cf_offset f + cf_size f \<and> cf_offset f < cf_offset g + cf_size g)) fs
    \<and> spans_disjoint (map field_span fs)"
proof -
  have "list_all (\<lambda>(b, n). 0 < n) (map field_span fs)" and "0 < cf_size f"
    using assms by (auto simp: list_all_iff field_span_def field_ok_def)
  then show ?thesis
    by (simp add: field_span_def[of f] spans_disjoint_Cons) (simp add: list_all_iff field_span_def)
qed

lemma validate_fields_iff:
  "validate_fields fs n e ranges = Inr r \<longleftrightarrow>
     list_all (field_ok n) fs \<and> list_all (field_free ranges) fs
     \<and> spans_disjoint (map field_span fs) \<and> r = fold max (map (\<lambda>f. cf_offset f + cf_size f) fs) e"
proof (induction fs arbitrary: e ranges)
  case (Cons f fs)
  show ?case
  proof (cases "field_ok n f \<and> list_all (field_ok n) fs")
    case True
    have "list_all (field_free (ranges @ [(cf_offset f, cf_offset f + cf_size f)])) fs \<longleftrightarrow>
        list_all (field_free ranges) fs
        \<and> list_all (\<lambda>g. \<not> (cf_offset g < cf_offset f + cf_size f \<and> cf_offset f < cf_offset g + cf_size g)) fs"
      by (auto simp: list_all_iff field_free_snoc)
    then show ?thesis
      using True fields_disjoint_Cons[of n f fs]
      by (simp only: validate_fields_step Cons.IH list.pred_inject) (auto simp: max.commute)
  next
    case False
    then show ?thesis by (simp only: validate_fields_step Cons.IH list.pred_inject) blast
  qed
qed (auto simp: spans_disjoint_def)

definition plan_admissible :: "capture_plan \<Rightarrow> bool" where
  "plan_admissible p \<longleftrightarrow>
     cp_schema_version p = CAPTURE_PLAN_SCHEMA_VERSION
     \<and> trim (cp_profile_id p) \<noteq> [] \<and> trim (cp_plan_hash p) \<noteq> []
     \<and> 0 < length (cp_fields p) \<and> length (cp_fields p) \<le> MAX_CAPTURE_FIELDS
     \<and> 0 < cp_max_payload_bytes p \<and> cp_max_payload_bytes p \<le> MAX_CAPTURE_PAYLOAD_BYTES
     \<and> spans_disjoint (map field_span (cp_fields p))
     \<and> list_all (\<lambda>f. trim (cf_name f) \<noteq> [] \<and> 0 < cf_size f
          \<and> cf_offset f + cf_size f \<le> cp_max_payload_bytes p
          \<and> op_within_limits (length (cp_fields p)) (cf_size f) (cf_op f)) (cp_fields p)"

text \<open>C14: The admission check accepts exactly the plans that are safe to execute: at most 64 named
  fields, no two of which own a common payload byte, all inside a payload of at most 4096 bytes, and
  each computed by a read operation that nests at most 8 deep, reads between 1 and 4096 bytes at every
  memory access, takes addresses from existing fields only, and whose pieces stay disjoint inside the
  value they belong to, at every level of nesting.\<close>

theorem plan_admission_exact: "validate_plan p = Inr () \<longleftrightarrow> plan_admissible p"
proof -
  let ?n = "length (cp_fields p)" and ?m = "cp_max_payload_bytes p"
  let ?ends = "map (\<lambda>f. cf_offset f + cf_size f) (cp_fields p)"
  have free: "list_all (field_free []) (cp_fields p)" by (simp add: list_all_iff field_free_def)
  have inside: "list_all (field_ok ?n) (cp_fields p) \<and> fold max ?ends 0 \<le> ?m \<longleftrightarrow>
      list_all (\<lambda>f. trim (cf_name f) \<noteq> [] \<and> 0 < cf_size f \<and> cf_offset f + cf_size f \<le> ?m
        \<and> op_within_limits ?n (cf_size f) (cf_op f)) (cp_fields p)"
    if "?m \<le> MAX_CAPTURE_PAYLOAD_BYTES"
    using that by (auto simp: fold_max_le list_all_iff field_ok_def MAX_CAPTURE_PAYLOAD_BYTES_def)
  show ?thesis
    using free inside
    by (auto simp: validate_plan_def plan_admissible_def try_bind_Inr_iff validate_fields_iff)
qed



section \<open>The chosen program counter is the best one\<close>

text \<open>When all candidates answer the same request, the choice has the most available values and, among
  those, the lowest program counter.\<close>

definition as_good :: "'v pc_candidate \<Rightarrow> 'v pc_candidate \<Rightarrow> bool" where
  "as_good c d \<longleftrightarrow> available d < available c \<or> (available d = available c \<and> pc c \<le> pc d)"

lemma replaces_iff:
  assumes "requested c = requested d" and "available c \<le> requested c" and "available d \<le> requested d"
  shows "replaces c d \<longleftrightarrow> \<not> as_good d c"
  using assms by (auto simp: replaces_def as_good_def complete_def)

lemma as_good_trans: "as_good a b \<Longrightarrow> as_good b c \<Longrightarrow> as_good a c"
  by (auto simp: as_good_def)

lemma select_best_from_optimal:
  assumes "list_all (\<lambda>c. requested c = r \<and> available c \<le> r) (b # cs)"
  shows "\<exists>best \<in> set (b # cs). select_best_from (Some b) cs = Some best
     \<and> list_all (as_good best) (b # cs)"
  using assms
proof (induction cs arbitrary: b)
  case (Cons c cs)
  show ?case
  proof (cases "replaces c b")
    case True
    then have "as_good c b" using Cons.prems replaces_iff[of c b] by (auto simp: as_good_def)
    moreover obtain best where "best \<in> set (c # cs)" "select_best_from (Some c) cs = Some best"
      "list_all (as_good best) (c # cs)" using Cons by auto
    ultimately show ?thesis using True as_good_trans[of best c b] by auto
  next
    case False
    then have "as_good b c" using Cons.prems replaces_iff[of c b] by auto
    moreover obtain best where "best \<in> set (b # cs)" "select_best_from (Some b) cs = Some best"
      "list_all (as_good best) (b # cs)" using Cons by auto
    ultimately show ?thesis using False as_good_trans[of best b c] by auto
  qed
qed (simp add: as_good_def)

lemma select_best_optimal:
  assumes "list_all (\<lambda>c. requested c = r \<and> available c \<le> r) cs" and "cs \<noteq> []"
  shows "\<exists>best \<in> set cs. select_best cs = Some best \<and> list_all (as_good best) cs"
  using assms select_best_from_optimal[of r "hd cs" "tl cs"] by (cases cs) (auto simp: select_best_def)

end
