(* ===== verification/Ebpf_Decode.thy ===== *)
theory Ebpf_Decode
  imports Ebpf_Plan
begin

text \<open>
  The language-neutral decoder of captured payloads (\<open>decode.rs\<close>, \<open>replay.rs\<close> and the captured values
  of \<open>probe/types.rs\<close>): scalars, opaque blobs, string and slice headers, and enum variants, each read
  from a bounded range of the payload. The offline replay applies the same decoders to a stored record.
\<close>


section \<open>Captured values and field layouts\<close>

datatype captured_value =
    Scalar u64
  | Float f64
  | StringValue "u8 list" nat
  | SliceValue u64 u64
  | ArrayValue string "captured_value list"
  | Bytes "u8 list"
  | StructValue string "(string \<times> captured_value) list"
  | MapValue string string "(captured_value \<times> captured_value) list" string
  | ErrorValue string

datatype scalar_kind = Unsigned | Signed | BoolKind | Float32 | Float64 | AddressKind

record scalar_field_spec =
  sf_name :: string
  sf_offset :: nat
  sf_size :: nat
  sf_kind :: scalar_kind

type_synonym decoded_scalar = "string \<times> captured_value"

record blob_field_spec =
  bf_name :: string
  bf_offset :: nat
  bf_size :: nat

record decoded_blob =
  blob_name :: string
  blob_bytes :: "u8 list"

record enum_variant_spec =
  vs_name :: string
  vs_discriminant :: u64
  vs_payload_offset :: "nat option"
  vs_payload_size :: "nat option"

record decoded_enum =
  de_discriminant :: u64
  de_variant :: string
  de_payload :: "u8 list option"

datatype composite_kind =
    StringLayout nat nat nat
  | SliceLayout nat nat nat nat
  | EnumDiscriminantLayout nat nat

datatype decoded_composite =
    DecodedString u64 u64
  | DecodedSlice u64 u64 u64
  | DecodedDiscriminant u64

datatype scalar_decode_error =
    Envelope envelope_error
  | FieldCount nat nat
  | Length nat nat
  | InvalidFieldSpec string
  | Truncated string nat nat
  | UnsupportedWidth string nat
  | IncompleteEnum string
  | UnknownEnumDiscriminant string u64

definition lift_envelope :: "envelope_error + 'a \<Rightarrow> scalar_decode_error + 'a" where
  "lift_envelope r = map_sum Envelope id r"


section \<open>Scalars\<close>

text \<open>
  \<open>as f64\<close> on an \<open>f32\<close>: the same number in the wider format. A subnormal of the narrow format is a
  normal number of the wide one; a signalling NaN becomes quiet.
\<close>

definition f32_as_f64 :: "f32 \<Rightarrow> f64" where
  "f32_as_f64 x =
     (let sign = unat x div 2 ^ 31; ex = unat x div 2 ^ 23 mod 2 ^ 8; mant = unat x mod 2 ^ 23;
          pack = (\<lambda>ex mant. word_of_nat (sign * 2 ^ 63 + ex * 2 ^ 52 + mant))
      in if ex = 255 then pack 2047 (if mant = 0 then 0 else (mant * 2 ^ 29) OR 2 ^ 51)
         else if ex = 0 \<and> mant = 0 then pack 0 0
         else if ex = 0 then
           (let k = fold (\<lambda>i acc. if 2 ^ i \<le> mant then i else acc) [0 ..< 23] 0
            in pack (k + 874) ((mant - 2 ^ k) * 2 ^ (52 - k)))
         else pack (ex + 896) (mant * 2 ^ 29))"

definition decode_scalar :: "scalar_kind \<Rightarrow> u8 list \<Rightarrow> captured_value option" where
  "decode_scalar kind bytes =
     (case kind of
        Unsigned \<Rightarrow>
          (if length bytes = 1 then Some (Scalar (ucast (bytes ! 0)))
           else if length bytes = 2 then Some (Scalar (ucast (from_le_bytes bytes :: u16)))
           else if length bytes = 4 then Some (Scalar (ucast (from_le_bytes bytes :: u32)))
           else if length bytes = 8 then Some (Scalar (from_le_bytes bytes))
           else None)
      | AddressKind \<Rightarrow>
          (if length bytes = 1 then Some (Scalar (ucast (bytes ! 0)))
           else if length bytes = 2 then Some (Scalar (ucast (from_le_bytes bytes :: u16)))
           else if length bytes = 4 then Some (Scalar (ucast (from_le_bytes bytes :: u32)))
           else if length bytes = 8 then Some (Scalar (from_le_bytes bytes))
           else None)
      | Signed \<Rightarrow>
          (if length bytes = 1 then Some (Scalar (scast (bytes ! 0)))
           else if length bytes = 2 then Some (Scalar (scast (from_le_bytes bytes :: u16)))
           else if length bytes = 4 then Some (Scalar (scast (from_le_bytes bytes :: u32)))
           else if length bytes = 8 then Some (Scalar (from_le_bytes bytes))
           else None)
      | BoolKind \<Rightarrow> (if length bytes = 1 then Some (Scalar (of_bool (bytes ! 0 \<noteq> 0))) else None)
      | Float32 \<Rightarrow> (if length bytes = 4 then Some (Float (f32_as_f64 (from_le_bytes bytes))) else None)
      | Float64 \<Rightarrow> (if length bytes = 8 then Some (Float (from_le_bytes bytes)) else None))"

text \<open>The range of a field in the payload, checked the way every decoder checks it.\<close>

definition field_bytes :: "string \<Rightarrow> nat \<Rightarrow> nat \<Rightarrow> u8 list \<Rightarrow> scalar_decode_error + u8 list" where
  "field_bytes name off sz payload =
     (if trim name = [] \<or> sz = 0 then Inl (InvalidFieldSpec name)
      else case checked_add off sz of
        None \<Rightarrow> Inl (InvalidFieldSpec name)
      | Some end_pos \<Rightarrow>
          if end_pos > length payload then Inl (Truncated name end_pos (length payload))
          else Inr (take sz (drop off payload)))"

definition decode_scalar_field :: "u8 list \<Rightarrow> scalar_field_spec \<Rightarrow> scalar_decode_error + decoded_scalar" where
  "decode_scalar_field payload f =
     try_bind (field_bytes (sf_name f) (sf_offset f) (sf_size f) payload) (\<lambda>bytes.
       case decode_scalar (sf_kind f) bytes of
         None \<Rightarrow> Inl (UnsupportedWidth (sf_name f) (sf_size f))
       | Some v \<Rightarrow> Inr (sf_name f, v))"

text \<open>\<open>map\<close> followed by \<open>collect\<close> into a \<open>Result\<close>: the first error, or all values.\<close>

fun collect_results :: "('a \<Rightarrow> 'e + 'b) \<Rightarrow> 'a list \<Rightarrow> 'e + 'b list" where
  "collect_results f [] = Inr []"
| "collect_results f (x # xs) = try_bind (f x) (\<lambda>y. try_bind (collect_results f xs) (\<lambda>ys. Inr (y # ys)))"

definition check_record :: "event_envelope \<Rightarrow> u8 list \<Rightarrow> nat \<Rightarrow> nat \<Rightarrow> scalar_decode_error + unit" where
  "check_record e payload n max_payload =
     try_bind (lift_envelope (validate_envelope e max_payload)) (\<lambda>_.
       if unat (ev_field_count e) \<noteq> n then Inl (FieldCount (unat (ev_field_count e)) n)
       else if unat (ev_payload_len e) \<noteq> length payload
         then Inl (Length (unat (ev_payload_len e)) (length payload))
       else Inr ())"

definition decode_scalar_record ::
  "event_envelope \<Rightarrow> u8 list \<Rightarrow> scalar_field_spec list \<Rightarrow> nat \<Rightarrow> scalar_decode_error + decoded_scalar list" where
  "decode_scalar_record e payload specs max_payload =
     try_bind (check_record e payload (length specs) max_payload) (\<lambda>_.
       collect_results (decode_scalar_field payload) specs)"

definition decode_blob_record ::
  "event_envelope \<Rightarrow> u8 list \<Rightarrow> blob_field_spec list \<Rightarrow> nat \<Rightarrow> scalar_decode_error + decoded_blob list" where
  "decode_blob_record e payload specs max_payload =
     try_bind (check_record e payload (length specs) max_payload) (\<lambda>_.
       collect_results (\<lambda>f. try_bind (field_bytes (bf_name f) (bf_offset f) (bf_size f) payload) (\<lambda>bytes.
         Inr \<lparr>blob_name = bf_name f, blob_bytes = bytes\<rparr>)) specs)"


section \<open>Composites and enums\<close>

text \<open>A word of 1, 2, 4 or 8 bytes of a blob, widened with zero bytes.\<close>

definition read_word :: "decoded_blob \<Rightarrow> nat \<Rightarrow> nat \<Rightarrow> scalar_decode_error + u64" where
  "read_word blob off sz =
     (if sz \<notin> {1, 2, 4, 8} then Inl (UnsupportedWidth (blob_name blob) sz)
      else case checked_add off sz of
        None \<Rightarrow> Inl (InvalidFieldSpec (blob_name blob))
      | Some end_pos \<Rightarrow>
          if end_pos > length (blob_bytes blob)
          then Inl (Truncated (blob_name blob) end_pos (length (blob_bytes blob)))
          else Inr (from_le_bytes (take sz (drop off (blob_bytes blob)) @ replicate (8 - sz) 0)))"

definition decode_composite :: "decoded_blob \<Rightarrow> composite_kind \<Rightarrow> nat \<Rightarrow> scalar_decode_error + decoded_composite" where
  "decode_composite blob kind max_bytes =
     (if length (blob_bytes blob) > max_bytes
      then Inl (Truncated (blob_name blob) (length (blob_bytes blob)) max_bytes)
      else case kind of
        StringLayout ptr len w \<Rightarrow>
          try_bind (read_word blob ptr w) (\<lambda>p. try_bind (read_word blob len w) (\<lambda>l.
            Inr (DecodedString p (min l (word_of_nat max_bytes)))))
      | SliceLayout ptr len cap w \<Rightarrow>
          try_bind (read_word blob ptr w) (\<lambda>p. try_bind (read_word blob len w) (\<lambda>l.
            try_bind (read_word blob cap w) (\<lambda>c. Inr (DecodedSlice p l c))))
      | EnumDiscriminantLayout off sz \<Rightarrow>
          try_bind (read_word blob off sz) (\<lambda>d. Inr (DecodedDiscriminant d)))"

definition decode_variant_payload ::
  "decoded_blob \<Rightarrow> enum_variant_spec \<Rightarrow> nat \<Rightarrow> scalar_decode_error + u8 list option" where
  "decode_variant_payload blob variant max_bytes =
     (case (vs_payload_offset variant, vs_payload_size variant) of
        (Some off, Some sz) \<Rightarrow>
          if sz > 0 then
            (case checked_add off sz of
               None \<Rightarrow> Inl (InvalidFieldSpec (blob_name blob))
             | Some payload_end \<Rightarrow>
                 if payload_end > length (blob_bytes blob) \<or> payload_end > max_bytes
                 then Inl (Truncated (blob_name blob) payload_end (length (blob_bytes blob)))
                 else Inr (Some (take sz (drop off (blob_bytes blob)))))
          else Inl (IncompleteEnum (blob_name blob))
      | (None, None) \<Rightarrow> Inr None
      | _ \<Rightarrow> Inl (IncompleteEnum (blob_name blob)))"

definition decode_enum_variant ::
  "decoded_blob \<Rightarrow> nat \<Rightarrow> nat \<Rightarrow> enum_variant_spec list \<Rightarrow> nat \<Rightarrow> scalar_decode_error + decoded_enum" where
  "decode_enum_variant blob off sz variants max_bytes =
     (if length (blob_bytes blob) > max_bytes
        then Inl (Truncated (blob_name blob) (length (blob_bytes blob)) max_bytes)
      else if length variants < 2 then Inl (IncompleteEnum (blob_name blob))
      else try_bind (read_word blob off sz) (\<lambda>discriminant.
        case find (\<lambda>v. vs_discriminant v = discriminant) variants of
          None \<Rightarrow> Inl (UnknownEnumDiscriminant (blob_name blob) discriminant)
        | Some variant \<Rightarrow>
            try_bind (decode_variant_payload blob variant max_bytes) (\<lambda>payload.
              Inr \<lparr>de_discriminant = discriminant, de_variant = vs_name variant, de_payload = payload\<rparr>)))"


section \<open>Replay of stored records\<close>

record replay_record =
  rr_envelope :: event_envelope
  rr_payload :: "u8 list"

datatype replay_error =
    ReplayEnvelope envelope_error
  | ReplayLengthMismatch nat nat
  | ReplayDecode scalar_decode_error

definition replay_validate :: "replay_record \<Rightarrow> nat \<Rightarrow> replay_error + u8 list" where
  "replay_validate r max_payload =
     try_bind (map_sum ReplayEnvelope id (validate_envelope (rr_envelope r) max_payload)) (\<lambda>_.
       if unat (ev_payload_len (rr_envelope r)) \<noteq> length (rr_payload r)
       then Inl (ReplayLengthMismatch (unat (ev_payload_len (rr_envelope r))) (length (rr_payload r)))
       else Inr (rr_payload r))"

definition replay_scalars :: "replay_record \<Rightarrow> scalar_field_spec list \<Rightarrow> nat \<Rightarrow> replay_error + decoded_scalar list" where
  "replay_scalars r specs max_payload =
     map_sum ReplayDecode id (decode_scalar_record (rr_envelope r) (rr_payload r) specs max_payload)"

definition replay_blobs :: "replay_record \<Rightarrow> blob_field_spec list \<Rightarrow> nat \<Rightarrow> replay_error + decoded_blob list" where
  "replay_blobs r specs max_payload =
     map_sum ReplayDecode id (decode_blob_record (rr_envelope r) (rr_payload r) specs max_payload)"

definition replay_enum ::
  "replay_record \<Rightarrow> nat \<Rightarrow> nat \<Rightarrow> enum_variant_spec list \<Rightarrow> nat \<Rightarrow> replay_error + decoded_enum" where
  "replay_enum r off sz variants max_payload =
     try_bind (replay_validate r max_payload) (\<lambda>_.
       map_sum ReplayDecode id
         (decode_enum_variant \<lparr>blob_name = ''enum'', blob_bytes = rr_payload r\<rparr> off sz variants max_payload))"



section \<open>What the decoders return\<close>

text \<open>The values of a kind: an integer of \<open>n\<close> bytes, a truth value, or a float.\<close>

fun value_of_kind :: "scalar_kind \<Rightarrow> nat \<Rightarrow> captured_value \<Rightarrow> bool" where
  "value_of_kind Unsigned n (Scalar w) \<longleftrightarrow> unat w < 256 ^ n"
| "value_of_kind AddressKind n (Scalar w) \<longleftrightarrow> unat w < 256 ^ n"
| "value_of_kind Signed n (Scalar w) \<longleftrightarrow> - (2 ^ (8 * n - 1)) \<le> sint w \<and> sint w < 2 ^ (8 * n - 1)"
| "value_of_kind BoolKind n (Scalar w) \<longleftrightarrow> n = 1 \<and> (w = 0 \<or> w = 1)"
| "value_of_kind Float32 n (Float x) \<longleftrightarrow> n = 4"
| "value_of_kind Float64 n (Float x) \<longleftrightarrow> n = 8"
| "value_of_kind _ _ _ \<longleftrightarrow> False"

definition scalar_width :: "scalar_kind \<Rightarrow> nat \<Rightarrow> bool" where
  "scalar_width kind n \<longleftrightarrow>
     n \<in> (case kind of Unsigned \<Rightarrow> {1, 2, 4, 8} | AddressKind \<Rightarrow> {1, 2, 4, 8} | Signed \<Rightarrow> {1, 2, 4, 8}
          | BoolKind \<Rightarrow> {1} | Float32 \<Rightarrow> {4} | Float64 \<Rightarrow> {8})"

lemma decode_scalar_defined: "decode_scalar kind bytes \<noteq> None \<longleftrightarrow> scalar_width kind (length bytes)"
  by (cases kind) (auto simp: decode_scalar_def scalar_width_def)

text \<open>An unsigned scalar is the little-endian number of its bytes.\<close>

lemma single_byte: "length bytes = 1 \<Longrightarrow> unat (bytes ! 0) = le_value bytes"
  by (cases bytes) auto

lemma decode_unsigned:
  assumes "decode_scalar kind bytes = Some v" and "kind = Unsigned \<or> kind = AddressKind"
  obtains w where "v = Scalar w" and "unat w = le_value bytes"
proof -
  have fits: "take_bit 64 (le_value bytes) = le_value bytes" if "length bytes \<le> 8"
    using le_value_less[of bytes] power_increasing[OF that, of "256 :: nat"]
    by (simp add: take_bit_nat_eq_self)
  have "\<exists>w. v = Scalar w \<and> unat w = le_value bytes"
    using assms fits unat_from_le_bytes[of bytes, where ?'a = 16] unat_from_le_bytes[of bytes, where ?'a = 32]
      unat_from_le_bytes[of bytes, where ?'a = 64] single_byte[of bytes]
    by (auto simp: decode_scalar_def unsigned_ucast_eq split: if_splits)
  then show thesis using that by blast
qed

lemma sint_scast:
  assumes "LENGTH('a::len) \<le> LENGTH('b::len)"
  shows "sint (scast (w :: 'a word) :: 'b word) = sint w"
proof -
  have "(2 :: int) ^ (LENGTH('a) - 1) \<le> 2 ^ (LENGTH('b) - 1)" using assms by simp
  then have "- (2 ^ (LENGTH('b) - 1)) \<le> sint w" "sint w < 2 ^ (LENGTH('b) - 1)"
    using sint_greater_eq[of w] sint_less[of w] unfolding One_nat_def by linarith+
  then show ?thesis by (simp add: signed_scast_eq signed_take_bit_int_eq_self)
qed

text \<open>Every decoded scalar is a value of its kind.\<close>

lemma decode_scalar_kind:
  assumes "decode_scalar kind bytes = Some v"
  shows "value_of_kind kind (length bytes) v"
proof (cases "kind = Unsigned \<or> kind = AddressKind")
  case True
  then show ?thesis using decode_unsigned[OF assms] le_value_less[of bytes] by (metis value_of_kind.simps(1,2))
next
  case False
  note ranges = sint_greater_eq sint_less
  show ?thesis
    using False assms ranges[of "bytes ! 0"] ranges[of "from_le_bytes bytes :: u16"]
      ranges[of "from_le_bytes bytes :: u32"] ranges[of "from_le_bytes bytes :: u64"]
    by (cases kind) (auto simp: decode_scalar_def sint_scast split: if_splits)
qed

lemma collect_results_Inr:
  "collect_results f xs = Inr ys \<longleftrightarrow> list_all2 (\<lambda>x y. f x = Inr y) xs ys"
proof (induction xs arbitrary: ys)
  case (Cons x xs)
  then show ?case by (cases ys) (auto simp: try_bind_Inr_iff)
qed auto

lemma field_bytes_Inr:
  "field_bytes name off sz payload = Inr bs \<longleftrightarrow>
     trim name \<noteq> [] \<and> 0 < sz \<and> off + sz < 2 ^ 64 \<and> off + sz \<le> length payload
     \<and> bs = take sz (drop off payload)"
  by (auto simp: field_bytes_def checked_add_def)

lemma decode_scalar_field_Inr:
  "decode_scalar_field payload f = Inr (n, v) \<longleftrightarrow>
     n = sf_name f \<and> trim (sf_name f) \<noteq> [] \<and> 0 < sf_size f \<and> sf_offset f + sf_size f < 2 ^ 64
     \<and> sf_offset f + sf_size f \<le> length payload
     \<and> decode_scalar (sf_kind f) (take (sf_size f) (drop (sf_offset f) payload)) = Some v"
  by (auto simp: decode_scalar_field_def try_bind_Inr_iff field_bytes_Inr split: option.splits)

text \<open>A word of a blob is the little-endian number of its bytes, however narrow it is.\<close>

lemma le_value_zeros [simp]: "le_value (bs @ replicate k 0) = le_value bs"
proof (induction bs)
  case Nil
  show ?case by (induction k) simp_all
qed simp

lemma read_word_value:
  assumes "read_word blob off sz = Inr w"
  shows "unat w = le_value (take sz (drop off (blob_bytes blob)))"
    and "sz \<in> {1, 2, 4, 8}" and "off + sz \<le> length (blob_bytes blob)"
proof -
  have ok: "sz \<in> {1, 2, 4, 8}" "off + sz \<le> length (blob_bytes blob)"
    and w: "w = from_le_bytes (take sz (drop off (blob_bytes blob)) @ replicate (8 - sz) 0)"
    using assms by (auto simp: read_word_def checked_add_def split: if_splits)
  then have "8 * length (take sz (drop off (blob_bytes blob)) @ replicate (8 - sz) 0) \<le> 64" by auto
  then show "unat w = le_value (take sz (drop off (blob_bytes blob)))"
    unfolding w by (simp add: unat_from_le_bytes)
qed (use assms in \<open>auto simp: read_word_def checked_add_def split: if_splits\<close>)

end
