(* ===== verification/Ebpf_Runtime.thy ===== *)
theory Ebpf_Runtime
  imports Ebpf_Decode
begin

text \<open>
  The profile-aware capture runtime (\<open>runtime.rs\<close>) and the choice of the capture backend
  (\<open>policy.rs\<close>). The runtime checks its field layout once, follows the life cycle
  created - prepared - attached - active - draining - detached, and decodes and counts the records of
  its own plan while it is active. An operation returns its result and the runtime after it.
\<close>


section \<open>State\<close>

datatype runtime_state = Created | Prepared | Attached | Active | Draining | Detached | Failed

record runtime_counters =
  records_seen :: u64
  records_decoded :: u64
  decode_drops :: u64
  unavailable_fields :: u64
  kernel_drops :: u64
  transport_drops :: u64

record runtime =
  rt_profile_id :: string
  rt_plan_hash :: string
  rt_fields :: "scalar_field_spec list"
  rt_max_payload :: nat
  rt_state :: runtime_state
  rt_counters :: runtime_counters

datatype runtime_error =
    RtMissingIdentity
  | EmptyPlan
  | InvalidPlan string
  | InvalidPayload nat nat nat
  | InvalidTransition runtime_state runtime_state
  | NotActive runtime_state
  | StalePlan string string string string
  | RtEnvelope envelope_error
  | RtDecode scalar_decode_error
  | CounterInvariant u64 u64
  | ForwardingInvariant u64 u64 u64

definition zero_counters :: runtime_counters where
  "zero_counters =
     \<lparr>records_seen = 0, records_decoded = 0, decode_drops = 0, unavailable_fields = 0,
      kernel_drops = 0, transport_drops = 0\<rparr>"

definition validate_counters :: "runtime_counters \<Rightarrow> runtime_error + unit" where
  "validate_counters c =
     (if records_seen c \<noteq> saturating_add (records_decoded c) (decode_drops c)
      then Inl (CounterInvariant (records_decoded c) (decode_drops c)) else Inr ())"

definition validate_reconciliation :: "runtime_counters \<Rightarrow> u64 \<Rightarrow> u64 \<Rightarrow> runtime_error + unit" where
  "validate_reconciliation c forwarded drops =
     try_bind (validate_counters c) (\<lambda>_.
       if records_decoded c \<noteq> saturating_add forwarded drops
       then Inl (ForwardingInvariant (records_decoded c) forwarded drops) else Inr ())"


section \<open>Construction\<close>

fun check_runtime_fields :: "scalar_field_spec list \<Rightarrow> nat \<Rightarrow> (nat \<times> nat) list \<Rightarrow> runtime_error + unit" where
  "check_runtime_fields [] max_payload ranges = Inr ()"
| "check_runtime_fields (f # fs) max_payload ranges =
     (if trim (sf_name f) = [] \<or> sf_size f = 0
        then Inl (InvalidPlan (''invalid scalar field '' @ quoted (sf_name f) @ '': empty name or size''))
      else case checked_add (sf_offset f) (sf_size f) of
        None \<Rightarrow> Inl (InvalidPlan ''field offset overflow'')
      | Some end_pos \<Rightarrow>
          if end_pos > max_payload
            then Inl (InvalidPlan (''field '' @ quoted (sf_name f) @ '' exceeds payload limit''))
          else if decode_scalar (sf_kind f) (replicate (sf_size f) 0) = None
            then Inl (InvalidPlan (''field '' @ quoted (sf_name f) @ '' has unsupported scalar width ''
                        @ show_nat (sf_size f)))
          else if overlaps ranges (sf_offset f) end_pos
            then Inl (InvalidPlan (''field '' @ quoted (sf_name f) @ '' overlaps another field''))
          else check_runtime_fields fs max_payload (ranges @ [(sf_offset f, end_pos)]))"

definition new_runtime ::
  "string \<Rightarrow> string \<Rightarrow> scalar_field_spec list \<Rightarrow> nat \<Rightarrow> runtime_error + runtime" where
  "new_runtime profile plan specs max_payload =
     (if trim profile = [] \<or> trim plan = [] then Inl RtMissingIdentity
      else if specs = [] then Inl EmptyPlan
      else if length specs > MAX_CAPTURE_FIELDS \<or> max_payload = 0
            \<or> max_payload > MAX_CAPTURE_PAYLOAD_BYTES
        then Inl (InvalidPlan ''capture bounds exceed the negotiated limit'')
      else try_bind (check_runtime_fields specs max_payload []) (\<lambda>_.
        Inr \<lparr>rt_profile_id = profile, rt_plan_hash = plan, rt_fields = specs,
             rt_max_payload = max_payload, rt_state = Created, rt_counters = zero_counters\<rparr>))"


section \<open>Operations\<close>

definition record_kernel_drops :: "u64 \<Rightarrow> runtime \<Rightarrow> runtime" where
  "record_kernel_drops n rt =
     rt\<lparr>rt_counters := (rt_counters rt)\<lparr>kernel_drops := saturating_add (kernel_drops (rt_counters rt)) n\<rparr>\<rparr>"

definition record_transport_drops :: "u64 \<Rightarrow> runtime \<Rightarrow> runtime" where
  "record_transport_drops n rt =
     rt\<lparr>rt_counters := (rt_counters rt)\<lparr>transport_drops := saturating_add (transport_drops (rt_counters rt)) n\<rparr>\<rparr>"

definition record_unavailable_fields :: "u64 \<Rightarrow> runtime \<Rightarrow> runtime" where
  "record_unavailable_fields n rt =
     rt\<lparr>rt_counters := (rt_counters rt)\<lparr>unavailable_fields := saturating_add (unavailable_fields (rt_counters rt)) n\<rparr>\<rparr>"

definition required_len :: "runtime \<Rightarrow> nat" where
  "required_len rt = fold max (map (\<lambda>f. min (sf_offset f + sf_size f) (2 ^ 64 - 1)) (rt_fields rt)) 0"

definition encode_payload :: "runtime \<Rightarrow> u8 list \<Rightarrow> bool \<Rightarrow> runtime_error + u8 list" where
  "encode_payload rt payload partial =
     (if length payload < required_len rt \<or> length payload > rt_max_payload rt
        then Inl (InvalidPayload (length payload) (required_len rt) (rt_max_payload rt))
      else let e = (new_envelope (rt_profile_id rt) (rt_plan_hash rt)
                      (word_of_nat (length (rt_fields rt))) (length payload))\<lparr>ev_partial := partial\<rparr>
           in map_sum RtEnvelope id (encode_record e payload (rt_max_payload rt)))"

definition transition :: "runtime_state \<Rightarrow> runtime_state \<Rightarrow> runtime \<Rightarrow> (runtime_error + unit) \<times> runtime" where
  "transition source target rt =
     (if rt_state rt \<noteq> source then (Inl (InvalidTransition (rt_state rt) target), rt)
      else (Inr (), rt\<lparr>rt_state := target\<rparr>))"

definition prepare :: "runtime \<Rightarrow> (runtime_error + unit) \<times> runtime" where
  "prepare rt = transition Created Prepared rt"

definition attach :: "runtime \<Rightarrow> (runtime_error + unit) \<times> runtime" where
  "attach rt = transition Prepared Attached rt"

definition activate :: "runtime \<Rightarrow> (runtime_error + unit) \<times> runtime" where
  "activate rt = transition Attached Active rt"

definition drain :: "runtime \<Rightarrow> (runtime_error + unit) \<times> runtime" where
  "drain rt = transition Active Draining rt"

definition detach :: "runtime \<Rightarrow> (runtime_error + unit) \<times> runtime" where
  "detach rt =
     (if rt_state rt \<in> {Attached, Active, Draining} then (Inr (), rt\<lparr>rt_state := Detached\<rparr>)
      else if rt_state rt = Detached then (Inr (), rt)
      else (Inl (InvalidTransition (rt_state rt) Detached), rt))"

definition fail :: "runtime \<Rightarrow> runtime" where
  "fail rt = rt\<lparr>rt_state := Failed\<rparr>"

definition runtime_decode_record :: "runtime \<Rightarrow> u8 list \<Rightarrow> runtime_error + decoded_scalar list" where
  "runtime_decode_record rt record =
     try_bind (map_sum RtEnvelope id (decode_record record (rt_max_payload rt))) (\<lambda>(e, payload).
       if ev_profile_id e \<noteq> rt_profile_id rt \<or> ev_plan_hash e \<noteq> rt_plan_hash rt
         then Inl (StalePlan (rt_profile_id rt) (ev_profile_id e) (rt_plan_hash rt) (ev_plan_hash e))
       else map_sum RtDecode id (decode_scalar_record e payload (rt_fields rt) (rt_max_payload rt)))"

definition current_partial :: "runtime \<Rightarrow> u8 list \<Rightarrow> envelope_error + bool" where
  "current_partial rt record = map_sum id (\<lambda>(e, _). ev_partial e) (decode_record record (rt_max_payload rt))"

definition count_decoded :: "bool \<Rightarrow> runtime_counters \<Rightarrow> runtime_counters" where
  "count_decoded partial c =
     (let c = c\<lparr>records_decoded := records_decoded c + 1\<rparr>
      in if partial then c\<lparr>unavailable_fields := unavailable_fields c + 1\<rparr> else c)"

definition ingest :: "u8 list \<Rightarrow> runtime \<Rightarrow> (runtime_error + decoded_scalar list) \<times> runtime" where
  "ingest record rt =
     (if rt_state rt \<noteq> Active then (Inl (NotActive (rt_state rt)), rt)
      else let c = (rt_counters rt)\<lparr>records_seen := saturating_add (records_seen (rt_counters rt)) 1\<rparr>
           in case runtime_decode_record rt record of
                Inr vals \<Rightarrow>
                  (Inr vals, rt\<lparr>rt_counters :=
                     count_decoded (case current_partial rt record of Inr b \<Rightarrow> b | Inl _ \<Rightarrow> False) c\<rparr>)
              | Inl err \<Rightarrow> (Inl err, rt\<lparr>rt_counters := c\<lparr>decode_drops := decode_drops c + 1\<rparr>\<rparr>))"


section \<open>Backend selection\<close>

datatype capture_backend = Auto | Dap | Ebpf

datatype profile_id = GoProfile | RustProfile

record backend_decision =
  bd_requested :: capture_backend
  bd_selected :: capture_backend
  bd_profile :: "profile_id option"
  bd_profile_name :: string
  bd_reason :: string

datatype preflight_error =
    UnknownBackend string
  | UnsupportedProfile string
  | UnsupportedPlatform
  | UnsupportedAbi string
  | MissingDebugInfo string

definition parse_backend :: "string \<Rightarrow> preflight_error + capture_backend" where
  "parse_backend value =
     (let v = map to_ascii_lowercase_char (trim value)
      in if v = [] \<or> v = ''auto'' then Inr Auto
         else if v = ''dap'' then Inr Dap
         else if v = ''ebpf'' then Inr Ebpf
         else Inl (UnknownBackend v))"

definition profile_str :: "profile_id \<Rightarrow> string" where
  "profile_str p = (case p of GoProfile \<Rightarrow> ''go'' | RustProfile \<Rightarrow> ''rust'')"

definition decision :: "capture_backend \<Rightarrow> capture_backend \<Rightarrow> profile_id \<Rightarrow> string \<Rightarrow> backend_decision" where
  "decision req sel profile reason =
     \<lparr>bd_requested = req, bd_selected = sel, bd_profile = Some profile,
      bd_profile_name = profile_str profile, bd_reason = reason\<rparr>"

definition resolve_backend_with_rust_auto ::
  "capture_backend \<Rightarrow> profile_id \<Rightarrow> bool \<Rightarrow> bool \<Rightarrow> bool \<Rightarrow> preflight_error + backend_decision" where
  "resolve_backend_with_rust_auto req profile ebpf_available debug_info_available rust_auto_enabled =
     (if req = Dap then Inr (decision req Dap profile ''explicit dap'')
      else if profile = RustProfile \<and> req = Auto \<and> \<not> rust_auto_enabled
        then Inr (decision req Dap profile ''rust eBPF auto-selection release gate is disabled'')
      else if \<not> ebpf_available then
        (if req = Auto then Inr (decision req Dap profile ''eBPF unavailable; auto fell back to DAP'')
         else Inl UnsupportedPlatform)
      else if \<not> debug_info_available then
        (if req = Auto
         then Inr (decision req Dap profile ''usable variable DWARF unavailable; auto fell back to DAP'')
         else Inl (MissingDebugInfo ''usable variable DWARF is required''))
      else Inr (decision req Ebpf profile ''eBPF capability preflight passed''))"

definition resolve_backend ::
  "capture_backend \<Rightarrow> profile_id \<Rightarrow> bool \<Rightarrow> bool \<Rightarrow> preflight_error + backend_decision" where
  "resolve_backend req profile ebpf_available debug_info_available =
     resolve_backend_with_rust_auto req profile ebpf_available debug_info_available False"



section \<open>The checked layout\<close>

definition spec_ok :: "nat \<Rightarrow> scalar_field_spec \<Rightarrow> bool" where
  "spec_ok max_payload f \<longleftrightarrow>
     trim (sf_name f) \<noteq> [] \<and> 0 < sf_size f \<and> sf_offset f + sf_size f \<le> max_payload
     \<and> scalar_width (sf_kind f) (sf_size f)"

definition runtime_ok :: "runtime \<Rightarrow> bool" where
  "runtime_ok rt \<longleftrightarrow>
     0 < length (rt_fields rt) \<and> length (rt_fields rt) \<le> MAX_CAPTURE_FIELDS
     \<and> rt_max_payload rt \<le> MAX_CAPTURE_PAYLOAD_BYTES
     \<and> list_all (spec_ok (rt_max_payload rt)) (rt_fields rt)
     \<and> spans_disjoint (map (\<lambda>f. (sf_offset f, sf_size f)) (rt_fields rt))"

lemma check_runtime_fields_ok:
  assumes "check_runtime_fields fs m ranges = Inr ()"
  shows "list_all (spec_ok m) fs"
    and "list_all (\<lambda>f. \<not> overlaps ranges (sf_offset f) (sf_offset f + sf_size f)) fs"
    and "spans_disjoint (map (\<lambda>f. (sf_offset f, sf_size f)) fs)"
proof -
  have "list_all (spec_ok m) fs
    \<and> list_all (\<lambda>f. \<not> overlaps ranges (sf_offset f) (sf_offset f + sf_size f)) fs
    \<and> spans_disjoint (map (\<lambda>f. (sf_offset f, sf_size f)) fs)"
    using assms
  proof (induction fs m ranges rule: check_runtime_fields.induct)
    case (2 f fs m ranges)
    let ?ranges = "ranges @ [(sf_offset f, sf_offset f + sf_size f)]"
    have f: "spec_ok m f" "\<not> overlaps ranges (sf_offset f) (sf_offset f + sf_size f)"
      and rest: "check_runtime_fields fs m ?ranges = Inr ()"
      using 2(2) decode_scalar_defined[of "sf_kind f" "replicate (sf_size f) 0"]
      by (auto simp: spec_ok_def checked_add_def split: if_splits)
    have IH: "list_all (spec_ok m) fs"
      "list_all (\<lambda>g. \<not> overlaps ?ranges (sf_offset g) (sf_offset g + sf_size g)) fs"
      "spans_disjoint (map (\<lambda>f. (sf_offset f, sf_size f)) fs)"
      using 2(1)[OF _ _ _ _ _ rest] 2(2) by (auto split: if_splits option.splits)
    have pos: "0 < sf_size f" "list_all (\<lambda>(b, n). 0 < n) (map (\<lambda>f. (sf_offset f, sf_size f)) fs)"
      using f IH(1) by (auto simp: spec_ok_def list_all_iff)
    have "spans_disjoint (map (\<lambda>f. (sf_offset f, sf_size f)) (f # fs))"
      using IH(2,3) by (simp add: spans_disjoint_Cons[OF pos]) (auto simp: list_all_iff)
    then show ?case using f IH by (auto simp: list_all_iff)
  qed (simp add: spans_disjoint_def)
  then show "list_all (spec_ok m) fs"
    and "list_all (\<lambda>f. \<not> overlaps ranges (sf_offset f) (sf_offset f + sf_size f)) fs"
    and "spans_disjoint (map (\<lambda>f. (sf_offset f, sf_size f)) fs)" by blast+
qed

lemma new_runtime_ok:
  assumes "new_runtime profile plan specs m = Inr rt"
  shows "runtime_ok rt" and "rt_fields rt = specs" and "rt_state rt = Created"
    and "rt_counters rt = zero_counters" and "rt_max_payload rt = m"
    and "rt_profile_id rt = profile" and "rt_plan_hash rt = plan"
  using assms check_runtime_fields_ok(1,3)[of specs m "[]"]
  by (auto simp: new_runtime_def runtime_ok_def try_bind_unit_iff split: if_splits)


section \<open>The life cycle\<close>

inductive runtime_step :: "runtime \<Rightarrow> runtime \<Rightarrow> bool" where
  step_prepare: "runtime_step rt (snd (prepare rt))"
| step_attach: "runtime_step rt (snd (attach rt))"
| step_activate: "runtime_step rt (snd (activate rt))"
| step_drain: "runtime_step rt (snd (drain rt))"
| step_detach: "runtime_step rt (snd (detach rt))"
| step_fail: "runtime_step rt (fail rt)"
| step_ingest: "runtime_step rt (snd (ingest raw rt))"
| step_kernel_drops: "runtime_step rt (record_kernel_drops n rt)"
| step_transport_drops: "runtime_step rt (record_transport_drops n rt)"
| step_unavailable: "runtime_step rt (record_unavailable_fields n rt)"

lemmas runtime_ops = prepare_def attach_def activate_def drain_def detach_def fail_def transition_def
  record_kernel_drops_def record_transport_drops_def record_unavailable_fields_def

text \<open>The state and the accounting of a record, before and after.\<close>

lemma ingest_cases:
  obtains (inactive) "rt_state rt \<noteq> Active" "ingest raw rt = (Inl (NotActive (rt_state rt)), rt)"
  | (decoded) vals c where "rt_state rt = Active" "runtime_decode_record rt raw = Inr vals"
      "ingest raw rt = (Inr vals, rt\<lparr>rt_counters := c\<rparr>)"
      "records_seen c = saturating_add (records_seen (rt_counters rt)) 1"
      "records_decoded c = records_decoded (rt_counters rt) + 1"
      "decode_drops c = decode_drops (rt_counters rt)"
  | (dropped) err c where "rt_state rt = Active" "runtime_decode_record rt raw = Inl err"
      "ingest raw rt = (Inl err, rt\<lparr>rt_counters := c\<rparr>)"
      "records_seen c = saturating_add (records_seen (rt_counters rt)) 1"
      "records_decoded c = records_decoded (rt_counters rt)"
      "decode_drops c = decode_drops (rt_counters rt) + 1"
proof (cases "rt_state rt = Active")
  case False
  then show thesis using inactive by (simp add: ingest_def)
next
  case True
  show thesis
  proof (cases "runtime_decode_record rt raw")
    case (Inl err)
    then show thesis using True dropped by (simp add: ingest_def Let_def)
  next
    case (Inr vals)
    then show thesis using True decoded by (simp add: ingest_def Let_def count_decoded_def)
  qed
qed

definition same_config :: "runtime \<Rightarrow> runtime \<Rightarrow> bool" where
  "same_config rt rt' \<longleftrightarrow>
     rt_profile_id rt' = rt_profile_id rt \<and> rt_plan_hash rt' = rt_plan_hash rt
     \<and> rt_fields rt' = rt_fields rt \<and> rt_max_payload rt' = rt_max_payload rt"

lemma step_config: "runtime_step rt rt' \<Longrightarrow> same_config rt rt'"
proof (induction rule: runtime_step.induct)
  case (step_ingest rt raw)
  show ?case by (rule ingest_cases[of rt raw]) (simp_all add: same_config_def)
qed (auto simp: same_config_def runtime_ops)

lemma reaches_config: "runtime_step\<^sup>*\<^sup>* rt rt' \<Longrightarrow> same_config rt rt'"
  by (induction rule: rtranclp_induct) (auto simp: same_config_def dest: step_config)

lemma same_config_ok: "same_config rt rt' \<Longrightarrow> runtime_ok rt' \<longleftrightarrow> runtime_ok rt"
  by (simp add: same_config_def runtime_ok_def)



section \<open>Accounting\<close>

text \<open>After \<open>n\<close> steps the three record counters have counted at most \<open>n\<close> and add up.\<close>

definition counted :: "nat \<Rightarrow> runtime_counters \<Rightarrow> bool" where
  "counted n c \<longleftrightarrow>
     unat (records_seen c) \<le> n
     \<and> unat (records_seen c) = unat (records_decoded c) + unat (decode_drops c)"

lemma unat_add_one: "unat (w :: u64) + 1 < 2 ^ 64 \<Longrightarrow> unat (w + 1) = unat w + 1"
  by (simp add: unat_word_ariths)

lemma counted_step:
  assumes "runtime_step rt rt'" and "counted n (rt_counters rt)" and "n + 1 < 2 ^ 64"
  shows "counted (n + 1) (rt_counters rt')"
  using assms(1)
proof (cases rule: runtime_step.cases)
  case (step_ingest raw)
  have "unat (saturating_add (records_seen (rt_counters rt)) 1) = unat (records_seen (rt_counters rt)) + 1"
    using assms(2,3) by (simp add: unat_saturating_add counted_def)
  moreover have "unat (records_decoded (rt_counters rt) + 1) = unat (records_decoded (rt_counters rt)) + 1"
    "unat (decode_drops (rt_counters rt) + 1) = unat (decode_drops (rt_counters rt)) + 1"
    using assms(2,3) unat_add_one[of "records_decoded (rt_counters rt)"]
      unat_add_one[of "decode_drops (rt_counters rt)"] by (simp_all add: counted_def)
  ultimately show ?thesis
    using assms(2) unfolding step_ingest
    by (cases rule: ingest_cases[of rt raw]) (simp_all add: counted_def)
qed (use assms(2) in \<open>simp_all add: counted_def runtime_ops\<close>)

lemma counted_steps:
  assumes "(runtime_step ^^ n) rt rt'" and "rt_counters rt = zero_counters" and "n < 2 ^ 64"
  shows "counted n (rt_counters rt')"
  using assms(1,3)
proof (induction n arbitrary: rt')
  case 0
  then show ?case using assms(2) by (simp add: counted_def zero_counters_def)
next
  case (Suc n)
  then obtain mid where "(runtime_step ^^ n) rt mid" and "runtime_step mid rt'" by auto
  then show ?case using Suc counted_step[of mid rt' n] by simp
qed

lemma counted_validates: "counted n c \<Longrightarrow> validate_counters c = Inr ()"
proof -
  assume counted: "counted n c"
  have "unat (records_decoded c) + unat (decode_drops c) < 2 ^ 64"
    using counted unsigned_less[of "records_seen c", where ?'a = nat] by (simp add: counted_def)
  then have "unat (saturating_add (records_decoded c) (decode_drops c)) = unat (records_seen c)"
    using counted by (simp add: unat_saturating_add counted_def)
  then show ?thesis by (simp add: validate_counters_def word_unat_eq_iff)
qed

text \<open>C28: Every record is accounted for. Whatever operations a capture runtime executes, and in whatever
  order, as long as they are fewer than 2 to the 64 the number of records seen is exactly the number decoded
  plus the number dropped, the runtime's own counter check passes, and it reconciles with the forwarder
  exactly when the forwarded and the lost events add up to the decoded records.\<close>

theorem runtime_accounting:
  assumes "new_runtime profile plan specs m = Inr rt0" and "(runtime_step ^^ n) rt0 rt" and "n < 2 ^ 64"
  shows "unat (records_seen (rt_counters rt))
           = unat (records_decoded (rt_counters rt)) + unat (decode_drops (rt_counters rt))
     \<and> validate_counters (rt_counters rt) = Inr ()
     \<and> (validate_reconciliation (rt_counters rt) forwarded lost = Inr ()
          \<longleftrightarrow> records_decoded (rt_counters rt) = saturating_add forwarded lost)"
proof -
  have counted: "counted n (rt_counters rt)"
    using counted_steps[OF assms(2) new_runtime_ok(4)[OF assms(1)] assms(3)] .
  then show ?thesis
    using counted_validates[OF counted] by (simp add: counted_def validate_reconciliation_def)
qed

definition sample_specs :: "scalar_field_spec list" where
  "sample_specs =
     [\<lparr>sf_name = ''amount'', sf_offset = 0, sf_size = 2, sf_kind = Signed\<rparr>,
      \<lparr>sf_name = ''paid'', sf_offset = 2, sf_size = 1, sf_kind = BoolKind\<rparr>]"

definition sample_runtime :: "runtime_state \<Rightarrow> runtime" where
  "sample_runtime s =
     \<lparr>rt_profile_id = ''rust'', rt_plan_hash = ''p1'', rt_fields = sample_specs, rt_max_payload = 16,
      rt_state = s, rt_counters = zero_counters\<rparr>"

lemma sample_texts: "trim ''amount'' = ''amount''" "trim ''paid'' = ''paid''" "trim ''rust'' = ''rust''"
  "trim ''p1'' = ''p1''" "valid_utf8 ''p1''"
  by code_simp+

lemma sample_runtime_new: "new_runtime ''rust'' ''p1'' sample_specs 16 = Inr (sample_runtime Created)"
  by (simp add: new_runtime_def sample_specs_def sample_runtime_def sample_texts decode_scalar_def
      checked_add_def overlaps_def MAX_CAPTURE_FIELDS_def MAX_CAPTURE_PAYLOAD_BYTES_def)

lemma sample_runtime_active: "(runtime_step ^^ 3) (sample_runtime Created) (sample_runtime Active)"
proof -
  have "runtime_step (sample_runtime Created) (sample_runtime Prepared)"
    using step_prepare[of "sample_runtime Created"] by (simp add: runtime_ops sample_runtime_def)
  moreover have "runtime_step (sample_runtime Prepared) (sample_runtime Attached)"
    using step_attach[of "sample_runtime Prepared"] by (simp add: runtime_ops sample_runtime_def)
  moreover have "runtime_step (sample_runtime Attached) (sample_runtime Active)"
    using step_activate[of "sample_runtime Attached"] by (simp add: runtime_ops sample_runtime_def)
  ultimately show ?thesis by (auto simp: eval_nat_numeral)
qed

theorem runtime_accounting_witness:
  "unat (records_seen (rt_counters (snd (ingest [] (sample_runtime Active))))) = 1
   \<and> validate_counters (rt_counters (snd (ingest [] (sample_runtime Active)))) = Inr ()"
proof -
  have "(runtime_step ^^ 4) (sample_runtime Created) (snd (ingest [] (sample_runtime Active)))"
    using sample_runtime_active step_ingest[of "sample_runtime Active" "[]"] by (auto simp: eval_nat_numeral)
  from runtime_accounting[OF sample_runtime_new this, of 0 0]
  show ?thesis
    by (simp add: ingest_def runtime_decode_record_def decode_record_def HEADER_def sample_runtime_def
        zero_counters_def Let_def)
qed


section \<open>The end of the life cycle\<close>

definition rank :: "runtime_state \<Rightarrow> nat" where
  "rank s = (case s of Created \<Rightarrow> 0 | Prepared \<Rightarrow> 1 | Attached \<Rightarrow> 2 | Active \<Rightarrow> 3 | Draining \<Rightarrow> 4
             | Detached \<Rightarrow> 5 | Failed \<Rightarrow> 6)"

lemma step_rank: "runtime_step rt rt' \<Longrightarrow> rank (rt_state rt) \<le> rank (rt_state rt')"
proof (induction rule: runtime_step.induct)
  case (step_ingest rt raw)
  show ?case by (cases rule: ingest_cases[of rt raw]) simp_all
qed (auto simp: runtime_ops rank_def split: runtime_state.splits)

lemma step_not_active:
  assumes "runtime_step rt rt'" and "rt_state rt \<noteq> Active"
  shows "records_seen (rt_counters rt') = records_seen (rt_counters rt)
    \<and> records_decoded (rt_counters rt') = records_decoded (rt_counters rt)
    \<and> decode_drops (rt_counters rt') = decode_drops (rt_counters rt)"
  using assms
proof (induction rule: runtime_step.induct)
  case (step_ingest rt raw)
  then show ?case by (cases rule: ingest_cases[of rt raw]) simp_all
qed (simp_all add: runtime_ops)

text \<open>C29: The life cycle only moves forward. Once a runtime drains, is detached or has failed, no sequence
  of operations makes it active again: every later record is refused, and the counters of seen, decoded and
  dropped records stay what they were.\<close>

theorem runtime_never_reactivates:
  assumes "rt_state rt \<in> {Draining, Detached, Failed}" and "runtime_step\<^sup>*\<^sup>* rt rt'"
  shows "rt_state rt' \<in> {Draining, Detached, Failed}
     \<and> ingest raw rt' = (Inl (NotActive (rt_state rt')), rt')
     \<and> records_seen (rt_counters rt') = records_seen (rt_counters rt)
     \<and> records_decoded (rt_counters rt') = records_decoded (rt_counters rt)
     \<and> decode_drops (rt_counters rt') = decode_drops (rt_counters rt)"
proof -
  have past: "s \<in> {Draining, Detached, Failed} \<longleftrightarrow> 4 \<le> rank s" for s
    by (cases s) (simp_all add: rank_def)
  have "4 \<le> rank (rt_state rt')
     \<and> records_seen (rt_counters rt') = records_seen (rt_counters rt)
     \<and> records_decoded (rt_counters rt') = records_decoded (rt_counters rt)
     \<and> decode_drops (rt_counters rt') = decode_drops (rt_counters rt)"
    using assms(2)
  proof (induction rule: rtranclp_induct)
    case (step mid last)
    then have "rt_state mid \<noteq> Active" by (auto simp: rank_def)
    then show ?case using step step_rank[OF step(2)] step_not_active[OF step(2)] by simp
  qed (use assms(1) past in simp)
  moreover from this have "rt_state rt' \<noteq> Active" by (auto simp: rank_def)
  ultimately show ?thesis using past by (simp add: ingest_def)
qed


theorem runtime_never_reactivates_witness:
  "ingest [1] (sample_runtime Failed) = (Inl (NotActive Failed), sample_runtime Failed)"
proof -
  have "runtime_step\<^sup>*\<^sup>* (sample_runtime Detached) (sample_runtime Failed)"
    using step_fail[of "sample_runtime Detached"] by (auto simp: fail_def sample_runtime_def)
  from runtime_never_reactivates[OF _ this, of "[1]"]
  show ?thesis by (simp add: sample_runtime_def)
qed


section \<open>From the probe to the values\<close>

lemma runtime_decode_Inr:
  "runtime_decode_record rt raw = Inr vals \<longleftrightarrow>
     (\<exists>e payload. decode_record raw (rt_max_payload rt) = Inr (e, payload)
        \<and> ev_profile_id e = rt_profile_id rt \<and> ev_plan_hash e = rt_plan_hash rt
        \<and> unat (ev_field_count e) = length (rt_fields rt)
        \<and> list_all2 (\<lambda>f v. decode_scalar_field payload f = Inr v) (rt_fields rt) vals)"
proof -
  have fits: "validate_envelope e (rt_max_payload rt) = Inr () \<and> unat (ev_payload_len e) = length payload"
    if "decode_record raw (rt_max_payload rt) = Inr (e, payload)" for e payload
    using encode_of_decode[OF that] by (simp add: encode_record_Inr)
  show ?thesis
    by (cases "decode_record raw (rt_max_payload rt)")
       (auto simp: runtime_decode_record_def decode_scalar_record_def check_record_def lift_envelope_def
         try_bind_Inr_iff collect_results_Inr dest!: fits split: if_splits sum.splits)
qed

text \<open>C13: Type soundness of a capture runtime. Whatever a runtime has done since its construction, the
  values it returns for a record are the fields of its layout, in order and under their names, and each
  value is of its field's kind and width: an unsigned or address field of n bytes gives an integer below
  256 to the n, a signed one lies in its two's-complement range, a boolean is 0 or 1, and a float field
  gives a float.\<close>

theorem runtime_type_sound:
  assumes "new_runtime profile plan specs m = Inr rt0" and "runtime_step\<^sup>*\<^sup>* rt0 rt"
    and "fst (ingest raw rt) = Inr vals"
  shows "list_all2 (\<lambda>f (name, v). name = sf_name f \<and> value_of_kind (sf_kind f) (sf_size f) v) specs vals"
proof -
  have specs: "rt_fields rt = specs"
    using reaches_config[OF assms(2)] new_runtime_ok(2)[OF assms(1)] by (simp add: same_config_def)
  have "runtime_decode_record rt raw = Inr vals"
    using assms(3) by (cases rule: ingest_cases[of rt raw]) simp_all
  then obtain payload where decoded: "list_all2 (\<lambda>f v. decode_scalar_field payload f = Inr v) specs vals"
    using specs unfolding runtime_decode_Inr by blast
  have "name = sf_name f \<and> value_of_kind (sf_kind f) (sf_size f) v"
    if "decode_scalar_field payload f = Inr (name, v)" for f name v
    using that decode_scalar_kind[of "sf_kind f" "take (sf_size f) (drop (sf_offset f) payload)" v]
    unfolding decode_scalar_field_Inr by (auto simp: min_absorb2)
  then show ?thesis using decoded by (auto elim!: list_all2_mono)
qed

definition sample_payload :: "u8 list" where
  "sample_payload = [0xFE, 0xFF, 1]"

definition sample_record :: "u8 list" where
  "sample_record =
     [0x44, 0x52, 0x58, 0x31, 1, 0, 0, 0, 4, 0, 2, 0, 2, 0, 3, 0, 0, 0,
      0x72, 0x75, 0x73, 0x74, 0x70, 0x31, 0xFE, 0xFF, 1]"

lemma sample_lengths: "length sample_payload = 3" "length ''rust'' = 4" "length ''p1'' = 2"
  "length sample_specs = 2" "required_len (sample_runtime Active) = 3"
  by (simp_all add: sample_payload_def sample_specs_def required_len_def sample_runtime_def)

lemma sample_encoded: "encode_payload (sample_runtime Active) sample_payload False = Inr sample_record"
proof -
  have "as_bytes ''DRX1'' @ [1, 0] @ [0, 0] @ [4, 0] @ [2, 0] @ [2, 0] @ [3, 0, 0, 0] @ as_bytes ''rust'' @ as_bytes ''p1''
      @ sample_payload = sample_record"
    by (simp add: sample_payload_def sample_record_def as_bytes_def byte_of_def)
  moreover have "validate_envelope (new_envelope ''rust'' ''p1'' 2 3) 16 = Inr ()"
    by (simp add: new_envelope_def validate_envelope_def validate_with_capabilities_def
        negotiate_def default_capabilities_def ebpf_defs)
  ultimately show ?thesis
    by (simp add: encode_payload_def sample_runtime_def sample_lengths[unfolded sample_runtime_def]
        Let_def encode_record_Inr record_bytes_def)
      (simp add: new_envelope_def DRX1_def flags_of_def to_le_bytes_def le_bytes_numeral
        CAPTURE_PLAN_SCHEMA_VERSION_def)
qed

definition field_value :: "u8 list \<Rightarrow> scalar_field_spec \<Rightarrow> decoded_scalar" where
  "field_value payload f =
     (sf_name f, the (decode_scalar (sf_kind f) (take (sf_size f) (drop (sf_offset f) payload))))"

lemma decode_checked_field:
  assumes "spec_ok m f" and "sf_offset f + sf_size f \<le> length payload" and "length payload < 2 ^ 64"
  shows "decode_scalar_field payload f = Inr (field_value payload f)"
  using assms decode_scalar_defined[of "sf_kind f" "take (sf_size f) (drop (sf_offset f) payload)"]
  by (auto simp: field_value_def decode_scalar_field_Inr spec_ok_def)

lemma required_len_covers:
  assumes "runtime_ok rt" and "f \<in> set (rt_fields rt)" and "required_len rt \<le> n"
  shows "sf_offset f + sf_size f \<le> n"
proof -
  have "sf_offset f + sf_size f \<le> 4096"
    using assms(1,2) by (auto simp: runtime_ok_def spec_ok_def list_all_iff MAX_CAPTURE_PAYLOAD_BYTES_def)
  moreover have "min (sf_offset f + sf_size f) (2 ^ 64 - 1) \<le> n"
    using assms(2,3) by (auto simp: required_len_def fold_max_le list_all_iff)
  ultimately show ?thesis by simp
qed

lemma decode_encoded_payload:
  assumes "runtime_ok rt" and "valid_utf8 (rt_plan_hash rt)" and "encode_payload rt payload partial = Inr raw"
  shows "runtime_decode_record rt raw = Inr (map (field_value payload) (rt_fields rt))"
    and "current_partial rt raw = Inr partial"
proof -
  define e where "e = (new_envelope (rt_profile_id rt) (rt_plan_hash rt)
      (word_of_nat (length (rt_fields rt))) (length payload))\<lparr>ev_partial := partial\<rparr>"
  have len: "required_len rt \<le> length payload"
    and enc: "encode_record e payload (rt_max_payload rt) = Inr raw"
    using assms(3) by (auto simp: encode_payload_def e_def Let_def split: if_splits)
  have "ev_profile_id e = ''go'' \<or> ev_profile_id e = ''rust''"
    using enc validated_envelope(2)[of e "rt_max_payload rt" "()"] by (auto simp: encode_record_Inr)
  then have "valid_utf8 (ev_profile_id e)" by (elim disjE) (simp_all, code_simp+)
  then have dec: "decode_record raw (rt_max_payload rt) = Inr (e, payload)"
    using decode_of_encode[OF enc] assms(2) by (simp add: e_def new_envelope_def)
  then show "current_partial rt raw = Inr partial" by (simp add: current_partial_def e_def)
  have small: "length payload < 2 ^ 64" "unat (ev_field_count e) = length (rt_fields rt)"
    using enc unsigned_less[of "ev_payload_len e", where ?'a = nat] assms(1)
    by (auto simp: encode_record_Inr e_def new_envelope_def runtime_ok_def MAX_CAPTURE_FIELDS_def
        unat_of_nat take_bit_nat_eq_self)
  have "decode_scalar_field payload f = Inr (field_value payload f)" if "f \<in> set (rt_fields rt)" for f
    using that decode_checked_field[OF _ required_len_covers[OF assms(1) _ len] small(1), of "rt_max_payload rt" f]
      assms(1) by (auto simp: runtime_ok_def list_all_iff)
  then show "runtime_decode_record rt raw = Inr (map (field_value payload) (rt_fields rt))"
    unfolding runtime_decode_Inr
    by (intro exI[of _ e] exI[of _ payload])
       (use dec small(2) in \<open>auto simp: e_def new_envelope_def list_all2_conv_all_nth\<close>)
qed

text \<open>C11: What the probe captures is what the runtime reports. A payload that an active runtime encodes
  into a record comes back, when the runtime ingests that record, as the values of all its fields, each
  decoded from that field's own bytes of the payload; the record is counted as decoded, and a record marked
  partial counts one unavailable field. The plan hash is a text, as every Rust string is.\<close>

theorem captured_payload_arrives:
  assumes "new_runtime profile plan specs m = Inr rt0" and "runtime_step\<^sup>*\<^sup>* rt0 rt"
    and "rt_state rt = Active" and "valid_utf8 plan" and "encode_payload rt payload partial = Inr raw"
  shows "fst (ingest raw rt) = Inr (map (field_value payload) specs)
     \<and> records_decoded (rt_counters (snd (ingest raw rt))) = records_decoded (rt_counters rt) + 1
     \<and> unavailable_fields (rt_counters (snd (ingest raw rt)))
         = unavailable_fields (rt_counters rt) + of_bool partial"
proof -
  note config = reaches_config[OF assms(2)] new_runtime_ok[OF assms(1)]
  have ok: "runtime_ok rt" using config same_config_ok by blast
  have rt: "rt_fields rt = specs" "rt_plan_hash rt = plan" using config by (simp_all add: same_config_def)
  show ?thesis
    using assms(3) decode_encoded_payload[OF ok _ assms(5)] assms(4) rt
    by (simp add: ingest_def Let_def count_decoded_def)
qed

lemma sample_runtime_reaches: "runtime_step\<^sup>*\<^sup>* (sample_runtime Created) (sample_runtime Active)"
  using relpowp_imp_rtranclp[OF sample_runtime_active] .

lemma sample_values:
  "map (field_value sample_payload) sample_specs = [(''amount'', Scalar (- 2)), (''paid'', Scalar 1)]"
  by (simp add: field_value_def sample_payload_def sample_specs_def decode_scalar_def from_le_bytes_def)

theorem captured_payload_arrives_witness:
  "fst (ingest sample_record (sample_runtime Active)) = Inr [(''amount'', Scalar (- 2)), (''paid'', Scalar 1)]"
proof -
  have "rt_state (sample_runtime Active) = Active" by (simp add: sample_runtime_def)
  from captured_payload_arrives[OF sample_runtime_new sample_runtime_reaches this sample_texts(5) sample_encoded]
  show ?thesis by (simp add: sample_values)
qed

theorem runtime_type_sound_witness:
  "\<exists>vals. fst (ingest sample_record (sample_runtime Active)) = Inr vals
     \<and> list_all2 (\<lambda>f (name, v). name = sf_name f \<and> value_of_kind (sf_kind f) (sf_size f) v) sample_specs vals"
proof -
  have "runtime_ok (sample_runtime Active)"
    using new_runtime_ok(1)[OF sample_runtime_new] by (simp add: runtime_ok_def sample_runtime_def)
  then have "fst (ingest sample_record (sample_runtime Active)) = Inr (map (field_value sample_payload) sample_specs)"
    using decode_encoded_payload[OF _ _ sample_encoded] sample_texts(5)
    by (simp add: ingest_def Let_def sample_runtime_def)
  from runtime_type_sound[OF sample_runtime_new sample_runtime_reaches this] this
  show ?thesis by blast
qed

end
