(* ===== verification/Dap_Broker.thy ===== *)
theory Dap_Broker
  imports Rust_Bytes
begin

text \<open>
  The broker of a debug adapter connection (\<open>detrix-dap/src/broker.rs\<close>): the framing of protocol
  messages with a content length, the task that reads them, the table of requests that wait for their
  response, and the event subscribers. The JSON library is a parameter: a function that prints a
  message and one that parses a text. The state has, beside the fields of the broker, the bytes written
  to the adapter and the outcomes its callers received, and the request that holds the request lock.
  The two loops of the reader are written as the code has them, with no bound on their rounds.
\<close>


section \<open>Messages\<close>

record 'j request =
  rq_seq :: i64
  rq_command :: string
  rq_arguments :: "'j option"

record 'j response =
  rs_seq :: i64
  rs_request_seq :: i64
  rs_command :: string
  rs_success :: bool
  rs_message :: "string option"
  rs_body :: "'j option"

record 'j dap_event =
  dv_seq :: i64
  dv_event :: string
  dv_body :: "'j option"

datatype 'j protocol_message = Request "'j request" | Response "'j response" | Event "'j dap_event"

datatype dap_error =
    Protocol string
  | InvalidMessage string
  | AdapterNotFound string
  | Communication string
  | InitializationFailed string
  | Timeout u64


section \<open>Error texts of the standard library\<close>

text \<open>\<open>ParseIntError\<close> of an unsigned 64-bit integer: the first character that is no digit or overflows.\<close>

fun parse_digits_error :: "nat \<Rightarrow> string \<Rightarrow> string" where
  "parse_digits_error v [] = []"
| "parse_digits_error v (c # cs) =
     (if \<not> is_digit c then ''invalid digit found in string''
      else let v = 10 * v + (byte_of c - 48)
           in if v < 2 ^ 64 then parse_digits_error v cs else ''number too large to fit in target type'')"

definition parse_int_error :: "string \<Rightarrow> string" where
  "parse_int_error s =
     (if s = [] then ''cannot parse integer from empty string''
      else if s = ''+'' \<or> s = ''-'' then ''invalid digit found in string''
      else parse_digits_error 0 (if hd s = CHR ''+'' then tl s else s))"

text \<open>\<open>Utf8Error\<close>: the length of the valid prefix, and how many bytes after it are wrong, unless they are a
  sequence that the end of the input cut off.\<close>

definition utf8_width :: "char \<Rightarrow> nat" where
  "utf8_width a =
     (if byte_of a < 0x80 then 1 else if byte_of a < 0xC2 then 0 else if byte_of a < 0xE0 then 2
      else if byte_of a < 0xF0 then 3 else if byte_of a < 0xF5 then 4 else 0)"

definition second_byte_ok :: "char \<Rightarrow> char \<Rightarrow> bool" where
  "second_byte_ok a b \<longleftrightarrow> continuation_byte b
     \<and> (byte_of a = 0xE0 \<longrightarrow> 0xA0 \<le> byte_of b) \<and> (byte_of a = 0xED \<longrightarrow> byte_of b < 0xA0)
     \<and> (byte_of a = 0xF0 \<longrightarrow> 0x90 \<le> byte_of b) \<and> (byte_of a = 0xF4 \<longrightarrow> byte_of b < 0x90)"

fun wrong_bytes :: "nat \<Rightarrow> nat \<Rightarrow> string \<Rightarrow> nat option option" where
  "wrong_bytes k w [] = (if w \<le> k then None else Some None)"
| "wrong_bytes k w (b # t) =
     (if w \<le> k then None else if continuation_byte b then wrong_bytes (k + 1) w t else Some (Some k))"

function utf8_error :: "nat \<Rightarrow> string \<Rightarrow> (nat \<times> nat option) option" where
  "utf8_error i [] = None"
| "utf8_error i (a # s) =
     (let w = utf8_width a
      in if w = 0 then Some (i, Some 1)
         else if w \<noteq> 1 \<and> s \<noteq> [] \<and> \<not> second_byte_ok a (hd s) then Some (i, Some 1)
         else case wrong_bytes 1 w s of
                Some err \<Rightarrow> Some (i, err)
              | None \<Rightarrow> utf8_error (i + w) (drop (w - 1) s))"
  by pat_completeness auto
termination
  by (relation "measure (\<lambda>(_, s). length s)") auto

definition utf8_error_text :: "string \<Rightarrow> string" where
  "utf8_error_text s =
     (case utf8_error 0 s of
        Some (i, Some k) \<Rightarrow>
          ''invalid utf-8 sequence of '' @ show_nat k @ '' bytes from index '' @ show_nat i
      | Some (i, None) \<Rightarrow> ''incomplete utf-8 byte sequence from index '' @ show_nat i
      | None \<Rightarrow> [])"


section \<open>Framing\<close>

definition frame :: "('m \<Rightarrow> string) \<Rightarrow> 'm \<Rightarrow> string" where
  "frame to_json message =
     (let json = to_json message
      in ''Content-Length: '' @ show_nat (length json) @ [CHR 0x0D, CHR 0x0A, CHR 0x0D, CHR 0x0A] @ json)"

text \<open>\<open>read_line\<close>: the bytes up to and with the next line feed, or the rest of the stream.\<close>

definition read_line :: "string \<Rightarrow> string \<times> string" where
  "read_line input =
     (case dropWhile (\<lambda>c. c \<noteq> CHR 0x0A) input of
        [] \<Rightarrow> (input, [])
      | c # rest \<Rightarrow> (takeWhile (\<lambda>c. c \<noteq> CHR 0x0A) input @ [c], rest))"

text \<open>The loop over the headers ends with the content length seen last, or with nothing at the end of the
  stream.\<close>

partial_function (option) read_headers ::
  "string \<Rightarrow> nat option \<Rightarrow> ((dap_error + nat option option) \<times> string) option" where
  "read_headers input content_length =
     (if input = [] then Some (Inr None, [])
      else let (raw, rest) = read_line input; line = trim raw
           in if \<not> valid_utf8 raw
                then Some (Inl (Communication ''stream did not contain valid UTF-8''), rest)
              else if line = [] then Some (Inr (Some content_length), rest)
              else if prefix ''Content-Length:'' line then
                (let length_str = trim (trim_start_matches ''Content-Length:'' line)
                 in case (parse_unsigned length_str :: u64 option) of
                      None \<Rightarrow>
                        Some (Inl (Protocol (''Invalid Content-Length '' @ [CHR 0x27] @ length_str @ [CHR 0x27]
                                @ '': '' @ parse_int_error length_str)), rest)
                    | Some n \<Rightarrow> read_headers rest (Some (unat n)))
              else read_headers rest content_length)"

definition read_message ::
  "(string \<Rightarrow> string + 'm) \<Rightarrow> string \<Rightarrow> ((dap_error + 'm option) \<times> string) option" where
  "read_message from_json input =
     (case read_headers input None of
        None \<Rightarrow> None
      | Some (Inl e, rest) \<Rightarrow> Some (Inl e, rest)
      | Some (Inr None, rest) \<Rightarrow> Some (Inr None, rest)
      | Some (Inr (Some None), rest) \<Rightarrow> Some (Inl (Protocol ''Missing Content-Length header''), rest)
      | Some (Inr (Some (Some n)), rest) \<Rightarrow>
          if length rest < n then Some (Inl (Communication ''early eof''), [])
          else if \<not> valid_utf8 (take n rest) then
            Some (Inl (Protocol (''Invalid UTF-8: '' @ utf8_error_text (take n rest))), drop n rest)
          else (case from_json (take n rest) of
                  Inl e \<Rightarrow> Some (Inl (InvalidMessage e), drop n rest)
                | Inr message \<Rightarrow> Some (Inr (Some message), drop n rest)))"


section \<open>The broker\<close>

record 'j subscriber =
  sub_capacity :: nat
  sub_queue :: "'j dap_event list"
  sub_closed :: bool

text \<open>The lock of the requests and how far the request that owns it has come: registered in the table, or
  written and waiting for its response. The caller holds the receiver of the one-shot channel exactly as
  long as the lock. \<open>bk_channel\<close> is what the channel of that request received, and \<open>bk_outcomes\<close> what the
  callers got back, in order.\<close>

datatype 'j request_lock = Unlocked | Registered "'j request" | Waiting i64

fun lock_holder :: "'j request_lock \<Rightarrow> i64 option" where
  "lock_holder Unlocked = None"
| "lock_holder (Registered r) = Some (rq_seq r)"
| "lock_holder (Waiting seq) = Some seq"

record 'j broker =
  bk_next_seq :: i64
  bk_request_lock :: "'j request_lock"
  bk_channel :: "(dap_error + 'j response) option"
  bk_pending :: "i64 list"
  bk_outcomes :: "(i64 \<times> (dap_error + 'j response)) list"
  bk_subscribers :: "'j subscriber list"
  bk_module_count :: nat
  bk_reader_done :: bool
  bk_written :: string

definition new_broker :: "'j broker" where
  "new_broker =
     \<lparr>bk_next_seq = 1, bk_request_lock = Unlocked, bk_channel = None, bk_pending = [], bk_outcomes = [],
      bk_subscribers = [], bk_module_count = 0, bk_reader_done = False, bk_written = []\<rparr>"

definition next_sequence :: "'j broker \<Rightarrow> i64 \<times> 'j broker" where
  "next_sequence b = (bk_next_seq b, b\<lparr>bk_next_seq := bk_next_seq b + 1\<rparr>)"

text \<open>The receiver of a request is closed unless its caller still waits.\<close>

definition receiver_closed :: "'j broker \<Rightarrow> i64 \<Rightarrow> bool" where
  "receiver_closed b seq = (lock_holder (bk_request_lock b) \<noteq> Some seq)"

definition deliver :: "i64 \<Rightarrow> dap_error + 'j response \<Rightarrow> 'j broker \<Rightarrow> 'j broker" where
  "deliver seq outcome b = (if receiver_closed b seq then b else b\<lparr>bk_channel := Some outcome\<rparr>)"

text \<open>The message is framed and written; \<open>write_error\<close> is the answer of the stream.\<close>

definition send_message ::
  "('j protocol_message \<Rightarrow> string) \<Rightarrow> 'j protocol_message \<Rightarrow> string option \<Rightarrow> 'j broker
    \<Rightarrow> (dap_error + unit) \<times> 'j broker" where
  "send_message to_json message write_error b =
     (case write_error of
        Some e \<Rightarrow> (Inl (Communication e), b)
      | None \<Rightarrow> (Inr (), b\<lparr>bk_written := bk_written b @ frame to_json message\<rparr>))"

text \<open>A request in its phases: the lock, the number and the entry in the table; the write, whose failure is
  returned at once; then the outcome from the channel, the timeout, or a caller that goes away.\<close>

definition begin_request :: "string \<Rightarrow> 'j option \<Rightarrow> 'j broker \<Rightarrow> 'j broker" where
  "begin_request command arguments b =
     (let (seq, b) = next_sequence b;
          request = \<lparr>rq_seq = seq, rq_command = command, rq_arguments = arguments\<rparr>
      in b\<lparr>bk_request_lock := Registered request, bk_channel := None,
           bk_pending := seq # removeAll seq (bk_pending b)\<rparr>)"

definition leave_request :: "i64 \<Rightarrow> dap_error + 'j response \<Rightarrow> 'j broker \<Rightarrow> 'j broker" where
  "leave_request seq outcome b =
     b\<lparr>bk_request_lock := Unlocked, bk_channel := None, bk_outcomes := bk_outcomes b @ [(seq, outcome)]\<rparr>"

definition write_request ::
  "('j protocol_message \<Rightarrow> string) \<Rightarrow> 'j request \<Rightarrow> string option \<Rightarrow> 'j broker \<Rightarrow> 'j broker" where
  "write_request to_json request write_error b =
     (case send_message to_json (Request request) write_error b of
        (Inl e, b) \<Rightarrow> leave_request (rq_seq request) (Inl e) b
      | (Inr _, b) \<Rightarrow> b\<lparr>bk_request_lock := Waiting (rq_seq request)\<rparr>)"

definition finish_request :: "i64 \<Rightarrow> 'j broker \<Rightarrow> 'j broker" where
  "finish_request seq b = (case bk_channel b of None \<Rightarrow> b | Some outcome \<Rightarrow> leave_request seq outcome b)"

definition timeout_request :: "i64 \<Rightarrow> u64 \<Rightarrow> 'j broker \<Rightarrow> 'j broker" where
  "timeout_request seq timeout_ms b =
     leave_request seq (Inl (Timeout timeout_ms)) (b\<lparr>bk_pending := removeAll seq (bk_pending b)\<rparr>)"

definition abandon_request :: "'j broker \<Rightarrow> 'j broker" where
  "abandon_request b = b\<lparr>bk_request_lock := Unlocked, bk_channel := None\<rparr>"

definition send_message_no_wait ::
  "('j protocol_message \<Rightarrow> string) \<Rightarrow> 'j protocol_message \<Rightarrow> string option \<Rightarrow> 'j broker
    \<Rightarrow> (dap_error + unit) \<times> 'j broker" where
  "send_message_no_wait to_json message write_error b = send_message to_json message write_error b"

text \<open>\<open>send_and_detect_failure\<close>: silence and a successful response count as success. The sender of a request
  that waits stays in the table until it is used, so neither caller finds its channel closed.\<close>

definition detect_failure :: "string \<Rightarrow> (dap_error + 'j response) option \<Rightarrow> dap_error + unit" where
  "detect_failure command outcome =
     (case outcome of
        None \<Rightarrow> Inr ()
      | Some (Inr r) \<Rightarrow>
          if rs_success r then Inr ()
          else Inl (InitializationFailed
                 (case rs_message r of None \<Rightarrow> command @ '' request failed'' | Some m \<Rightarrow> m))
      | Some (Inl e) \<Rightarrow> Inl e)"

definition kept_events :: "string list" where
  "kept_events = [''output'', ''stopped'', ''terminated'', ''exited'', ''continued'', ''breakpoint'']"

text \<open>\<open>retain\<close> with \<open>try_send\<close>: a full channel loses the event, a closed one is removed.\<close>

definition broadcast :: "'j dap_event \<Rightarrow> 'j subscriber list \<Rightarrow> 'j subscriber list" where
  "broadcast e subs =
     map (\<lambda>s. if length (sub_queue s) < sub_capacity s then s\<lparr>sub_queue := sub_queue s @ [e]\<rparr> else s)
       (filter (\<lambda>s. \<not> sub_closed s) subs)"

definition handle_message :: "'j protocol_message \<Rightarrow> 'j broker \<Rightarrow> 'j broker" where
  "handle_message message b =
     (case message of
        Response r \<Rightarrow>
          if rs_request_seq r \<in> set (bk_pending b)
          then deliver (rs_request_seq r) (Inr r)
                 (b\<lparr>bk_pending := removeAll (rs_request_seq r) (bk_pending b)\<rparr>)
          else b
      | Event e \<Rightarrow>
          if dv_event e \<in> set kept_events then b\<lparr>bk_subscribers := broadcast e (bk_subscribers b)\<rparr>
          else if dv_event e = ''module'' then b\<lparr>bk_module_count := bk_module_count b + 1\<rparr>
          else b
      | Request _ \<Rightarrow> b)"

definition session_end :: "'j protocol_message \<Rightarrow> bool" where
  "session_end message =
     (case message of Event e \<Rightarrow> dv_event e = ''terminated'' \<or> dv_event e = ''exited'' | _ \<Rightarrow> False)"

text \<open>The end of the reader task: every waiting request fails, every subscriber is closed.\<close>

definition reader_exit :: "'j broker \<Rightarrow> 'j broker" where
  "reader_exit b =
     (fold (\<lambda>seq. deliver seq (Inl (Communication ''Adapter disconnected''))) (bk_pending b) b)
       \<lparr>bk_pending := [], bk_subscribers := [], bk_reader_done := True\<rparr>"

partial_function (option) reader_task ::
  "(string \<Rightarrow> string + 'j protocol_message) \<Rightarrow> string \<Rightarrow> 'j broker \<Rightarrow> 'j broker option" where
  "reader_task from_json input b =
     (case read_message from_json input of
        None \<Rightarrow> None
      | Some (Inr (Some message), rest) \<Rightarrow>
          if session_end message then Some (reader_exit (handle_message message b))
          else reader_task from_json rest (handle_message message b)
      | Some (_, rest) \<Rightarrow> Some (reader_exit b))"

definition subscribe_events :: "nat \<Rightarrow> 'j broker \<Rightarrow> 'j broker" where
  "subscribe_events capacity b =
     b\<lparr>bk_subscribers := filter (\<lambda>s. \<not> sub_closed s) (bk_subscribers b)
         @ [\<lparr>sub_capacity = capacity, sub_queue = [], sub_closed = False\<rparr>]\<rparr>"

definition cleanup_dropped_subscribers :: "'j broker \<Rightarrow> nat \<times> 'j broker" where
  "cleanup_dropped_subscribers b =
     (let kept = filter (\<lambda>s. \<not> sub_closed s) (bk_subscribers b)
      in (length (bk_subscribers b) - length kept, b\<lparr>bk_subscribers := kept\<rparr>))"

definition is_alive :: "'j broker \<Rightarrow> bool" where
  "is_alive b = (\<not> bk_reader_done b)"

definition cleanup_orphaned_requests :: "'j broker \<Rightarrow> nat \<times> 'j broker" where
  "cleanup_orphaned_requests b =
     (let kept = filter (\<lambda>seq. \<not> receiver_closed b seq) (bk_pending b)
      in (length (bk_pending b) - length kept, b\<lparr>bk_pending := kept\<rparr>))"


section \<open>Error texts\<close>

text \<open>The error of the UTF-8 check is there exactly when the check fails.\<close>

lemma utf8_width_cases:
  "utf8_width a = 1 \<longleftrightarrow> byte_of a < 0x80" "utf8_width a = 2 \<longleftrightarrow> 0xC2 \<le> byte_of a \<and> byte_of a < 0xE0"
  "utf8_width a = 3 \<longleftrightarrow> 0xE0 \<le> byte_of a \<and> byte_of a < 0xF0" "utf8_width a = 4 \<longleftrightarrow> 0xF0 \<le> byte_of a \<and> byte_of a < 0xF5"
  "utf8_width a \<in> {0, 1, 2, 3, 4}"
  by (auto simp: utf8_width_def)

lemma wrong_bytes_done [simp]: "w \<le> k \<Longrightarrow> wrong_bytes k w s = None"
  by (cases s) simp_all

lemma utf8_error_iff: "utf8_error i s = None \<longleftrightarrow> valid_utf8 s"
proof (induction i s rule: utf8_error.induct)
  case (2 i a s)
  note IH = "2.IH"
  consider "utf8_width a = 0" | "utf8_width a = 1" | "utf8_width a = 2" | "utf8_width a = 3" | "utf8_width a = 4"
    using utf8_width_cases(5)[of a] by auto
  then show ?case
  proof cases
    case 1
    then show ?thesis by (auto simp: utf8_width_def split: if_splits)
  next
    case 2
    then show ?thesis using IH[of 1] utf8_width_cases(1)[of a] by (cases s) (auto simp: Let_def)
  next
    case 3
    then show ?thesis using IH[of 2] utf8_width_cases(2)[of a]
      by (cases s) (auto simp: Let_def second_byte_ok_def split: option.splits)
  next
    case 4
    then show ?thesis using IH[of 3] utf8_width_cases(3)[of a]
      by (cases s; cases "tl s") (auto simp: Let_def second_byte_ok_def split: option.splits)
  next
    case 5
    then show ?thesis using IH[of 4] utf8_width_cases(4)[of a]
      by (cases s; cases "tl s"; cases "tl (tl s)") (auto simp: Let_def second_byte_ok_def split: option.splits)
  qed
qed simp


section \<open>The reader ends\<close>

lemma read_line_split: "read_line input = (raw, rest) \<Longrightarrow> raw @ rest = input"
  by (auto simp: read_line_def split: list.splits) (metis takeWhile_dropWhile_id)

lemma read_line_shorter:
  assumes "read_line input = (raw, rest)" and "input \<noteq> []"
  shows "length rest < length input"
proof -
  have "raw \<noteq> []" using assms by (auto simp: read_line_def split: list.splits)
  then show ?thesis using read_line_split[OF assms(1)] by auto
qed

text \<open>The loop over the headers returns and has consumed a line when it found the end of the headers.\<close>

lemma read_headers_ends:
  "\<exists>r rest. read_headers input cl = Some (r, rest) \<and> length rest \<le> length input
     \<and> (\<forall>n. r = Inr (Some n) \<longrightarrow> length rest < length input)"
proof (induction input arbitrary: cl rule: length_induct)
  case (1 input)
  obtain raw rest where line: "read_line input = (raw, rest)" by fastforce
  show ?case
  proof (cases "input = []")
    case True
    then show ?thesis by (subst read_headers.simps) simp
  next
    case False
    then have shorter: "length rest < length input" using read_line_shorter[OF line] by simp
    have more: "\<exists>r rest'. read_headers rest cl' = Some (r, rest') \<and> length rest' \<le> length input
        \<and> (\<forall>n. r = Inr (Some n) \<longrightarrow> length rest' < length input)" for cl'
      using 1[rule_format, OF shorter, of cl'] shorter by (meson less_imp_le less_trans le_trans)
    show ?thesis
      using False shorter more
      by (subst read_headers.simps) (auto simp: line Let_def split: option.splits)
  qed
qed

lemma read_message_ends:
  "\<exists>r rest. read_message from_json input = Some (r, rest) \<and> (\<forall>m. r = Inr (Some m) \<longrightarrow> length rest < length input)"
proof -
  obtain r rest where "read_headers input None = Some (r, rest)" "length rest \<le> length input"
    "\<forall>n. r = Inr (Some n) \<longrightarrow> length rest < length input" using read_headers_ends by blast
  then show ?thesis
    by (auto simp: read_message_def split: sum.splits option.splits)
qed

lemma reader_task_message:
  assumes "read_message from_json input = Some (Inr (Some m), rest)"
  shows "reader_task from_json input b =
    (if session_end m then Some (reader_exit (handle_message m b))
     else reader_task from_json rest (handle_message m b))"
  by (rule trans[OF reader_task.simps]) (simp add: assms)

lemma reader_task_stops:
  assumes "read_message from_json input = Some (r, rest)" and "\<And>m. r \<noteq> Inr (Some m)"
  shows "reader_task from_json input b = Some (reader_exit b)"
  by (rule trans[OF reader_task.simps]) (use assms in \<open>simp split: sum.split option.split\<close>)

lemma reader_task_ends: "reader_task from_json input b \<in> range (\<lambda>b0. Some (reader_exit b0))"
proof (induction "length input" arbitrary: input b rule: less_induct)
  case less
  obtain r rest where read: "read_message from_json input = Some (r, rest)"
    and shorter: "\<And>m. r = Inr (Some m) \<Longrightarrow> length rest < length input" using read_message_ends by metis
  show ?case
  proof (cases "\<exists>m. r = Inr (Some m)")
    case True
    then obtain m where m: "r = Inr (Some m)" by blast
    show ?thesis
      unfolding reader_task_message[OF read[unfolded m]] using less[OF shorter[OF m]] by (cases "session_end m") simp_all
  next
    case False
    then have "reader_task from_json input b = Some (reader_exit b)"
      by (intro reader_task_stops[OF read]) simp
    then show ?thesis by (rule range_eqI)
  qed
qed



section \<open>Framed messages are read back\<close>

lemma read_line_break:
  assumes "CHR 0x0A \<notin> set s"
  shows "read_line (s @ CHR 0x0A # rest) = (s @ [CHR 0x0A], rest)"
proof -
  have "dropWhile (\<lambda>c. c \<noteq> CHR 0x0A) (s @ CHR 0x0A # rest) = CHR 0x0A # rest"
    "takeWhile (\<lambda>c. c \<noteq> CHR 0x0A) (s @ CHR 0x0A # rest) = s"
    using assms by (induction s) auto
  then show ?thesis by (simp add: read_line_def)
qed

lemma trim_crlf: "trim [CHR 0x0D, CHR 0x0A] = []"
  by code_simp

lemma valid_utf8_ascii: "list_all (\<lambda>c. byte_of c < 128) s \<Longrightarrow> valid_utf8 s"
  by (induction s) simp_all

lemma digit_is_plain: "list_all is_digit s \<Longrightarrow> list_all plain_start s"
  by (simp add: list_all_iff plain_start_digit)

text \<open>The header line of a message of \<open>n\<close> bytes.\<close>

lemma header_line_trimmed:
  "trim (''Content-Length: '' @ show_nat n @ [CHR 0x0D, CHR 0x0A]) = ''Content-Length: '' @ show_nat n"
proof -
  obtain ds d where ds: "show_nat n = ds @ [d]" by (cases "show_nat n" rule: rev_cases) auto
  then have "plain_start d" using digit_is_plain[OF show_nat_digits[of n]] by simp
  then have "trim_end ((''Content-Length: '' @ ds) @ [d, CHR 0x0D, CHR 0x0A]) = (''Content-Length: '' @ ds) @ [d]"
    by (rule trim_end_crlf)
  moreover have "trim_start (CHR ''C'' # s) = CHR ''C'' # s" for s
    by (rule trim_start_plain) (simp add: plain_start_def byte_of_def)
  ultimately show ?thesis by (simp add: trim_def ds)
qed

lemma header_length_trimmed: "trim (trim_start_matches ''Content-Length:'' (''Content-Length: '' @ show_nat n)) = show_nat n"
proof -
  have "trim_start_matches ''Content-Length:'' (''Content-Length: '' @ show_nat n) = CHR 0x20 # show_nat n"
    using trim_start_matches_space[of "''Content-Length:''" "show_nat n"] by simp
  moreover have "trim (CHR 0x20 # show_nat n) = show_nat n"
    using trim_plain_text[OF show_nat_nonempty digit_is_plain[OF show_nat_digits], of n]
    by (simp add: trim_def trim_start_space)
  ultimately show ?thesis by simp
qed

lemma header_line_ascii: "list_all (\<lambda>c. byte_of c < 128) (''Content-Length: '' @ show_nat n @ [CHR 0x0D, CHR 0x0A])"
proof -
  have "list_all (\<lambda>c. byte_of c < 128) (show_nat n)"
    using show_nat_digits[of n] by (auto simp: list_all_iff is_digit_def)
  then show ?thesis by (simp add: byte_of_def)
qed

lemma header_line_one: "CHR 0x0A \<notin> set (''Content-Length: '' @ show_nat n @ [CHR 0x0D])"
proof -
  have "\<not> is_digit (CHR 0x0A)" by (simp add: is_digit_def byte_of_def)
  then show ?thesis using show_nat_digits[of n] by (auto simp: list_all_iff)
qed

lemma read_headers_end: "read_headers (CHR 0x0D # CHR 0x0A # rest) cl = Some (Inr (Some cl), rest)"
proof -
  have "read_line (CHR 0x0D # CHR 0x0A # rest) = ([CHR 0x0D, CHR 0x0A], rest)"
    using read_line_break[of "[CHR 0x0D]" rest] by simp
  moreover have "valid_utf8 [CHR 0x0D, CHR 0x0A]" by (rule valid_utf8_ascii) (simp add: byte_of_def)
  ultimately show ?thesis
    by (subst read_headers.simps) (simp add: trim_crlf del: valid_utf8.simps)
qed

lemma read_headers_length:
  assumes "n < 2 ^ 64"
  shows "read_headers (''Content-Length: '' @ show_nat n @ CHR 0x0D # CHR 0x0A # rest) cl
    = read_headers rest (Some n)"
proof -
  let ?raw = "''Content-Length: '' @ show_nat n @ [CHR 0x0D, CHR 0x0A]"
  let ?input = "''Content-Length: '' @ show_nat n @ CHR 0x0D # CHR 0x0A # rest"
  have line: "read_line ?input = (?raw, rest)"
    using read_line_break[OF header_line_one, of n rest] by simp
  have utf8: "valid_utf8 ?raw" by (rule valid_utf8_ascii[OF header_line_ascii])
  have parsed: "parse_unsigned (show_nat n) = Some (of_nat n :: u64)"
    using assms by (intro parse_unsigned_show_nat) simp
  have "unat (of_nat n :: u64) = n" using assms by (simp add: unat_of_nat take_bit_nat_eq_self)
  moreover have "?input \<noteq> []" "''Content-Length: '' @ show_nat n \<noteq> []"
    "prefix ''Content-Length:'' (''Content-Length: '' @ show_nat n)" by simp_all
  ultimately show ?thesis
    by (intro trans[OF read_headers.simps])
       (simp only: line utf8 Let_def prod.case header_line_trimmed header_length_trimmed parsed option.case
          if_True if_False not_True_eq_False)
qed

text \<open>A message that the JSON library reads back, as valid UTF-8 of a length that fits.\<close>

definition transferable :: "('m \<Rightarrow> string) \<Rightarrow> (string \<Rightarrow> string + 'm) \<Rightarrow> 'm \<Rightarrow> bool" where
  "transferable to_json from_json m \<longleftrightarrow>
     from_json (to_json m) = Inr m \<and> valid_utf8 (to_json m) \<and> length (to_json m) < 2 ^ 64"

lemma read_message_frame:
  assumes "transferable to_json from_json m"
  shows "read_message from_json (frame to_json m @ rest) = Some (Inr (Some m), rest)"
proof -
  let ?n = "length (to_json m)"
  have "read_headers (frame to_json m @ rest) None = Some (Inr (Some (Some ?n)), to_json m @ rest)"
    using read_headers_length[of ?n "CHR 0x0D # CHR 0x0A # to_json m @ rest" None] assms
    by (simp add: frame_def Let_def transferable_def read_headers_end)
  then show ?thesis using assms by (simp add: read_message_def transferable_def)
qed

text \<open>The messages the reader handles: up to and with the first that ends the session.\<close>

fun handled :: "'j protocol_message list \<Rightarrow> 'j protocol_message list" where
  "handled [] = []"
| "handled (m # ms) = m # (if session_end m then [] else handled ms)"

text \<open>C5: Framing round trip. A stream of messages framed by the sender is read back message by message: the
  reader handles exactly the messages that were framed, in order, up to and with the first event that ends
  the session, and then cleans up. What follows that event is not looked at; without such an event the
  reader stops at the end of the stream. The JSON library only has to read back what it printed, as valid
  UTF-8 of fewer than 2 to the 64 bytes.\<close>

theorem framed_stream_handled:
  assumes "\<forall>m\<in>set ms. transferable to_json from_json m"
    and "rest = [] \<or> list_ex session_end ms"
  shows "reader_task from_json (concat (map (frame to_json) ms) @ rest) b
    = Some (reader_exit (fold handle_message (handled ms) b))"
  using assms
proof (induction ms arbitrary: b)
  case Nil
  then have "read_message from_json rest = Some (Inr None, [])"
    by (simp add: read_message_def read_headers.simps)
  then show ?case using reader_task_stops[of from_json rest "Inr None" "[]" b] by simp
next
  case (Cons m ms)
  let ?rest = "concat (map (frame to_json) ms) @ rest"
  have "read_message from_json (frame to_json m @ ?rest) = Some (Inr (Some m), ?rest)"
    using Cons.prems by (intro read_message_frame) simp
  from reader_task_message[OF this] show ?case
    using Cons.IH Cons.prems by auto
qed

text \<open>A JSON library for events without a body, for the witnesses.\<close>

definition sample_event :: "string \<Rightarrow> unit protocol_message" where
  "sample_event name = Event \<lparr>dv_seq = 0, dv_event = name, dv_body = None\<rparr>"

definition sample_json :: "unit protocol_message \<Rightarrow> string" where
  "sample_json m = (case m of Event e \<Rightarrow> dv_event e | _ \<Rightarrow> [])"

theorem framed_stream_handled_witness:
  "reader_task (\<lambda>s. Inr (sample_event s))
      (concat (map (frame sample_json) [sample_event ''module'', sample_event ''exited'']) @ ''x'') new_broker
    = Some (reader_exit (fold handle_message [sample_event ''module'', sample_event ''exited''] new_broker))
   \<and> bk_module_count (fold handle_message [sample_event ''module'', sample_event ''exited''] new_broker) = 1"
proof -
  let ?ms = "[sample_event ''module'', sample_event ''exited'']"
  have "\<forall>m\<in>set ?ms. transferable sample_json (\<lambda>s. Inr (sample_event s)) m"
    by (simp add: transferable_def sample_event_def sample_json_def byte_of_def)
  moreover have "list_ex session_end ?ms" "handled ?ms = ?ms"
    by (simp_all add: session_end_def sample_event_def)
  ultimately show ?thesis
    using framed_stream_handled[of ?ms sample_json "\<lambda>s. Inr (sample_event s)" "''x''" new_broker]
    by (simp add: sample_event_def handle_message_def kept_events_def broadcast_def new_broker_def)
qed

end
