(* ===== verification/Broker_Session.thy ===== *)
theory Broker_Session
  imports Dap_Broker
begin

text \<open>
  The life of a broker (\<open>detrix-dap/src/broker.rs\<close>) as a step relation: callers, the reader task and the
  owners of the event receivers act in any order, each step being what one of them does between two
  awaits. A caller enters only while the request lock is free. The invariant says how the table of waiting
  requests, the lock and the outcomes belong together; it is kept by every step.
\<close>


section \<open>Steps\<close>

definition map_subscriber :: "nat \<Rightarrow> ('j subscriber \<Rightarrow> 'j subscriber) \<Rightarrow> 'j broker \<Rightarrow> 'j broker" where
  "map_subscriber i f b =
     (if i < length (bk_subscribers b)
      then b\<lparr>bk_subscribers := (bk_subscribers b)[i := f (bk_subscribers b ! i)]\<rparr> else b)"

text \<open>The owner of a receiver takes the next event, or drops the receiver.\<close>

definition receive_event :: "nat \<Rightarrow> 'j broker \<Rightarrow> 'j broker" where
  "receive_event i = map_subscriber i (\<lambda>s. s\<lparr>sub_queue := tl (sub_queue s)\<rparr>)"

definition drop_receiver :: "nat \<Rightarrow> 'j broker \<Rightarrow> 'j broker" where
  "drop_receiver i = map_subscriber i (\<lambda>s. s\<lparr>sub_closed := True\<rparr>)"

inductive broker_step :: "('j protocol_message \<Rightarrow> string) \<Rightarrow> 'j broker \<Rightarrow> 'j broker \<Rightarrow> bool" for to_json where
  step_begin: "bk_request_lock b = Unlocked \<Longrightarrow> broker_step to_json b (begin_request command arguments b)"
| step_write: "bk_request_lock b = Registered request \<Longrightarrow>
    broker_step to_json b (write_request to_json request write_error b)"
| step_finish: "bk_request_lock b = Waiting seq \<Longrightarrow> bk_channel b \<noteq> None \<Longrightarrow>
    broker_step to_json b (finish_request seq b)"
| step_timeout: "bk_request_lock b = Waiting seq \<Longrightarrow> bk_channel b = None \<Longrightarrow>
    broker_step to_json b (timeout_request seq timeout_ms b)"
| step_abandon: "broker_step to_json b (abandon_request b)"
| step_no_wait: "bk_request_lock b = Unlocked \<Longrightarrow>
    broker_step to_json b (snd (send_message_no_wait to_json message write_error b))"
| step_message: "is_alive b \<Longrightarrow> broker_step to_json b (handle_message message b)"
| step_exit: "is_alive b \<Longrightarrow> broker_step to_json b (reader_exit b)"
| step_subscribe: "broker_step to_json b (subscribe_events capacity b)"
| step_cleanup_subscribers: "broker_step to_json b (snd (cleanup_dropped_subscribers b))"
| step_cleanup_requests: "broker_step to_json b (snd (cleanup_orphaned_requests b))"
| step_receive: "broker_step to_json b (receive_event i b)"
| step_drop: "broker_step to_json b (drop_receiver i b)"


section \<open>Invariant\<close>

definition holders :: "'j broker \<Rightarrow> i64 list" where
  "holders b = (case lock_holder (bk_request_lock b) of None \<Rightarrow> [] | Some seq \<Rightarrow> [seq])"

definition answers :: "i64 \<Rightarrow> dap_error + 'j response \<Rightarrow> bool" where
  "answers seq out = (case out of Inl _ \<Rightarrow> True | Inr r \<Rightarrow> rs_request_seq r = seq)"

text \<open>The numbers given out so far are those from 1 to the next one, of which at most \<open>n\<close> were given out.\<close>

definition numbers_ok :: "nat \<Rightarrow> 'j broker \<Rightarrow> bool" where
  "numbers_ok n b \<longleftrightarrow> 1 \<le> sint (bk_next_seq b) \<and> sint (bk_next_seq b) \<le> int n + 1
     \<and> list_all (\<lambda>seq. sint seq < sint (bk_next_seq b)) (map fst (bk_outcomes b) @ holders b @ bk_pending b)"

definition outcomes_ok :: "'j broker \<Rightarrow> bool" where
  "outcomes_ok b \<longleftrightarrow> sorted_wrt (\<lambda>s t. sint s < sint t) (map fst (bk_outcomes b) @ holders b)
     \<and> list_all (\<lambda>(seq, out). answers seq out) (bk_outcomes b)"

definition channel_ok :: "'j broker \<Rightarrow> bool" where
  "channel_ok b \<longleftrightarrow>
     (bk_channel b = None \<and> is_alive b \<longrightarrow> set (holders b) \<subseteq> set (bk_pending b))
     \<and> (\<forall>out. bk_channel b = Some out \<longrightarrow>
          list_all (\<lambda>seq. answers seq out \<and> seq \<notin> set (bk_pending b)) (holders b))"

definition subscribers_ok :: "'j broker \<Rightarrow> bool" where
  "subscribers_ok b \<longleftrightarrow> list_all (\<lambda>s. length (sub_queue s) \<le> sub_capacity s) (bk_subscribers b)"

definition broker_inv :: "nat \<Rightarrow> 'j broker \<Rightarrow> bool" where
  "broker_inv n b \<longleftrightarrow> numbers_ok n b \<and> outcomes_ok b \<and> channel_ok b \<and> subscribers_ok b \<and> distinct (bk_pending b)"

lemmas inv_defs = broker_inv_def numbers_ok_def outcomes_ok_def channel_ok_def subscribers_ok_def holders_def

lemma broker_inv_mono: "broker_inv n b \<Longrightarrow> n \<le> m \<Longrightarrow> broker_inv m b"
  by (auto simp: broker_inv_def numbers_ok_def)

lemma broker_inv_new: "broker_inv 0 new_broker"
  by (simp add: inv_defs new_broker_def is_alive_def)

text \<open>Only the given fields matter for the invariant.\<close>

lemma broker_inv_written [simp]: "broker_inv n (b\<lparr>bk_written := w\<rparr>) = broker_inv n b"
  by (simp add: inv_defs is_alive_def)

lemma broker_inv_modules [simp]: "broker_inv n (b\<lparr>bk_module_count := k\<rparr>) = broker_inv n b"
  by (simp add: inv_defs is_alive_def)

lemma broker_inv_subscribers:
  "broker_inv n b \<Longrightarrow> list_all (\<lambda>s. length (sub_queue s) \<le> sub_capacity s) subs
    \<Longrightarrow> broker_inv n (b\<lparr>bk_subscribers := subs\<rparr>)"
  by (simp add: inv_defs is_alive_def)

lemma sint_succ:
  fixes w :: i64
  assumes "sint w < 2 ^ 62" "0 \<le> sint w"
  shows "sint (w + 1) = sint w + 1"
  using assms by (simp add: sint_word_ariths signed_take_bit_int_eq_self)

lemma broker_inv_begin:
  assumes "broker_inv n b" and "bk_request_lock b = Unlocked" and "n < 2 ^ 61"
  shows "broker_inv (Suc n) (begin_request command arguments b)"
proof -
  let ?s = "bk_next_seq b"
  have low: "1 \<le> sint ?s" "sint ?s \<le> int n + 1"
    and old: "list_all (\<lambda>seq. sint seq < sint ?s) (map fst (bk_outcomes b) @ bk_pending b)"
    using assms(1,2) by (simp_all add: inv_defs)
  have next_num: "sint (?s + 1) = sint ?s + 1" using low assms(3) by (intro sint_succ) simp_all
  have "list_all (\<lambda>seq. sint seq < sint ?s + 1) (map fst (bk_outcomes b) @ bk_pending b)"
    using old by (rule list.pred_mono_strong) simp
  then show ?thesis
    using assms(1,2) low old next_num
    by (simp add: inv_defs begin_request_def next_sequence_def sorted_wrt_append list_all_iff distinct_removeAll)
qed

lemma broker_inv_leave:
  assumes "broker_inv n b" and "lock_holder (bk_request_lock b) = Some seq" and "answers seq out"
  shows "broker_inv n (leave_request seq out b)"
  using assms by (simp add: inv_defs leave_request_def is_alive_def split: option.splits)

lemma broker_inv_abandon: "broker_inv n b \<Longrightarrow> broker_inv n (abandon_request b)"
  by (simp add: inv_defs abandon_request_def sorted_wrt_append is_alive_def)

lemma broker_inv_write:
  assumes "broker_inv n b" and "bk_request_lock b = Registered request"
  shows "broker_inv n (write_request to_json request write_error b)"
proof (cases write_error)
  case None
  then show ?thesis using assms
    by (simp add: write_request_def send_message_def inv_defs is_alive_def)
next
  case (Some e)
  then show ?thesis using assms broker_inv_leave[of n b "rq_seq request" "Inl (Communication e)"]
    by (simp add: write_request_def send_message_def answers_def)
qed

lemma broker_inv_finish:
  assumes "broker_inv n b" and "bk_request_lock b = Waiting seq" and "bk_channel b = Some out"
  shows "broker_inv n (finish_request seq b)"
proof -
  have "answers seq out" using assms by (simp add: inv_defs)
  then show ?thesis using assms broker_inv_leave[of n b seq out] by (simp add: finish_request_def)
qed

lemma broker_inv_timeout:
  assumes "broker_inv n b" and "bk_request_lock b = Waiting seq"
  shows "broker_inv n (timeout_request seq timeout_ms b)"
  using assms
  by (simp add: timeout_request_def leave_request_def inv_defs answers_def is_alive_def list_all_iff
      distinct_removeAll)

text \<open>A response is taken out of the table and delivered; the end of the reader empties the table.\<close>

lemma broker_inv_deliver:
  assumes "broker_inv n b" and "seq \<in> set (bk_pending b)" and "answers seq out"
  shows "broker_inv n (deliver seq out (b\<lparr>bk_pending := removeAll seq (bk_pending b)\<rparr>))"
  using assms
  by (auto simp: deliver_def receiver_closed_def inv_defs is_alive_def list_all_iff distinct_removeAll
      split: option.splits)

lemma broker_inv_message:
  assumes "broker_inv n b"
  shows "broker_inv n (handle_message m b)"
proof (cases m)
  case (Response r)
  then show ?thesis using assms broker_inv_deliver[of n b "rs_request_seq r" "Inr r"]
    by (simp add: handle_message_def answers_def)
next
  case (Event e)
  have "list_all (\<lambda>s. length (sub_queue s) \<le> sub_capacity s) (broadcast e (bk_subscribers b))"
    using assms by (auto simp: inv_defs broadcast_def list_all_iff)
  from broker_inv_subscribers[OF assms this] show ?thesis using Event assms by (simp add: handle_message_def)
qed (use assms in \<open>simp add: handle_message_def\<close>)

lemma fold_deliver:
  "fold (\<lambda>seq. deliver seq out) seqs b =
    (if list_ex (\<lambda>seq. \<not> receiver_closed b seq) seqs then b\<lparr>bk_channel := Some out\<rparr> else b)"
  by (induction seqs arbitrary: b) (auto simp: deliver_def receiver_closed_def)

lemma broker_inv_exit:
  assumes "broker_inv n b"
  shows "broker_inv n (reader_exit b)"
  using assms
  by (auto simp: reader_exit_def fold_deliver receiver_closed_def inv_defs answers_def is_alive_def
      list_all_iff list_ex_iff split: option.splits)

lemma broker_inv_map_subscriber:
  assumes "broker_inv n b" and "\<And>s. length (sub_queue s) \<le> sub_capacity s \<Longrightarrow> length (sub_queue (f s)) \<le> sub_capacity (f s)"
  shows "broker_inv n (map_subscriber i f b)"
proof (cases "i < length (bk_subscribers b)")
  case True
  then have "list_all (\<lambda>s. length (sub_queue s) \<le> sub_capacity s)
      ((bk_subscribers b)[i := f (bk_subscribers b ! i)])"
    using assms by (auto simp: inv_defs list_all_length nth_list_update)
  then show ?thesis using assms(1) by (simp add: map_subscriber_def True broker_inv_subscribers)
qed (simp add: map_subscriber_def assms(1))

lemma broker_inv_cleanup:
  "broker_inv n b \<Longrightarrow> broker_inv n (subscribe_events capacity b)"
  "broker_inv n b \<Longrightarrow> broker_inv n (snd (cleanup_dropped_subscribers b))"
  "broker_inv n b \<Longrightarrow> broker_inv n (snd (cleanup_orphaned_requests b))"
  by (auto simp: subscribe_events_def cleanup_dropped_subscribers_def cleanup_orphaned_requests_def
      receiver_closed_def inv_defs list_all_iff is_alive_def Let_def split: option.splits)

lemma broker_inv_step:
  assumes "broker_step to_json b b'" and "broker_inv n b" and "n < 2 ^ 61"
  shows "broker_inv (Suc n) b'"
proof -
  have keep: "broker_inv (Suc n) c" if "broker_inv n c" for c using broker_inv_mono[OF that] by simp
  from assms show ?thesis
  proof cases
    case step_no_wait
    then show ?thesis using assms(2) keep by (auto simp: send_message_no_wait_def send_message_def split: option.split)
  next
    case step_receive
    then show ?thesis
      using assms(2) by (auto simp: receive_event_def intro!: keep broker_inv_map_subscriber)
  next
    case step_drop
    then show ?thesis
      using assms(2) by (auto simp: drop_receiver_def intro!: keep broker_inv_map_subscriber)
  qed (use assms(2,3) in \<open>auto intro: keep broker_inv_begin broker_inv_write broker_inv_finish broker_inv_timeout
         broker_inv_abandon broker_inv_message broker_inv_exit broker_inv_cleanup\<close>)
qed

lemma broker_inv_reach: "(broker_step to_json ^^ n) new_broker b \<Longrightarrow> n < 2 ^ 61 \<Longrightarrow> broker_inv n b"
proof (induction n arbitrary: b)
  case 0
  then show ?case using broker_inv_new by simp
next
  case (Suc n)
  then obtain c where "(broker_step to_json ^^ n) new_broker c" "broker_step to_json c b" by auto
  then show ?case using Suc broker_inv_step[of to_json c b n] by simp
qed

lemma waiting_request_answered:
  assumes "broker_inv n b" and "bk_request_lock b = Waiting seq" and "bk_channel b = None" and "is_alive b"
    and "rs_request_seq r = seq"
  shows "bk_outcomes (finish_request seq (handle_message (Response r) b)) = bk_outcomes b @ [(seq, Inr r)]"
proof -
  have "seq \<in> set (bk_pending b)" using assms by (simp add: inv_defs)
  then show ?thesis using assms(2,5)
    by (simp add: handle_message_def deliver_def receiver_closed_def finish_request_def leave_request_def)
qed


section \<open>Requests and responses\<close>

text \<open>C4: Responses reach the requests they answer. Whatever callers, adapter and event receivers do in a
  session of fewer than 2 to the 61 steps, the outcomes that callers got belong to different requests, in the
  order of the requests; a response is only ever returned to the request whose number it carries; a
  request that waits is never forgotten: while the reader lives, its response, whenever it comes, is what
  the caller gets; and no receiver holds more events than its capacity.\<close>

theorem responses_reach_requests:
  assumes "(broker_step to_json ^^ n) new_broker b" and "n < 2 ^ 61"
  shows "sorted_wrt (\<lambda>s t. sint s < sint t) (map fst (bk_outcomes b))
    \<and> (\<forall>seq r. (seq, Inr r) \<in> set (bk_outcomes b) \<longrightarrow> rs_request_seq r = seq)
    \<and> (\<forall>seq r. bk_request_lock b = Waiting seq \<and> bk_channel b = None \<and> is_alive b \<and> rs_request_seq r = seq \<longrightarrow>
         bk_outcomes (finish_request seq (handle_message (Response r) b)) = bk_outcomes b @ [(seq, Inr r)])
    \<and> (\<forall>s\<in>set (bk_subscribers b). length (sub_queue s) \<le> sub_capacity s)"
proof -
  have inv: "broker_inv n b" using assms by (rule broker_inv_reach)
  then have "sorted_wrt (\<lambda>s t. sint s < sint t) (map fst (bk_outcomes b))"
    "list_all (\<lambda>(seq, out). answers seq out) (bk_outcomes b)"
    "\<forall>s\<in>set (bk_subscribers b). length (sub_queue s) \<le> sub_capacity s"
    by (simp_all add: inv_defs sorted_wrt_append list_all_iff)
  moreover from this(2) have "\<forall>seq r. (seq, Inr r) \<in> set (bk_outcomes b) \<longrightarrow> rs_request_seq r = seq"
    by (auto simp: list_all_iff answers_def)
  ultimately show ?thesis using waiting_request_answered[OF inv] by blast
qed

definition sample_request :: "unit request" where
  "sample_request = \<lparr>rq_seq = 1, rq_command = ''threads'', rq_arguments = None\<rparr>"

definition sample_response :: "unit response" where
  "sample_response = \<lparr>rs_seq = 7, rs_request_seq = 1, rs_command = ''threads'', rs_success = True,
     rs_message = None, rs_body = None\<rparr>"

definition waiting_broker :: "unit broker" where
  "waiting_broker = write_request sample_json sample_request None (begin_request ''threads'' None new_broker)"

lemma waiting_broker_fields:
  "bk_request_lock waiting_broker = Waiting 1" "bk_channel waiting_broker = None" "is_alive waiting_broker"
  "bk_outcomes waiting_broker = []"
  by (simp_all add: waiting_broker_def write_request_def send_message_def begin_request_def next_sequence_def
      new_broker_def sample_request_def is_alive_def)

lemma waiting_broker_reached: "(broker_step sample_json ^^ 2) new_broker waiting_broker"
proof -
  have "broker_step sample_json new_broker (begin_request ''threads'' None new_broker)"
    by (rule step_begin) (simp add: new_broker_def)
  moreover have "broker_step sample_json (begin_request ''threads'' None new_broker) waiting_broker"
    unfolding waiting_broker_def
    by (rule step_write) (simp add: begin_request_def next_sequence_def new_broker_def sample_request_def)
  ultimately show ?thesis by (auto simp: numeral_2_eq_2)
qed

theorem responses_reach_requests_witness:
  "bk_outcomes (finish_request 1 (handle_message (Response sample_response) waiting_broker)) = [(1, Inr sample_response)]"
  using responses_reach_requests[OF waiting_broker_reached] waiting_broker_fields
  by (simp add: sample_response_def)


section \<open>After the adapter is gone\<close>

definition failed_send :: "i64 \<times> (dap_error + 'j response) \<Rightarrow> bool" where
  "failed_send entry =
     (case snd entry of Inl (Timeout _) \<Rightarrow> True | Inl (Communication _) \<Rightarrow> True | _ \<Rightarrow> False)"

definition dead_since :: "(i64 \<times> (dap_error + 'j response)) list \<Rightarrow> 'j broker \<Rightarrow> bool" where
  "dead_since old b \<longleftrightarrow> \<not> is_alive b \<and> bk_channel b = None
     \<and> prefix old (bk_outcomes b) \<and> list_all failed_send (drop (length old) (bk_outcomes b))"

lemma dead_since_leave:
  "dead_since old b \<Longrightarrow> failed_send (seq, out) \<Longrightarrow> dead_since old (leave_request seq out b)"
  by (auto simp: dead_since_def leave_request_def is_alive_def prefix_def)

lemma dead_since_step: "broker_step to_json b b' \<Longrightarrow> dead_since old b \<Longrightarrow> dead_since old b'"
proof (induction rule: broker_step.induct)
  case (step_write b request write_error)
  then show ?case
    using dead_since_leave[OF step_write(2), of "rq_seq request"]
    by (cases write_error) (auto simp: write_request_def send_message_def failed_send_def dead_since_def is_alive_def)
next
  case (step_timeout b seq timeout_ms)
  then have "dead_since old (b\<lparr>bk_pending := removeAll seq (bk_pending b)\<rparr>)"
    by (simp add: dead_since_def is_alive_def)
  then show ?case unfolding timeout_request_def by (rule dead_since_leave) (simp add: failed_send_def)
next
  case (step_no_wait b message write_error)
  then show ?case
    by (cases write_error) (simp_all add: send_message_no_wait_def send_message_def dead_since_def is_alive_def)
qed (simp_all add: dead_since_def is_alive_def begin_request_def next_sequence_def abandon_request_def
      finish_request_def subscribe_events_def cleanup_dropped_subscribers_def cleanup_orphaned_requests_def
      receive_event_def drop_receiver_def map_subscriber_def Let_def)



end
