(* ===== verification/Output_Batching.thy ===== *)
theory Output_Batching
  imports Core_Error
begin

text \<open>
  Event outputs (\<open>detrix-ports/src/output.rs\<close>) and the wrapper that collects events and sends them in
  batches (\<open>detrix-output/src/middleware/batching.rs\<close>). An output is a state with operations that return
  a result; what it promises is a locale, and the wrapper is verified once for every output that keeps
  the promise. Times are the readings of the clock at the call.
\<close>


section \<open>Outputs\<close>

text \<open>The default of \<open>EventOutput::send_batch\<close>: one event after the other until one fails.\<close>

fun default_send_batch ::
  "('e \<Rightarrow> 'o \<Rightarrow> unit result \<times> 'o) \<Rightarrow> 'e list \<Rightarrow> 'o \<Rightarrow> unit result \<times> 'o" where
  "default_send_batch send [] out = (Inr (), out)"
| "default_send_batch send (e # es) out =
     (case send e out of
        (Inl err, out') \<Rightarrow> (Inl err, out')
      | (Inr _, out') \<Rightarrow> default_send_batch send es out')"


section \<open>Batching\<close>

record batching_config =
  bc_batch_size :: nat
  bc_flush_interval :: "nat option"

record 'e batch_buffer =
  bb_events :: "'e list"
  bb_last_flush :: nat

record ('e, 'o) batching_output =
  bo_inner :: 'o
  bo_config :: batching_config
  bo_buffer :: "'e batch_buffer"
  bo_batches_sent :: u64
  bo_events_buffered :: u64

definition batching_new :: "nat \<Rightarrow> 'o \<Rightarrow> batching_config \<Rightarrow> ('e, 'o) batching_output" where
  "batching_new now inner config =
     \<lparr>bo_inner = inner, bo_config = config, bo_buffer = \<lparr>bb_events = [], bb_last_flush = now\<rparr>,
      bo_batches_sent = 0, bo_events_buffered = 0\<rparr>"

definition should_flush :: "nat \<Rightarrow> batching_config \<Rightarrow> 'e batch_buffer \<Rightarrow> bool" where
  "should_flush now config buffer =
     (bc_batch_size config \<le> length (bb_events buffer)
      \<or> (case bc_flush_interval config of
           None \<Rightarrow> False
         | Some interval \<Rightarrow> interval \<le> now - bb_last_flush buffer \<and> bb_events buffer \<noteq> []))"

definition do_flush ::
  "('e list \<Rightarrow> 'o \<Rightarrow> unit result \<times> 'o) \<Rightarrow> nat \<Rightarrow> ('e, 'o) batching_output
    \<Rightarrow> unit result \<times> ('e, 'o) batching_output" where
  "do_flush send_batch now b =
     (if bb_events (bo_buffer b) = [] then (Inr (), b)
      else let (r, inner) = send_batch (bb_events (bo_buffer b)) (bo_inner b);
               b = b\<lparr>bo_inner := inner, bo_buffer := \<lparr>bb_events = [], bb_last_flush = now\<rparr>\<rparr>
           in case r of
                Inl err \<Rightarrow> (Inl err, b)
              | Inr _ \<Rightarrow> (Inr (), b\<lparr>bo_batches_sent := bo_batches_sent b + 1\<rparr>))"

definition batching_send_batch ::
  "('e list \<Rightarrow> 'o \<Rightarrow> unit result \<times> 'o) \<Rightarrow> nat \<Rightarrow> 'e list \<Rightarrow> ('e, 'o) batching_output
    \<Rightarrow> unit result \<times> ('e, 'o) batching_output" where
  "batching_send_batch send_batch now es b =
     (let buffer = bo_buffer b;
          b = b\<lparr>bo_buffer := buffer\<lparr>bb_events := bb_events buffer @ es\<rparr>,
                bo_events_buffered := bo_events_buffered b + of_nat (length es)\<rparr>
      in if should_flush now (bo_config b) (bo_buffer b) then do_flush send_batch now b else (Inr (), b))"

definition batching_send ::
  "('e list \<Rightarrow> 'o \<Rightarrow> unit result \<times> 'o) \<Rightarrow> nat \<Rightarrow> 'e \<Rightarrow> ('e, 'o) batching_output
    \<Rightarrow> unit result \<times> ('e, 'o) batching_output" where
  "batching_send send_batch now e b =
     (let buffer = bo_buffer b;
          b = b\<lparr>bo_buffer := buffer\<lparr>bb_events := bb_events buffer @ [e]\<rparr>,
                bo_events_buffered := bo_events_buffered b + 1\<rparr>
      in if should_flush now (bo_config b) (bo_buffer b) then do_flush send_batch now b else (Inr (), b))"

definition batching_flush ::
  "('e list \<Rightarrow> 'o \<Rightarrow> unit result \<times> 'o) \<Rightarrow> ('o \<Rightarrow> unit result \<times> 'o) \<Rightarrow> nat \<Rightarrow> ('e, 'o) batching_output
    \<Rightarrow> unit result \<times> ('e, 'o) batching_output" where
  "batching_flush send_batch flush now b =
     (case do_flush send_batch now b of
        (Inl err, b) \<Rightarrow> (Inl err, b)
      | (Inr _, b) \<Rightarrow> (let (r, inner) = flush (bo_inner b) in (r, b\<lparr>bo_inner := inner\<rparr>)))"

text \<open>The calls of a client, each with the time it is made.\<close>

datatype 'e batching_call = CallSend nat 'e | CallSendBatch nat "'e list" | CallFlush nat

fun call_batching ::
  "('e list \<Rightarrow> 'o \<Rightarrow> unit result \<times> 'o) \<Rightarrow> ('o \<Rightarrow> unit result \<times> 'o) \<Rightarrow> 'e batching_call
    \<Rightarrow> ('e, 'o) batching_output \<Rightarrow> unit result \<times> ('e, 'o) batching_output" where
  "call_batching send_batch flush (CallSend now e) b = batching_send send_batch now e b"
| "call_batching send_batch flush (CallSendBatch now es) b = batching_send_batch send_batch now es b"
| "call_batching send_batch flush (CallFlush now) b = batching_flush send_batch flush now b"

fun run_batching ::
  "('e list \<Rightarrow> 'o \<Rightarrow> unit result \<times> 'o) \<Rightarrow> ('o \<Rightarrow> unit result \<times> 'o) \<Rightarrow> 'e batching_call list
    \<Rightarrow> ('e, 'o) batching_output \<Rightarrow> unit result list \<times> ('e, 'o) batching_output" where
  "run_batching send_batch flush [] b = ([], b)"
| "run_batching send_batch flush (c # cs) b =
     (let (r, b) = call_batching send_batch flush c b;
          (rs, b) = run_batching send_batch flush cs b
      in (r # rs, b))"

fun submitted :: "'e batching_call \<Rightarrow> 'e list" where
  "submitted (CallSend _ e) = [e]"
| "submitted (CallSendBatch _ es) = es"
| "submitted (CallFlush _) = []"


section \<open>The promise of an output\<close>

text \<open>\<open>accepted\<close> are the events the output has taken over, in order. A batch is taken over from its front,
  and completely when the output reports success.\<close>

locale event_output =
  fixes send_batch :: "'e list \<Rightarrow> 'o \<Rightarrow> unit result \<times> 'o"
    and flush :: "'o \<Rightarrow> unit result \<times> 'o"
    and accepted :: "'o \<Rightarrow> 'e list"
  assumes send_batch_accepts: "send_batch es out = (r, out') \<Longrightarrow>
      \<exists>k. accepted out' = accepted out @ take k es \<and> (r = Inr () \<longrightarrow> length es \<le> k)"
    and flush_keeps: "flush out = (r, out') \<Longrightarrow> accepted out' = accepted out"
begin

text \<open>What one call does to the events: those taken over and those still buffered come, in order, from those
  that were buffered before and those of the call; none is missing unless the call reports an error.\<close>

definition moves :: "'e list \<Rightarrow> unit result \<Rightarrow> ('e, 'o) batching_output \<Rightarrow> ('e, 'o) batching_output \<Rightarrow> bool" where
  "moves new r b b' \<longleftrightarrow>
     (\<exists>kept. accepted (bo_inner b') = accepted (bo_inner b) @ kept
        \<and> subseq (kept @ bb_events (bo_buffer b')) (bb_events (bo_buffer b) @ new)
        \<and> (r = Inr () \<longrightarrow> kept @ bb_events (bo_buffer b') = bb_events (bo_buffer b) @ new))
     \<and> bo_config b' = bo_config b
     \<and> (bb_events (bo_buffer b') = [] \<or> length (bb_events (bo_buffer b')) < bc_batch_size (bo_config b))
     \<and> (r \<noteq> Inr () \<longrightarrow> bb_events (bo_buffer b') = [])"

lemma do_flush_moves:
  assumes "do_flush send_batch now b = (r, b')"
  shows "moves [] r b b' \<and> bb_events (bo_buffer b') = []"
proof (cases "bb_events (bo_buffer b) = []")
  case True
  then show ?thesis using assms by (auto simp: do_flush_def moves_def)
next
  case False
  obtain r0 inner where sent: "send_batch (bb_events (bo_buffer b)) (bo_inner b) = (r0, inner)" by fastforce
  then obtain k where k: "accepted inner = accepted (bo_inner b) @ take k (bb_events (bo_buffer b))"
    "r0 = Inr () \<longrightarrow> length (bb_events (bo_buffer b)) \<le> k" using send_batch_accepts by blast
  have "subseq (take k (bb_events (bo_buffer b))) (bb_events (bo_buffer b))"
    by (rule prefix_imp_subseq[OF take_is_prefix])
  then show ?thesis using False assms sent k
    by (auto simp: do_flush_def moves_def Let_def split: sum.splits)
qed

text \<open>Buffering events first and then flushing, or not.\<close>

lemma buffered_moves:
  fixes b :: "('e, 'o) batching_output"
  assumes "c = b\<lparr>bo_buffer := (bo_buffer b)\<lparr>bb_events := bb_events (bo_buffer b) @ new\<rparr>, bo_events_buffered := n\<rparr>"
    and "(if should_flush now (bo_config c) (bo_buffer c) then do_flush send_batch now c else (Inr (), c)) = (r, b')"
  shows "moves new r b b'"
proof (cases "should_flush now (bo_config c) (bo_buffer c)")
  case True
  then have "moves [] r c b'" using do_flush_moves[of now c r b'] assms(2) by simp
  then show ?thesis by (simp add: moves_def assms(1))
next
  case False
  then have "length (bb_events (bo_buffer c)) < bc_batch_size (bo_config c)"
    by (simp add: should_flush_def)
  then show ?thesis using assms False by (auto simp: moves_def)
qed

lemma batching_flush_moves:
  assumes "batching_flush send_batch flush now b = (r, b')"
  shows "moves [] r b b'"
proof -
  obtain r0 c where flushed: "do_flush send_batch now b = (r0, c)" by fastforce
  obtain r1 inner where inner: "flush (bo_inner c) = (r1, inner)" by fastforce
  have "moves [] r0 b c" "bb_events (bo_buffer c) = []" using do_flush_moves[OF flushed] by simp_all
  then show ?thesis using assms flush_keeps[OF inner]
    by (cases r0) (auto simp: batching_flush_def flushed inner moves_def)
qed

lemma call_moves:
  assumes "call_batching send_batch flush c b = (r, b')"
  shows "moves (submitted c) r b b'"
proof (cases c)
  case (CallFlush now)
  then show ?thesis using assms batching_flush_moves by simp
qed (use assms in \<open>auto simp: batching_send_def batching_send_batch_def Let_def intro: buffered_moves[OF refl]\<close>)

lemma run_moves:
  assumes "run_batching send_batch flush cs b = (rs, b')"
    and "bb_events (bo_buffer b) = [] \<or> length (bb_events (bo_buffer b)) < bc_batch_size (bo_config b)"
  shows "\<exists>kept. accepted (bo_inner b') = accepted (bo_inner b) @ kept
        \<and> subseq (kept @ bb_events (bo_buffer b')) (bb_events (bo_buffer b) @ concat (map submitted cs))
        \<and> (list_all (\<lambda>r. r = Inr ()) rs \<longrightarrow>
             kept @ bb_events (bo_buffer b') = bb_events (bo_buffer b) @ concat (map submitted cs))
        \<and> bo_config b' = bo_config b
        \<and> (bb_events (bo_buffer b') = [] \<or> length (bb_events (bo_buffer b')) < bc_batch_size (bo_config b))"
  using assms
proof (induction cs arbitrary: b rs)
  case Nil
  then show ?case by auto
next
  case (Cons c cs)
  obtain r d where call: "call_batching send_batch flush c b = (r, d)" by fastforce
  obtain rs' where rs: "rs = r # rs'" and rest: "run_batching send_batch flush cs d = (rs', b')"
    using Cons.prems(1) by (auto simp: call split: prod.splits)
  from call_moves[OF call] obtain kept where kept: "accepted (bo_inner d) = accepted (bo_inner b) @ kept"
    "subseq (kept @ bb_events (bo_buffer d)) (bb_events (bo_buffer b) @ submitted c)"
    "r = Inr () \<longrightarrow> kept @ bb_events (bo_buffer d) = bb_events (bo_buffer b) @ submitted c"
    and d: "bo_config d = bo_config b"
      "bb_events (bo_buffer d) = [] \<or> length (bb_events (bo_buffer d)) < bc_batch_size (bo_config d)"
    unfolding moves_def by auto
  from Cons.IH[OF rest d(2)] obtain more where more: "accepted (bo_inner b') = accepted (bo_inner d) @ more"
    "subseq (more @ bb_events (bo_buffer b')) (bb_events (bo_buffer d) @ concat (map submitted cs))"
    "list_all (\<lambda>r. r = Inr ()) rs' \<longrightarrow>
       more @ bb_events (bo_buffer b') = bb_events (bo_buffer d) @ concat (map submitted cs)"
    and b': "bo_config b' = bo_config d"
      "bb_events (bo_buffer b') = [] \<or> length (bb_events (bo_buffer b')) < bc_batch_size (bo_config d)" by blast
  have "subseq (kept @ more @ bb_events (bo_buffer b')) (kept @ bb_events (bo_buffer d) @ concat (map submitted cs))"
    using more(2) by (simp add: subseq_append')
  moreover have "subseq ((kept @ bb_events (bo_buffer d)) @ concat (map submitted cs))
      ((bb_events (bo_buffer b) @ submitted c) @ concat (map submitted cs))"
    unfolding subseq_append using kept(2) .
  ultimately have "subseq ((kept @ more) @ bb_events (bo_buffer b')) (bb_events (bo_buffer b) @ concat (map submitted (c # cs)))"
    by (simp add: subseq_order.trans)
  then show ?case
    using kept more b' d by (intro exI[of _ "kept @ more"]) (auto simp: rs)
qed

lemma failed_call_empties:
  "isl (fst (call_batching send_batch flush c b))
    \<Longrightarrow> bb_events (bo_buffer (snd (call_batching send_batch flush c b))) = []"
  using call_moves[of c b "fst (call_batching send_batch flush c b)" "snd (call_batching send_batch flush c b)"]
  by (auto simp: moves_def)

end

text \<open>An output that only sends single events promises the same for the default batch.\<close>

locale event_sender =
  fixes send :: "'e \<Rightarrow> 'o \<Rightarrow> unit result \<times> 'o"
    and flush :: "'o \<Rightarrow> unit result \<times> 'o"
    and accepted :: "'o \<Rightarrow> 'e list"
  assumes send_accepts: "send e out = (r, out') \<Longrightarrow>
      accepted out' = accepted out @ (if r = Inr () then [e] else [])"
    and sender_flush_keeps: "flush out = (r, out') \<Longrightarrow> accepted out' = accepted out"
begin

lemma default_batch_accepts:
  "default_send_batch send es out = (r, out') \<Longrightarrow>
    \<exists>k. accepted out' = accepted out @ take k es \<and> (r = Inr () \<longrightarrow> length es \<le> k)"
proof (induction es arbitrary: out)
  case (Cons e es)
  obtain r0 mid where sent: "send e out = (r0, mid)" by fastforce
  show ?case
  proof (cases r0)
    case (Inl err)
    then show ?thesis using Cons.prems send_accepts[OF sent] by (intro exI[of _ 0]) (auto simp: sent)
  next
    case (Inr u)
    then obtain k where "accepted out' = accepted mid @ take k es" "r = Inr () \<longrightarrow> length es \<le> k"
      using Cons by (auto simp: sent)
    then show ?thesis using send_accepts[OF sent] Inr by (intro exI[of _ "Suc k"]) simp
  qed
qed auto

end

sublocale event_sender \<subseteq> batched: event_output "default_send_batch send" flush accepted
  by unfold_locales (fact default_batch_accepts, fact sender_flush_keeps)

end
