(* ===== verification/Gelf_Output.thy ===== *)
theory Gelf_Output
  imports Output_Batching Core_Event Rust_Bytes Rust_Floats "HOL-Library.AList" "HOL-Library.Multiset"
begin

text \<open>
  The GELF output over UDP (\<open>detrix-output/src/gelf/message.rs\<close>, \<open>udp.rs\<close>): the message of an event, its
  datagram or its chunks, and the counters. JSON printing and compression are parameters. The state has,
  beside the fields of the output, the datagrams handed to the network and the events whose sending
  succeeded, the answers the socket is going to give and the random message identifiers to come. What a
  GELF receiver does with the datagrams of a message is written down after the protocol, and the
  output is an instance of the promise that batching relies on.
\<close>


section \<open>Messages\<close>

datatype gelf_level = Emergency | Alert | Critical | Error | Warning | Notice | Informational | Debug

primrec level_code :: "gelf_level \<Rightarrow> u8" where
  "level_code Emergency = 0"
| "level_code Alert = 1"
| "level_code Critical = 2"
| "level_code Error = 3"
| "level_code Warning = 4"
| "level_code Notice = 5"
| "level_code Informational = 6"
| "level_code Debug = 7"

text \<open>The JSON values of custom fields; a number that is not finite becomes null.\<close>

datatype gelf_value = GNull | GUint nat | GNumber f64 | GText string | GBool bool

definition json_f64 :: "f64 \<Rightarrow> gelf_value" where
  "json_f64 x = (if drop_bit 52 (take_bit 63 (unat x)) = 0x7FF then GNull else GNumber x)"

record gelf_message =
  gm_version :: string
  gm_host :: string
  gm_short_message :: string
  gm_full_message :: "string option"
  gm_timestamp :: rat
  gm_level :: u8
  gm_metric_id :: u64
  gm_metric_name :: string
  gm_connection_id :: string
  gm_value_json :: string
  gm_thread_name :: "string option"
  gm_thread_id :: "i64 option"
  gm_is_error :: bool
  gm_error_type :: "string option"
  gm_error_message :: "string option"
  gm_request_id :: "string option"
  gm_extra_fields :: "(string \<times> gelf_value) list"

definition expr_key :: "nat \<Rightarrow> string \<Rightarrow> string" where
  "expr_key i ending = ''_expr_'' @ show_nat i @ ending"

definition expression_fields :: "nat \<Rightarrow> expression_value \<Rightarrow> (string \<times> gelf_value) list" where
  "expression_fields i v =
     [(expr_key i ''_name'', GText (xv_expression v)), (expr_key i ''_value'', GText (xv_value_json v))]
     @ (case xv_typed_value v of
          Some (Numeric n) \<Rightarrow> [(expr_key i ''_numeric'', json_f64 n)]
        | Some (Text s) \<Rightarrow> [(expr_key i ''_string'', GText s)]
        | Some (Boolean b) \<Rightarrow> [(expr_key i ''_boolean'', GBool b)]
        | None \<Rightarrow> [])"

definition from_event :: "metric_event \<Rightarrow> string option \<Rightarrow> gelf_message" where
  "from_event event host =
     (let new_fields = concat (map (\<lambda>(i, v). expression_fields i v) (enumerate 0 (ev_values event)));
          extra_fields = fold (\<lambda>(k, v). AList.update k v) new_fields
             [(''_expression_count'', GUint (length (ev_values event)))]
      in \<lparr>gm_version = ''1.1'',
          gm_host = (case host of None \<Rightarrow> ''detrix'' | Some h \<Rightarrow> h),
          gm_short_message = ''Metric: '' @ ev_metric_name event,
          gm_full_message = Some (ev_metric_name event @ '' (connection: '' @ ev_connection_id event @ '')''),
          gm_timestamp = f64_round (f64_round (of_int (sint (ev_timestamp event))) / 1000000),
          gm_level = level_code (if ev_is_error event then Error else Informational),
          gm_metric_id = ev_metric_id event,
          gm_metric_name = ev_metric_name event,
          gm_connection_id = ev_connection_id event,
          gm_value_json = value_json event,
          gm_thread_name = ev_thread_name event,
          gm_thread_id = ev_thread_id event,
          gm_is_error = ev_is_error event,
          gm_error_type = ev_error_type event,
          gm_error_message = ev_error_message event,
          gm_request_id = ev_request_id event,
          gm_extra_fields = extra_fields\<rparr>)"


section \<open>The output\<close>

definition MAX_GELF_UDP_MESSAGE_SIZE :: nat where "MAX_GELF_UDP_MESSAGE_SIZE = 8192"
definition GELF_CHUNK_MAGIC :: "u8 list" where "GELF_CHUNK_MAGIC = [0x1e, 0x0f]"
definition GELF_CHUNK_HEADER_SIZE :: nat where "GELF_CHUNK_HEADER_SIZE = 12"
definition GELF_CHUNK_DATA_SIZE :: nat where
  "GELF_CHUNK_DATA_SIZE = MAX_GELF_UDP_MESSAGE_SIZE - GELF_CHUNK_HEADER_SIZE"
definition GELF_MAX_CHUNKS :: nat where "GELF_MAX_CHUNKS = 128"

lemmas gelf_constants = MAX_GELF_UDP_MESSAGE_SIZE_def GELF_CHUNK_MAGIC_def GELF_CHUNK_HEADER_SIZE_def
  GELF_CHUNK_DATA_SIZE_def GELF_MAX_CHUNKS_def

record gelf_udp_config =
  uc_address :: string
  uc_source_host :: "string option"
  uc_compress :: bool
  uc_compression_level :: u32
  uc_enable_chunking :: bool

record gelf_udp_output =
  gu_config :: gelf_udp_config
  gu_bound :: bool
  gu_connected :: bool
  gu_events_sent :: u64
  gu_events_failed :: u64
  gu_bytes_sent :: u64
  gu_socket_answers :: "string option list"
  gu_message_ids :: "u8 list list"
  gu_datagrams :: "u8 list list"
  gu_accepted :: "metric_event list"

text \<open>\<open>address_error\<close> is the failure of parsing the address, if it fails.\<close>

definition udp_new ::
  "string option list \<Rightarrow> u8 list list \<Rightarrow> string option \<Rightarrow> gelf_udp_config \<Rightarrow> gelf_udp_output result" where
  "udp_new answers ids address_error config =
     (case address_error of
        Some e \<Rightarrow> Inl (Output (''Invalid address '' @ [CHR 0x27] @ uc_address config @ [CHR 0x27] @ '': '' @ e))
      | None \<Rightarrow>
          Inr \<lparr>gu_config = config, gu_bound = False, gu_connected = False, gu_events_sent = 0,
               gu_events_failed = 0, gu_bytes_sent = 0, gu_socket_answers = answers, gu_message_ids = ids,
               gu_datagrams = [], gu_accepted = []\<rparr>)"

definition udp_bind :: "string option \<Rightarrow> gelf_udp_output \<Rightarrow> unit result \<times> gelf_udp_output" where
  "udp_bind bind_error out =
     (case bind_error of
        Some e \<Rightarrow> (Inl (Output (''Failed to bind UDP socket: '' @ e)), out)
      | None \<Rightarrow> (Inr (), out\<lparr>gu_bound := True, gu_connected := True\<rparr>))"

definition udp_send_bytes :: "u8 list \<Rightarrow> gelf_udp_output \<Rightarrow> unit result \<times> gelf_udp_output" where
  "udp_send_bytes bytes out =
     (if \<not> gu_bound out then (Inl (Output ''UDP socket not bound''), out)
      else case gu_socket_answers out of
        Some e # answers \<Rightarrow> (Inl (Output (''UDP send failed: '' @ e)), out\<lparr>gu_socket_answers := answers\<rparr>)
      | answers \<Rightarrow>
          (Inr (), out\<lparr>gu_socket_answers := tl answers, gu_datagrams := gu_datagrams out @ [bytes],
                     gu_bytes_sent := gu_bytes_sent out + of_nat (length bytes)\<rparr>))"

text \<open>\<open>slice::chunks\<close>.\<close>

function chunks :: "nat \<Rightarrow> 'a list \<Rightarrow> 'a list list" where
  "chunks n xs = (if xs = [] \<or> n = 0 then [] else take n xs # chunks n (drop n xs))"
  by pat_completeness auto
termination
  by (relation "measure (\<lambda>(n, xs). length xs)") auto

declare chunks.simps [simp del]

definition chunk :: "u8 list \<Rightarrow> nat \<Rightarrow> nat \<Rightarrow> u8 list \<Rightarrow> u8 list" where
  "chunk message_id chunk_count seq_num chunk_data =
     GELF_CHUNK_MAGIC @ message_id @ [of_nat seq_num] @ [of_nat chunk_count] @ chunk_data"

definition create_chunks :: "u8 list \<Rightarrow> gelf_udp_output \<Rightarrow> u8 list list result \<times> gelf_udp_output" where
  "create_chunks data out =
     (let chunk_count = (length data + GELF_CHUNK_DATA_SIZE - 1) div GELF_CHUNK_DATA_SIZE
      in if GELF_MAX_CHUNKS < chunk_count
         then (Inl (Output (''Message too large: requires '' @ show_nat chunk_count @ '' chunks (max ''
                 @ show_nat GELF_MAX_CHUNKS @ ''). Consider using TCP transport.'')), out)
         else let message_id = (case gu_message_ids out of [] \<Rightarrow> replicate 8 0 | i # _ \<Rightarrow> i)
              in (Inr (map (\<lambda>(seq_num, chunk_data). chunk message_id chunk_count seq_num chunk_data)
                         (enumerate 0 (chunks GELF_CHUNK_DATA_SIZE data))),
                  out\<lparr>gu_message_ids := tl (gu_message_ids out)\<rparr>))"

definition send_chunked :: "u8 list \<Rightarrow> gelf_udp_output \<Rightarrow> unit result \<times> gelf_udp_output" where
  "send_chunked data out =
     (case create_chunks data out of
        (Inl err, out) \<Rightarrow> (Inl err, out)
      | (Inr cs, out) \<Rightarrow> default_send_batch udp_send_bytes cs out)"

text \<open>The encoder answers twice, when the data is written and when it finishes.\<close>

definition compress_data ::
  "(u32 \<Rightarrow> u8 list \<Rightarrow> string + (string + u8 list)) \<Rightarrow> gelf_udp_config \<Rightarrow> u8 list \<Rightarrow> u8 list result" where
  "compress_data gzip config data =
     (case gzip (uc_compression_level config) data of
        Inl e \<Rightarrow> Inl (Output (''Compression failed: '' @ e))
      | Inr (Inl e) \<Rightarrow> Inl (Output (''Compression finalize failed: '' @ e))
      | Inr (Inr bytes) \<Rightarrow> Inr bytes)"

text \<open>The bytes of an event: its JSON, compressed if so configured.\<close>

definition wire_bytes ::
  "(gelf_message \<Rightarrow> string + u8 list) \<Rightarrow> (u32 \<Rightarrow> u8 list \<Rightarrow> string + (string + u8 list)) \<Rightarrow> gelf_udp_config
    \<Rightarrow> metric_event \<Rightarrow> u8 list result" where
  "wire_bytes to_json gzip config event =
     (case to_json (from_event event (uc_source_host config)) of
        Inl e \<Rightarrow> Inl (Output (''Serialization failed: '' @ e))
      | Inr json \<Rightarrow>
          if uc_compress config
          then compress_data gzip config json
          else Inr json)"

definition udp_send ::
  "(gelf_message \<Rightarrow> string + u8 list) \<Rightarrow> (u32 \<Rightarrow> u8 list \<Rightarrow> string + (string + u8 list))
    \<Rightarrow> metric_event \<Rightarrow> gelf_udp_output \<Rightarrow> unit result \<times> gelf_udp_output" where
  "udp_send to_json gzip event out =
     (case wire_bytes to_json gzip (gu_config out) event of
        Inl err \<Rightarrow> (Inl err, out)
      | Inr bytes \<Rightarrow>
          if MAX_GELF_UDP_MESSAGE_SIZE < length bytes \<and> \<not> uc_enable_chunking (gu_config out)
          then (Inl (Output (''Message too large for UDP: '' @ show_nat (length bytes) @ '' bytes (max ''
                  @ show_nat MAX_GELF_UDP_MESSAGE_SIZE @ ''). Enable chunking or use TCP.'')), out)
          else (case (if MAX_GELF_UDP_MESSAGE_SIZE < length bytes then send_chunked bytes out
                      else udp_send_bytes bytes out) of
                  (Inr _, out) \<Rightarrow>
                    (Inr (), out\<lparr>gu_events_sent := gu_events_sent out + 1, gu_accepted := gu_accepted out @ [event]\<rparr>)
                | (Inl err, out) \<Rightarrow> (Inl err, out\<lparr>gu_events_failed := gu_events_failed out + 1\<rparr>)))"

definition udp_flush :: "gelf_udp_output \<Rightarrow> unit result \<times> gelf_udp_output" where
  "udp_flush out = (Inr (), out)"


section \<open>The receiver\<close>

text \<open>A GELF server takes a datagram without the magic bytes as a message of its own. It collects the chunks
  of one message, which may arrive in any order, until all numbers are there, and joins their data.\<close>

definition reassemble :: "u8 list list \<Rightarrow> u8 list option" where
  "reassemble ds =
     (if ds = [] then None
      else if take 2 (hd ds) \<noteq> GELF_CHUNK_MAGIC then (if length ds = 1 then Some (hd ds) else None)
      else let d = hd ds;
               n = unat (d ! 11);
               parts = map (\<lambda>i. find (\<lambda>c. take 10 c = take 10 d \<and> unat (c ! 10) = i \<and> unat (c ! 11) = n) ds) [0..<n]
           in if length ds = n \<and> list_all (\<lambda>p. p \<noteq> None) parts
              then Some (concat (map (\<lambda>p. drop 12 (the p)) parts)) else None)"


section \<open>Message fields\<close>

lemma digits_then_mark: "list_all is_digit d \<Longrightarrow> takeWhile is_digit (d @ CHR ''_'' # x) = d"
  by (induction d) (simp_all add: is_digit_def byte_of_def)

lemma expr_key_eq: "expr_key i (CHR ''_'' # x) = expr_key j (CHR ''_'' # y) \<longleftrightarrow> i = j \<and> x = y"
proof
  assume "expr_key i (CHR ''_'' # x) = expr_key j (CHR ''_'' # y)"
  then have keys: "show_nat i @ CHR ''_'' # x = show_nat j @ CHR ''_'' # y" by (simp add: expr_key_def)
  from arg_cong[OF keys, of "takeWhile is_digit"] have "i = j" by (simp add: digits_then_mark)
  then show "i = j \<and> x = y" using keys by simp
qed simp

lemma map_of_fold_update:
  assumes "(k, v) \<in> set kvs" and "\<And>w. (k, w) \<in> set kvs \<Longrightarrow> w = v"
  shows "map_of (fold (\<lambda>(k, v). AList.update k v) kvs m) k = Some v"
  using assms
proof (induction kvs rule: rev_induct)
  case (snoc kv kvs)
  obtain a w where kv: "kv = (a, w)" by fastforce
  have members: "set (kvs @ [kv]) = insert (a, w) (set kvs)" by (simp add: kv)
  show ?case
  proof (cases "a = k")
    case True
    then have "w = v" using snoc.prems(2)[of w] unfolding members by blast
    then show ?thesis using True by (simp add: kv update_conv')
  next
    case False
    have "map_of (fold (\<lambda>(k, v). AList.update k v) kvs m) k = Some v"
      using snoc.prems False unfolding members by (intro snoc.IH) blast+
    then show ?thesis using False by (simp add: kv update_conv')
  qed
qed simp

text \<open>Every value of an event is found in its message under the number of its expression.\<close>

lemma message_has_values:
  assumes "i < length (ev_values event)"
  shows "map_of (gm_extra_fields (from_event event host)) (expr_key i ''_name'')
      = Some (GText (xv_expression (ev_values event ! i)))"
    and "map_of (gm_extra_fields (from_event event host)) (expr_key i ''_value'')
      = Some (GText (xv_value_json (ev_values event ! i)))"
proof -
  let ?kvs = "concat (map (\<lambda>(i, v). expression_fields i v) (enumerate 0 (ev_values event)))"
  let ?v = "ev_values event ! i"
  have kvs: "kv \<in> set ?kvs \<longleftrightarrow> (\<exists>j < length (ev_values event). kv \<in> set (expression_fields j (ev_values event ! j)))" for kv
    by (force simp: in_set_enumerate_eq)
  have own: "(expr_key i ''_name'', w) \<in> set (expression_fields j u) \<longleftrightarrow> i = j \<and> w = GText (xv_expression u)"
    "(expr_key i ''_value'', w) \<in> set (expression_fields j u) \<longleftrightarrow> i = j \<and> w = GText (xv_value_json u)" for j u w
    by (cases "xv_typed_value u"; cases "the (xv_typed_value u)"; auto simp: expression_fields_def expr_key_eq)+
  have found: "map_of (gm_extra_fields (from_event event host)) k = Some w"
    if "\<And>u. (k, u) \<in> set ?kvs \<longleftrightarrow> u = w" for k w
    unfolding from_event_def Let_def gelf_message.select_convs
    using that by (intro map_of_fold_update) blast+
  show "map_of (gm_extra_fields (from_event event host)) (expr_key i ''_name'') = Some (GText (xv_expression ?v))"
    by (rule found) (unfold kvs own, use assms in blast)
  show "map_of (gm_extra_fields (from_event event host)) (expr_key i ''_value'') = Some (GText (xv_value_json ?v))"
    by (rule found) (unfold kvs own, use assms in blast)
qed


section \<open>Chunks\<close>

lemma chunks_Nil [simp]: "chunks n [] = []"
  by (subst chunks.simps) simp

lemma concat_chunks: "0 < n \<Longrightarrow> concat (chunks n xs) = xs"
proof (induction n xs rule: chunks.induct)
  case (1 n xs)
  then show ?case by (cases "xs = []") (subst chunks.simps, simp)+
qed

lemma chunks_bounded: "c \<in> set (chunks n xs) \<Longrightarrow> length c \<le> n"
proof (induction n xs rule: chunks.induct)
  case (1 n xs)
  then show ?case by (subst (asm) (2) chunks.simps) (auto split: if_splits)
qed

lemma length_chunks: "0 < n \<Longrightarrow> length (chunks n xs) = (length xs + n - 1) div n"
proof (induction n xs rule: chunks.induct)
  case (1 n xs)
  show ?case
  proof (cases "xs = []")
    case False
    obtain m where m: "length xs = Suc m" using False by (cases xs) auto
    have "(length xs + n - 1) div n = Suc (m div n)" using 1(2) by (simp add: m)
    moreover have "(length xs - n + n - 1) div n = m div n"
      using 1(2) by (cases "n \<le> length xs") (simp_all add: m not_le)
    ultimately show ?thesis using False 1 by (subst chunks.simps) simp
  qed (use 1(2) in simp)
qed

lemma find_unique:
  assumes "x \<in> set xs" "P x" "\<And>y. y \<in> set xs \<Longrightarrow> P y \<Longrightarrow> y = x"
  shows "find P xs = Some x"
proof -
  obtain y where y: "find P xs = Some y" using assms(1,2) by (cases "find P xs") (auto simp: find_None_iff)
  then have "y \<in> set xs" "P y" by (auto simp: find_Some_iff)
  then show ?thesis using assms(3) y by simp
qed

lemma chunk_parts:
  assumes "length message_id = 8" and "i < 256" and "n < 256"
  shows "take 10 (chunk message_id n i c) = GELF_CHUNK_MAGIC @ message_id"
    and "unat (chunk message_id n i c ! 10) = i" and "unat (chunk message_id n i c ! 11) = n"
    and "drop 12 (chunk message_id n i c) = c" and "take 2 (chunk message_id n i c) = GELF_CHUNK_MAGIC"
    and "length (chunk message_id n i c) = 12 + length c"
proof -
  have "unat (of_nat i :: u8) = i" "unat (of_nat n :: u8) = n"
    using assms by (simp_all add: unat_of_nat take_bit_nat_eq_self)
  then show "take 10 (chunk message_id n i c) = GELF_CHUNK_MAGIC @ message_id"
    "unat (chunk message_id n i c ! 10) = i" "unat (chunk message_id n i c ! 11) = n"
    "drop 12 (chunk message_id n i c) = c" "take 2 (chunk message_id n i c) = GELF_CHUNK_MAGIC"
    "length (chunk message_id n i c) = 12 + length c"
    using assms(1) by (simp_all add: chunk_def gelf_constants nth_append nth_Cons')
qed

text \<open>The chunks of a message, in any order, give back its data.\<close>

lemma chunks_reassemble:
  assumes "length message_id = 8" and "0 < length cs" and "length cs < 256"
    and "mset ds = mset (map (\<lambda>(i, c). chunk message_id (length cs) i c) (enumerate 0 cs))"
  shows "reassemble ds = Some (concat cs)"
proof -
  let ?n = "length cs"
  let ?mk = "\<lambda>i. chunk message_id ?n i (cs ! i)"
  have "map (\<lambda>(i, c). chunk message_id ?n i c) (enumerate 0 cs) = map ?mk [0..<?n]"
    by (rule nth_equalityI) (simp_all add: nth_enumerate_eq)
  then have "set ds = set (map ?mk [0..<?n])" using mset_eq_setD[OF assms(4)] by simp
  then have in_ds: "d \<in> set ds \<longleftrightarrow> (\<exists>i < ?n. d = ?mk i)" for d by auto
  have len: "length ds = ?n" using mset_eq_length[OF assms(4)] by simp
  then have ds: "ds \<noteq> []" using assms(2) by auto
  define d where "d = hd ds"
  then obtain j where j: "j < ?n" "d = ?mk j" using in_ds[of d] ds by auto
  note parts = chunk_parts[OF assms(1)]
  have d: "take 10 d = GELF_CHUNK_MAGIC @ message_id" "unat (d ! 11) = ?n" "take 2 d = GELF_CHUNK_MAGIC"
    using j parts[of j ?n "cs ! j"] assms(3) by simp_all
  have found: "find (\<lambda>c. take 10 c = take 10 d \<and> unat (c ! 10) = i \<and> unat (c ! 11) = ?n) ds = Some (?mk i)"
    if "i < ?n" for i
    using that assms(3) parts d by (intro find_unique) (auto simp: in_ds)
  let ?find = "\<lambda>i. find (\<lambda>c. take 10 c = take 10 d \<and> unat (c ! 10) = i \<and> unat (c ! 11) = ?n) ds"
  have "map (\<lambda>i. drop 12 (the (?find i))) [0..<?n] = map (\<lambda>i. drop 12 (?mk i)) [0..<?n]" using found by simp
  also have "\<dots> = cs" using parts assms(3) by (intro nth_equalityI) simp_all
  finally have joined: "map (\<lambda>i. drop 12 (the (?find i))) [0..<?n] = cs" .
  have "list_all (\<lambda>p. p \<noteq> None) (map ?find [0..<?n])" using found by (simp add: list_all_iff)
  then show ?thesis
    using len d(2,3) ds joined unfolding reassemble_def Let_def d_def[symmetric] by (simp add: comp_def)
qed


section \<open>Sending\<close>

lemma send_bytes_ok:
  "udp_send_bytes d out = (Inr u, out') \<Longrightarrow> gu_datagrams out' = gu_datagrams out @ [d]"
  by (auto simp: udp_send_bytes_def split: if_splits list.splits option.splits)

lemma send_all_ok:
  "default_send_batch udp_send_bytes ds out = (Inr u, out') \<Longrightarrow> gu_datagrams out' = gu_datagrams out @ ds"
proof (induction ds arbitrary: out)
  case (Cons d ds)
  then obtain mid where "udp_send_bytes d out = (Inr (), mid)" "default_send_batch udp_send_bytes ds mid = (Inr u, out')"
    by (auto split: prod.splits sum.splits)
  then show ?case using Cons.IH send_bytes_ok[of d out "()" mid] by simp
qed simp

text \<open>The datagrams a successful transmission adds: each fits in a packet, and in whatever order they arrive
  they give back the bytes.\<close>

definition transmits :: "u8 list \<Rightarrow> gelf_udp_output \<Rightarrow> gelf_udp_output \<Rightarrow> bool" where
  "transmits bytes out out' \<longleftrightarrow>
     (\<exists>ds. gu_datagrams out' = gu_datagrams out @ ds \<and> list_all (\<lambda>d. length d \<le> MAX_GELF_UDP_MESSAGE_SIZE) ds
        \<and> (\<forall>arrived. mset arrived = mset ds \<longrightarrow> reassemble arrived = Some bytes))"

lemma send_chunked_transmits:
  assumes "send_chunked bytes out = (Inr u, out')" and "MAX_GELF_UDP_MESSAGE_SIZE < length bytes"
    and "\<forall>i\<in>set (gu_message_ids out). length i = 8"
  shows "transmits bytes out out'"
proof -
  let ?cs = "chunks GELF_CHUNK_DATA_SIZE bytes"
  define message_id where "message_id = (case gu_message_ids out of [] \<Rightarrow> replicate 8 0 | i # _ \<Rightarrow> i)"
  let ?ds = "map (\<lambda>(i, c). chunk message_id (length ?cs) i c) (enumerate 0 ?cs)"
  have id: "length message_id = 8" using assms(3) by (simp add: message_id_def split: list.split)
  have size: "0 < GELF_CHUNK_DATA_SIZE" by (simp add: gelf_constants)
  note count = length_chunks[OF size, of bytes]
  have few: "length ?cs \<le> GELF_MAX_CHUNKS" and sent: "default_send_batch udp_send_bytes ?ds
      (out\<lparr>gu_message_ids := tl (gu_message_ids out)\<rparr>) = (Inr u, out')"
    using assms(1) unfolding send_chunked_def create_chunks_def count Let_def message_id_def
    by (auto split: if_splits)
  have "?cs \<noteq> []" using assms(2) concat_chunks[OF size, of bytes] by (auto simp: gelf_constants)
  then have "reassemble arrived = Some bytes" if "mset arrived = mset ?ds" for arrived
    using chunks_reassemble[OF id _ _ that] few concat_chunks[OF size, of bytes] by (simp add: gelf_constants)
  moreover have "list_all (\<lambda>d. length d \<le> MAX_GELF_UDP_MESSAGE_SIZE) ?ds"
  proof -
    have "length (chunk message_id (length ?cs) i c) \<le> MAX_GELF_UDP_MESSAGE_SIZE" if "c \<in> set ?cs" for i c
      using chunks_bounded[OF that] id by (simp add: chunk_def gelf_constants)
    then show ?thesis by (auto simp: list_all_iff in_set_enumerate_eq)
  qed
  ultimately show ?thesis using send_all_ok[OF sent] unfolding transmits_def by auto
qed

lemma send_single_transmits:
  assumes "udp_send_bytes bytes out = (Inr u, out')" and "length bytes \<le> MAX_GELF_UDP_MESSAGE_SIZE"
    and "take 2 bytes \<noteq> GELF_CHUNK_MAGIC"
  shows "transmits bytes out out'"
  unfolding transmits_def
  using send_bytes_ok[OF assms(1)] assms(2,3)
  by (intro exI[of _ "[bytes]"]) (auto simp: reassemble_def)

lemma udp_send_transmits:
  assumes "udp_send to_json gzip event out = (Inr (), out')"
    and "\<And>m json. to_json m = Inr json \<Longrightarrow> take 2 json \<noteq> GELF_CHUNK_MAGIC"
    and "\<And>l data bytes. gzip l data = Inr (Inr bytes) \<Longrightarrow> take 2 bytes \<noteq> GELF_CHUNK_MAGIC"
    and "\<forall>i\<in>set (gu_message_ids out). length i = 8"
  shows "\<exists>bytes. wire_bytes to_json gzip (gu_config out) event = Inr bytes \<and> transmits bytes out out'"
proof -
  obtain bytes where bytes: "wire_bytes to_json gzip (gu_config out) event = Inr bytes"
    using assms(1) by (cases "wire_bytes to_json gzip (gu_config out) event") (simp_all add: udp_send_def)
  then have "take 2 bytes \<noteq> GELF_CHUNK_MAGIC"
    using assms(2,3) by (auto simp: wire_bytes_def compress_data_def split: sum.splits if_splits)
  moreover obtain mid where
    "(if MAX_GELF_UDP_MESSAGE_SIZE < length bytes then send_chunked bytes out else udp_send_bytes bytes out) = (Inr (), mid)"
    "gu_datagrams out' = gu_datagrams mid"
    using assms(1) by (auto simp: udp_send_def bytes split: if_splits prod.splits sum.splits)
  ultimately have "transmits bytes out out'"
    using send_chunked_transmits[of bytes out "()" mid] send_single_transmits[of bytes out "()" mid] assms(4)
    by (auto simp: transmits_def split: if_splits)
  then show ?thesis using bytes by blast
qed

text \<open>C6: What the UDP output sends is what the server receives. When sending an event succeeds, the datagrams it
  adds are at most as long as a GELF packet may be, and in whatever order they arrive the server puts them
  together to the JSON of the event's message, compressed if so configured, for messages of one packet and
  for messages of up to 128 chunks. Neither JSON nor compressed data starts with the magic bytes of a
  chunk, and message identifiers have eight bytes.\<close>

theorem udp_send_delivers:
  assumes "udp_send to_json gzip event out = (Inr (), out')"
    and "\<And>m json. to_json m = Inr json \<Longrightarrow> take 2 json \<noteq> GELF_CHUNK_MAGIC"
    and "\<And>l data bytes. gzip l data = Inr (Inr bytes) \<Longrightarrow> take 2 bytes \<noteq> GELF_CHUNK_MAGIC"
    and "\<forall>i\<in>set (gu_message_ids out). length i = 8"
  shows "\<exists>bytes ds. wire_bytes to_json gzip (gu_config out) event = Inr bytes
    \<and> gu_datagrams out' = gu_datagrams out @ ds \<and> list_all (\<lambda>d. length d \<le> MAX_GELF_UDP_MESSAGE_SIZE) ds
    \<and> (\<forall>arrived. mset arrived = mset ds \<longrightarrow> reassemble arrived = Some bytes)"
  using udp_send_transmits[OF assms] unfolding transmits_def by simp

definition sample_udp :: gelf_udp_output where
  "sample_udp = \<lparr>gu_config = \<lparr>uc_address = ''h:1'', uc_source_host = None, uc_compress = False,
       uc_compression_level = 6, uc_enable_chunking = True\<rparr>, gu_bound = True, gu_connected = True,
     gu_events_sent = 0, gu_events_failed = 0, gu_bytes_sent = 0, gu_socket_answers = [],
     gu_message_ids = [[1, 2, 3, 4, 5, 6, 7, 8]], gu_datagrams = [], gu_accepted = []\<rparr>"

definition sample_to_json :: "nat \<Rightarrow> gelf_message \<Rightarrow> string + u8 list" where
  "sample_to_json n m = Inr (replicate n 0x7B)"

definition sample_gzip :: "u32 \<Rightarrow> u8 list \<Rightarrow> string + (string + u8 list)" where
  "sample_gzip l data = Inr (Inr (0x1F # 0x8B # data))"

lemma sample_chunks: "chunks 8180 (replicate 9000 (0x7B :: u8)) = [replicate 8180 0x7B, replicate 820 0x7B]"
  by (simp add: chunks.simps[of 8180 "replicate 9000 0x7B"] chunks.simps[of 8180 "replicate 820 0x7B"])

lemma sample_start: "replicate 2 (0x7B :: u8) \<noteq> GELF_CHUNK_MAGIC"
  by code_simp

theorem udp_send_delivers_witness:
  "\<exists>ds. gu_datagrams (snd (udp_send (sample_to_json 9000) sample_gzip (event_new 0 1 ''m'' ''c'' ''1'') sample_udp)) = ds
     \<and> length ds = 2 \<and> (\<forall>arrived. mset arrived = mset ds \<longrightarrow> reassemble arrived = Some (replicate 9000 0x7B))"
proof -
  let ?e = "event_new 0 1 ''m'' ''c'' ''1''"
  let ?r = "udp_send (sample_to_json 9000) sample_gzip ?e sample_udp"
  have wire: "wire_bytes (sample_to_json 9000) sample_gzip (gu_config sample_udp) ?e = Inr (replicate 9000 0x7B)"
    by (simp add: wire_bytes_def sample_to_json_def sample_udp_def)
  have ok: "fst ?r = Inr ()" "length (gu_datagrams (snd ?r)) = 2"
    by (simp_all add: udp_send_def wire_bytes_def sample_to_json_def send_chunked_def create_chunks_def gelf_constants Let_def sample_chunks
        udp_send_bytes_def sample_udp_def)
  have "take 2 json \<noteq> GELF_CHUNK_MAGIC" if "sample_to_json 9000 m = Inr json" for m json
    using that sample_start by (auto simp: sample_to_json_def)
  moreover have "take 2 bytes \<noteq> GELF_CHUNK_MAGIC" if "sample_gzip l data = Inr (Inr bytes)" for l data bytes
    using that by (auto simp: sample_gzip_def GELF_CHUNK_MAGIC_def)
  ultimately show ?thesis
    using udp_send_delivers[of "sample_to_json 9000" sample_gzip ?e sample_udp "snd ?r"] ok wire
    by (auto simp: prod_eq_iff sample_udp_def)
qed

interpretation udp: event_sender "udp_send to_json gzip" udp_flush gu_accepted
  for to_json gzip
proof
  have kept: "gu_accepted out' = gu_accepted out" if "udp_send_bytes d out = (r, out')" for d out r out'
    using that by (auto simp: udp_send_bytes_def split: if_splits list.splits option.splits)
  have all_kept: "gu_accepted out' = gu_accepted out" if "default_send_batch udp_send_bytes ds out = (r, out')" for ds out r out'
    using that kept by (induction ds arbitrary: out) (fastforce split: prod.splits sum.splits)+
  have "gu_accepted out' = gu_accepted out" if "send_chunked d out = (r, out')" for d out r out'
    using that all_kept by (fastforce simp: send_chunked_def create_chunks_def Let_def split: if_splits)
  then show "gu_accepted out' = gu_accepted out @ (if r = Inr () then [e] else [])"
    if "udp_send to_json gzip e out = (r, out')" for e out r out'
    using that kept by (fastforce simp: udp_send_def split: sum.splits if_splits prod.splits)
qed (simp add: udp_flush_def)

text \<open>C7: Batching neither loses nor duplicates nor reorders events, short of errors. Whatever calls are made to a
  batching wrapper around the UDP output, the events the output has sent and then those in the buffer are
  a subsequence of the events submitted, and all of them, in order, if no call failed. The buffer stays
  below the batch size. A call that fails leaves the buffer empty: the events of the failed batch are gone.\<close>

theorem batching_conserves:
  assumes "run_batching (default_send_batch (udp_send to_json gzip)) udp_flush calls (batching_new now out config) = (rs, b)"
  shows "\<exists>sent. gu_accepted (bo_inner b) = gu_accepted out @ sent
      \<and> subseq (sent @ bb_events (bo_buffer b)) (concat (map submitted calls))
      \<and> (list_all (\<lambda>r. r = Inr ()) rs \<longrightarrow> sent @ bb_events (bo_buffer b) = concat (map submitted calls))
      \<and> (bb_events (bo_buffer b) = [] \<or> length (bb_events (bo_buffer b)) < bc_batch_size config)
      \<and> (\<forall>c. isl (fst (call_batching (default_send_batch (udp_send to_json gzip)) udp_flush c b)) \<longrightarrow>
           bb_events (bo_buffer (snd (call_batching (default_send_batch (udp_send to_json gzip)) udp_flush c b))) = [])"
  using udp.batched.run_moves[OF assms] udp.batched.failed_call_empties
  by (auto simp: batching_new_def)

theorem batching_conserves_witness:
  "gu_accepted (bo_inner (snd (run_batching (default_send_batch (udp_send (sample_to_json 2) sample_gzip)) udp_flush
     [CallSend 0 (event_new 0 1 ''m'' ''c'' ''1''), CallFlush 1]
     (batching_new 0 sample_udp \<lparr>bc_batch_size = 5, bc_flush_interval = None\<rparr>)))) = [event_new 0 1 ''m'' ''c'' ''1'']"
proof -
  let ?e = "event_new 0 1 ''m'' ''c'' ''1''"
  let ?run = "run_batching (default_send_batch (udp_send (sample_to_json 2) sample_gzip)) udp_flush [CallSend 0 ?e, CallFlush 1]
     (batching_new 0 sample_udp \<lparr>bc_batch_size = 5, bc_flush_interval = None\<rparr>)"
  obtain rs b where run: "?run = (rs, b)" by fastforce
  then have "rs = [Inr (), Inr ()]" "bb_events (bo_buffer b) = []"
    by (auto simp: batching_send_def batching_flush_def do_flush_def should_flush_def batching_new_def udp_flush_def
        udp_send_def wire_bytes_def sample_to_json_def udp_send_bytes_def gelf_constants sample_udp_def)
  moreover have "gu_accepted sample_udp = []" by (simp add: sample_udp_def)
  ultimately have "gu_accepted (bo_inner b) = [?e]" using batching_conserves[OF run] by simp
  then show ?thesis unfolding run by simp
qed

end
