(* ===== verification/Spec2Isabelle.thy ===== *)
theory Spec2Isabelle
  imports Core_Connection Core_Event Circuit_Breakers Dap_Logpoints Vfs App_Error Metric_Sqlite Service_Anchors Ebpf_Runtime Broker_Session Gelf_Output
begin

text \<open>
  Verification of Detrix, a daemon that observes running programs: a user names an expression and a source
  line (a \<^emph>\<open>metric\<close>), the daemon checks that the expression is safe, stores the metric, has a debugger or an
  eBPF probe report the value whenever the line is reached, and sends the values to an output. The crates
  are under \<open>src/crates\<close>; this development models the parts whose behaviour is a function of their state
  and inputs, in the order a metric passes through them, and proves what each part promises to the next.


  \<^bold>\<open>Conventions.\<close> \<open>Detrix_Prelude\<close>, \<open>Rust_Bytes\<close> and \<open>Rust_Floats\<close> are the library. A machine integer is a
  word of its width and wraps as in the release profile; a \<open>usize\<close> that only counts is a natural number. A
  \<open>String\<close> is the list of its UTF-8 bytes; the string functions of the standard library that the code calls
  are defined on these bytes. \<open>Result\<close> is a sum with the error on the left, \<open>?\<close> is \<open>try_bind\<close>, and every
  early return is a branch. A hash map is an association list with \<open>AList.update\<close>; a statement never depends
  on its order. An \<open>f64\<close> is its bit pattern where it is only moved, and its exact rational value, rounded
  after each operation, where the code computes with it. The clock, the answers of sockets, of the
  debugger and of the database, and random numbers are arguments or lists of answers in the state, so a
  theorem about all states is a theorem about all failures. Tree-sitter, \<open>serde_json\<close>, SHA-256, gzip and the
  language servers are parameters; where a property needs something of them it is a hypothesis of that
  property, and its witness instantiates the parameter.


  \<^bold>\<open>Entities\<close> (\<open>detrix-core\<close>). \<open>Core_Error\<close>: error codes and classification (\<open>error.rs\<close>). \<open>Core_Metric\<close>: metrics
  with their constructors and validation, locations, languages, expressions, purity and anchors
  (\<open>entities/\<close>); purities form a semilattice. \<open>Core_Event\<close>: values and events (\<open>entities/event.rs\<close>, \<open>memory.rs\<close>). \<open>Core_Connection\<close>: connections,
  their identity and UUID, references and inactivity (\<open>connection*.rs\<close>). The lemmas show that constructors and
  setters keep the invariants, that printed locations and stored values are read back, and which different
  identities and expression lists get different hashes.


  \<^bold>\<open>Safety\<close> (\<open>detrix-application/src/safety\<close>, \<open>detrix-config/src/safety\<close>). \<open>Safety_Config\<close>: the built-in lists.
  \<open>Safety_Analysis\<close>: the walk over a syntax tree, the node handlers of Python, Go and Rust, and the cache.
  \<open>Safety_Validator\<close>: classification, the three validators, the registry, and the resolution of unknown
  functions. The locale \<open>node_handler\<close> is what the walk needs of a language; it is interpreted on the handlers
  of all three. An expression called safe has the safe form, whatever was analysed before; the cache is
  transparent.


  \<^bold>\<open>Storage\<close>. \<open>Metric_Store\<close>: the repository as its callers see it (\<open>detrix-ports/src/repository.rs\<close>).
  \<open>Metric_Sqlite\<close>: rows and statements (\<open>detrix-storage/src/sqlite\<close>), shown to implement the store by the
  locale \<open>metric_repository\<close>. \<open>Vfs\<close>: the file cache (\<open>vfs.rs\<close>); its
  synchronisation with a client, over the locale \<open>hash_cache\<close>, converges.


  \<^bold>\<open>Debugger\<close> (\<open>detrix-dap\<close>). \<open>Dap_Logpoints\<close>: how metrics become logpoints and how output is parsed back
  (\<open>base/\<close>, \<open>go.rs\<close>); the debugger holds exactly the breakpoints of the tracked metrics. \<open>Dap_Broker\<close>: framing, the
  reader task and the request table (\<open>broker.rs\<close>); framed messages are read back and the reader ends on every
  input. \<open>Broker_Session\<close>: callers, reader and subscribers in any interleaving as the step relation
  \<open>broker_step\<close>; responses reach the requests they answer, and nothing succeeds after a disconnect.


  \<^bold>\<open>Service\<close> (\<open>detrix-application/src/services\<close>). \<open>App_Error\<close>: application errors and access scopes. \<open>Service_State\<close>:
  the state of the metric service with its collaborators and an error-state monad. \<open>Metric_Service\<close>: its
  operations (\<open>metric_service/\<close>). \<open>Service_Invariants\<close> proves once, with the \<open>keeps\<close> calculus and the locale
  \<open>service_invariant\<close>, what every operation keeps; \<open>Service_Properties\<close> draws the conclusions: the state stays
  well formed, tenants are isolated, failed changes are undone, and where they are not. \<open>Anchor_Text\<close>,
  \<open>Anchor_Service\<close> and \<open>Service_Anchors\<close>: how a metric follows its line when the file changes
  (\<open>anchor_service.rs\<close>, \<open>comment_stripper.rs\<close>); the two-row edit distance is minimal over alignments, moved
  code is found again, and an unchanged file moves nothing. \<open>Circuit_Breakers\<close>: both breakers, with the
  locale \<open>breaker\<close>, and the race of two callers between load and compare-and-exchange.


  \<^bold>\<open>Probes\<close> (\<open>detrix-ebpf\<close>). \<open>Ebpf_Wire\<close>: the DRX1 envelope, a bijection with its records (\<open>wire.rs\<close>). \<open>Ebpf_Plan\<close>: the
  admission of capture plans, exact against a specification (\<open>capture_plan.rs\<close>, \<open>pc_selection.rs\<close>). \<open>Ebpf_Decode\<close>:
  decoding of payloads (\<open>decode.rs\<close>, \<open>replay.rs\<close>). \<open>Ebpf_Runtime\<close>: life cycle, ingestion and counters (\<open>runtime.rs\<close>,
  \<open>policy.rs\<close>) as \<open>runtime_step\<close>; captured payloads arrive, values have their types, records are accounted for.


  \<^bold>\<open>Outputs\<close> (\<open>detrix-output\<close>). \<open>Output_Batching\<close>: the locales \<open>event_output\<close> and \<open>event_sender\<close> are what the trait
  promises (\<open>detrix-ports/src/output.rs\<close>); batching (\<open>middleware/batching.rs\<close>) is verified once for them.
  \<open>Gelf_Output\<close>: messages, datagrams and chunks (\<open>gelf/message.rs\<close>, \<open>udp.rs\<close>); it instantiates the promise, and a
  server puts the chunks together in whatever order they arrive. Below, the parts from the debugger's output
  to the log server are put together: the values a logpoint prints are the values the server reads.


  \<^bold>\<open>Bounds and loops.\<close> No definition uses fuel. The two loops of the reader task are written as
  \<open>partial_function (option)\<close> and proved to return on every input; all other loops are total functions, by
  structural recursion or with a termination measure. Counters wrap, so the accounting of a probe runtime is stated
  for fewer than \<open>2 ^ 64\<close> operations and the order of request numbers for fewer than \<open>2 ^ 61\<close> steps; a frame
  has fewer than \<open>2 ^ 64\<close> bytes. Rounding is exact for the magnitudes that occur, between \<open>2 ^ -64\<close> and \<open>2 ^ 64\<close>.


  \<^bold>\<open>Not modelled.\<close>
  \<^item> Kernel programs, ring buffers and DWARF reading of \<open>detrix-ebpf\<close>, child processes and sockets of
    \<open>detrix-dap\<close>, \<open>detrix-lsp\<close> and \<open>detrix-agent\<close>, TCP and HTTP transports: their behaviour is that of the operating
    system and of the network library.
  \<^item> The HTTP, gRPC and MCP interfaces, generated protocol code, the command line and the terminal
    interface: they translate between a third-party format and calls that are modelled.
  \<^item> Stream routing and the extraction of expressions from diffs match regular expressions of a
    third-party library.
  \<^item> The connection service, the adapter life cycle, streaming and dead-letter recovery are background
    tasks over channels and timers; of their collaborators the broker, the repository and the breakers are
    modelled. The event, connection and reference tables of the database repeat the row conversion that
    is modelled for metrics.
  \<^item> Scope analysis walks the same trees as the safety analysis but only serves suggestions to the user.
  \<^item> Log lines, tracing and getters of statistics.
\<close>


section \<open>From the debugger to the log server\<close>

text \<open>What the server makes of the datagrams of a message: it joins them, decompresses and reads the JSON.\<close>

definition server_reads ::
  "bool \<Rightarrow> (u8 list \<Rightarrow> u8 list option) \<Rightarrow> (u8 list \<Rightarrow> gelf_message option) \<Rightarrow> u8 list list \<Rightarrow> gelf_message option" where
  "server_reads compressed gunzip read_json arrived =
     Option.bind (reassemble arrived) (\<lambda>bytes.
       Option.bind (if compressed then gunzip bytes else Some bytes) read_json)"

text \<open>A JSON library and a compression library that can be undone and do not produce the magic bytes.\<close>

definition libraries_fit ::
  "(gelf_message \<Rightarrow> string + u8 list) \<Rightarrow> (u8 list \<Rightarrow> gelf_message option)
    \<Rightarrow> (u32 \<Rightarrow> u8 list \<Rightarrow> string + (string + u8 list)) \<Rightarrow> (u8 list \<Rightarrow> u8 list option) \<Rightarrow> bool" where
  "libraries_fit to_json read_json gzip gunzip \<longleftrightarrow>
     (\<forall>m json. to_json m = Inr json \<longrightarrow> read_json json = Some m \<and> take 2 json \<noteq> GELF_CHUNK_MAGIC)
     \<and> (\<forall>l data bytes. gzip l data = Inr (Inr bytes) \<longrightarrow> gunzip bytes = Some data \<and> take 2 bytes \<noteq> GELF_CHUNK_MAGIC)"

lemma event_reaches_server:
  assumes "udp_send to_json gzip event out = (Inr (), out')"
    and "libraries_fit to_json read_json gzip gunzip" and "\<forall>i\<in>set (gu_message_ids out). length i = 8"
  shows "\<exists>ds. gu_datagrams out' = gu_datagrams out @ ds \<and> (\<forall>arrived. mset arrived = mset ds \<longrightarrow>
    server_reads (uc_compress (gu_config out)) gunzip read_json arrived
      = Some (from_event event (uc_source_host (gu_config out))))"
proof -
  obtain bytes where wire: "wire_bytes to_json gzip (gu_config out) event = Inr bytes"
    and sent: "transmits bytes out out'"
    using udp_send_transmits[OF assms(1) _ _ assms(3)] assms(2) unfolding libraries_fit_def by blast
  have "Option.bind (if uc_compress (gu_config out) then gunzip bytes else Some bytes) read_json
      = Some (from_event event (uc_source_host (gu_config out)))"
    using wire assms(2)
    by (auto simp: wire_bytes_def compress_data_def libraries_fit_def split: sum.splits if_splits)
  then show ?thesis using sent unfolding transmits_def server_reads_def by auto
qed


definition sample_tracked :: metric where
  "sample_tracked = sample_metric\<lparr>m_id := Some 4, m_expressions := [''x'', ''y'']\<rparr>"

definition sample_adapter :: dap_adapter where
  "sample_adapter = snd (dap_set_metric sample_kind sample_tracked (Reply True None None) adapter_new)"

definition sample_logpoint_event :: metric_event where
  "sample_logpoint_event = the (parse_logpoint_output sample_parser go_extract_thread_info 0
     (go_logpoint_output 7 ''m'' [''1'', ''2'']) (da_active sample_adapter))"

definition one_message_json :: "gelf_message \<Rightarrow> string + u8 list" where
  "one_message_json m = (if m = from_event sample_logpoint_event None then Inr [0x7B, 0x7D] else Inl ''other'')"

lemma sample_tracked_facts:
  "validate_name (m_name sample_tracked) = Inr ()" "printable_values [''1'', ''2'']" "adapter_wf sample_adapter"
  "map_of (da_active sample_adapter) (m_name sample_tracked) = Some sample_tracked" "m_name sample_tracked = ''m''"
  "m_id sample_tracked = Some 4" "m_expressions sample_tracked = [''x'', ''y'']"
proof -
  show name: "m_name sample_tracked = ''m''" by (simp add: sample_tracked_def sample_metric_def)
  show "m_id sample_tracked = Some 4" "m_expressions sample_tracked = [''x'', ''y'']"
    by (simp_all add: sample_tracked_def)
  show "validate_name (m_name sample_tracked) = Inr ()" unfolding name by code_simp
  show "printable_values [''1'', ''2'']" by code_simp
  show "adapter_wf sample_adapter" unfolding sample_adapter_def by (intro adapter_wf_set adapter_wf_new)
  show "map_of (da_active sample_adapter) (m_name sample_tracked) = Some sample_tracked"
    unfolding name sample_adapter_def using name by (simp add: active_after)
qed

lemma sample_logpoint_parsed:
  "parse_logpoint_output sample_parser go_extract_thread_info 0 (go_logpoint_output 7 (m_name sample_tracked) [''1'', ''2''])
     (da_active sample_adapter) = Some sample_logpoint_event"
  using go_logpoint_roundtrip[of sample_tracked 7 "[''1'', ''2'']" sample_adapter 4 sample_parser 0] sample_tracked_facts
  by (auto simp: sample_logpoint_event_def)

lemma one_message_fits:
  "libraries_fit one_message_json (\<lambda>_. Some (from_event sample_logpoint_event None)) sample_gzip (\<lambda>b. Some (drop 2 b))"
  by (auto simp: libraries_fit_def one_message_json_def sample_gzip_def GELF_CHUNK_MAGIC_def)


end
